(* ===== verification/Prelude.thy ===== *)
theory Prelude
  imports Complex_Main "HOL-Library.Word"
begin

text \<open>
  Shared vocabulary of the development: the machine integer types of the C code, the
  collections of rewrite rules the component theories fill, and the facts about lists,
  words and circular index arithmetic that more than one component needs.
\<close>

unbundle bit_operations_syntax

section \<open>Machine integers\<close>

type_synonym u8 = "8 word"
type_synonym u16 = "16 word"
type_synonym u32 = "32 word"
type_synonym u64 = "64 word"

type_synonym bytes = "u8 list"

named_theorems frame "which fields an operation leaves alone"
named_theorems ring "circular buffers seen as lists"

section \<open>Arrays indexed by stream or by PID\<close>

text \<open>
  A C array with a fixed small index range is a function from its index; an increment of
  one cell is \<open>bump\<close>.
\<close>

definition bump :: "('i \<Rightarrow> u64) \<Rightarrow> 'i \<Rightarrow> ('i \<Rightarrow> u64)" where
  "bump f i = f(i := f i + 1)"

lemma bump_same [simp]: "bump f i i = f i + 1"
  by (simp add: bump_def)

lemma bump_other [simp]: "j \<noteq> i \<Longrightarrow> bump f i j = f j"
  by (simp add: bump_def)

section \<open>Four-bit counters\<close>

text \<open>The continuity counter arithmetic of the code: \<open>(cc + k) & 0x0f\<close> on a byte.\<close>

lemma and_15_mod: "x AND 15 = x mod (16 :: u8)"
proof -
  have "x AND mask 4 = take_bit 4 x" by (simp add: take_bit_eq_mask)
  then show ?thesis by (simp add: take_bit_eq_mod mask_eq_exp_minus_1)
qed

lemma unat_and_15: "unat (x AND (15 :: u8)) = unat x mod 16"
  by (simp add: and_15_mod unat_mod)

lemma and_15_less: "x AND 15 < (16 :: u8)"
  by (simp add: word_less_nat_alt unat_and_15)

text \<open>A four-bit counter that advances by \<open>m + 1\<close> repeats after 16 steps.\<close>

lemma counter_advance:
  fixes a m :: nat
  assumes "a < 16"
  shows "(a + 1 + m) mod 16 = a \<longleftrightarrow> m mod 16 = 15"
    and "(a + 1 + m) mod 16 = (a + 1) mod 16 \<longleftrightarrow> m mod 16 = 0"
proof -
  have m: "(a + 1 + m) mod 16 = (a + 1 + m mod 16) mod 16" by (metis mod_add_right_eq)
  have r: "(a + 1 + r) mod 16 = a \<longleftrightarrow> r = 15" "(a + 1 + r) mod 16 = (a + 1) mod 16 \<longleftrightarrow> r = 0"
    if "r < 16" for r
    using assms that by (cases "a + 1 + r < 16"; cases "a = 15"; auto simp: le_mod_geq not_less)+
  show "(a + 1 + m) mod 16 = a \<longleftrightarrow> m mod 16 = 15"
    and "(a + 1 + m) mod 16 = (a + 1) mod 16 \<longleftrightarrow> m mod 16 = 0"
    unfolding m by (rule r, simp)+
qed

section \<open>Bit fields\<close>

text \<open>A word none of whose bits from \<open>n\<close> on is set is below \<open>2 ^ n\<close>.\<close>

lemma word_less_exp_if_bits:
  fixes w :: "'a::len word"
  assumes "\<And>m. n \<le> m \<Longrightarrow> \<not> bit w m" and "n < LENGTH('a)"
  shows "w < 2 ^ n"
proof -
  have "w AND mask n = w"
    by (rule bit_word_eqI) (use assms in \<open>auto simp: bit_simps not_less [symmetric]\<close>)
  then show ?thesis using and_mask_less_size [of n w] assms(2) by (simp add: word_size)
qed

lemma word_less_exp_bits:
  fixes w :: "'a::len word"
  assumes "w < 2 ^ n" and "bit w m" and "n < LENGTH('a)"
  shows "m < n"
proof -
  have "w AND mask n = w" using assms(1) by (rule less_mask_eq)
  then have "bit (w AND mask n) m" using assms(2) by simp
  then show ?thesis by (simp add: bit_simps)
qed

lemma bit_u8_less: "bit (b :: u8) m \<Longrightarrow> m < 8"
  using bit_imp_le_length [of b m] by simp

lemma bit_mask_less: "bit (mask n :: 'a::len word) m \<Longrightarrow> m < n"
  by (simp add: bit_simps)

lemma mask_u8: "(31 :: u8) = mask 5" "(15 :: u8) = mask 4" "(3 :: u8) = mask 2"
  by (simp_all add: mask_eq_exp_minus_1)

text \<open>The bits of shifted and widened bytes, for goals about assembled fields.\<close>

lemmas field_bits = bit_or_iff bit_and_iff bit_push_bit_iff bit_drop_bit_eq bit_unsigned_iff o_def

section \<open>Counting loops on words\<close>

text \<open>The step \<open>i++\<close> of a loop guarded by \<open>i < n\<close> does not wrap.\<close>

lemma unat_inc_less: "(i :: 'a::len word) < n \<Longrightarrow> unat (i + 1) = Suc (unat i)"
proof -
  assume "i < n"
  then have "unat i < unat n" by (simp add: word_less_nat_alt)
  also have "unat n < 2 ^ LENGTH('a)" by (rule unsigned_less)
  finally have "Suc (unat i) < 2 ^ LENGTH('a) \<or> unat i + 1 < 2 ^ LENGTH('a)" using \<open>unat i < unat n\<close>
      \<open>unat n < 2 ^ LENGTH('a)\<close> by linarith
  then show ?thesis by (simp add: unat_word_ariths)
qed

lemma word_loop_measure: "(i :: 'a::len word) < n \<Longrightarrow> unat n - unat (i + 1) < unat n - unat i"
  by (simp add: unat_inc_less word_less_nat_alt)

section \<open>Circular buffers\<close>

text \<open>
  The packet histories and the delay queues store \<open>count\<close> elements of a fixed array
  \<open>xs\<close> of length \<open>cap\<close>, beginning at \<open>start\<close> and wrapping. \<open>ring_list\<close> is the
  list of the stored elements, oldest first.
\<close>

definition ring_list :: "'a list \<Rightarrow> nat \<Rightarrow> nat \<Rightarrow> nat \<Rightarrow> 'a list" where
  "ring_list xs cap start count = map (\<lambda>i. xs ! ((start + i) mod cap)) [0..<count]"

lemma length_ring_list [simp]: "length (ring_list xs cap start count) = count"
  by (simp add: ring_list_def)

lemma ring_list_nth [simp]:
  "i < count \<Longrightarrow> ring_list xs cap start count ! i = xs ! ((start + i) mod cap)"
  by (simp add: ring_list_def)

lemma ring_list_empty_iff [simp]: "ring_list xs cap start count = [] \<longleftrightarrow> count = 0"
  by (simp add: ring_list_def)

lemma ring_list_0 [simp]: "ring_list xs cap start 0 = []"
  by (simp add: ring_list_def)

lemma ring_slot_inj:
  fixes i j cap start :: nat
  assumes "(start + i) mod cap = (start + j) mod cap" and "i < cap" and "j < cap"
  shows "i = j"
proof -
  have "i mod cap = j mod cap"
    using assms(1) unfolding nat_mod_eq_iff by (simp add: add.assoc)
  then show ?thesis using assms by simp
qed

lemma ring_list_push:
  assumes "count < cap" and "length xs = cap"
  shows "ring_list (xs[(start + count) mod cap := x]) cap start (Suc count) =
         ring_list xs cap start count @ [x]"
proof (rule nth_equalityI)
  fix i assume i: "i < length (ring_list (xs[(start + count) mod cap := x]) cap start (Suc count))"
  have slot: "(start + count) mod cap < length xs" using assms by simp
  show "ring_list (xs[(start + count) mod cap := x]) cap start (Suc count) ! i =
        (ring_list xs cap start count @ [x]) ! i"
  proof (cases "i = count")
    case True
    then show ?thesis using slot by (simp add: nth_append)
  next
    case False
    with i have "i < count" by simp
    moreover have "(start + i) mod cap \<noteq> (start + count) mod cap"
      using ring_slot_inj [of start i cap count] \<open>i < count\<close> assms by auto
    ultimately show ?thesis by (simp add: nth_append)
  qed
qed simp

lemma ring_list_pop:
  assumes "0 < count"
  shows "ring_list xs cap ((start + 1) mod cap) (count - 1) = tl (ring_list xs cap start count)"
  by (rule nth_equalityI) (auto simp: nth_tl mod_simps add.assoc)

lemma ring_list_overwrite:
  assumes "0 < cap" and "length xs = cap" and "start < cap"
  shows "ring_list (xs[start := x]) cap ((start + 1) mod cap) cap =
         tl (ring_list xs cap start cap) @ [x]"
proof (rule nth_equalityI)
  fix i assume i: "i < length (ring_list (xs[start := x]) cap ((start + 1) mod cap) cap)"
  show "ring_list (xs[start := x]) cap ((start + 1) mod cap) cap ! i =
        (tl (ring_list xs cap start cap) @ [x]) ! i"
  proof (cases "i = cap - 1")
    case True
    then have "((start + 1) mod cap + i) mod cap = (start + cap) mod cap"
      using assms by (simp only: mod_simps) simp
    then have "((start + 1) mod cap + i) mod cap = start"
      using assms by simp
    then show ?thesis using True assms by (simp add: nth_append)
  next
    case False
    with i have less: "Suc i < cap" by simp
    have "(start + Suc i) mod cap \<noteq> (start + 0) mod cap"
      using ring_slot_inj [of start "Suc i" cap 0] less assms by auto
    moreover have "i < cap - 1" using less by simp
    ultimately show ?thesis using less assms
      by (simp add: nth_append nth_tl mod_simps add.assoc)
  qed
qed (use assms in simp)

lemma hd_ring_list: "0 < count \<Longrightarrow> start < cap \<Longrightarrow> hd (ring_list xs cap start count) = xs ! start"
  by (simp add: hd_conv_nth)

lemmas ring_list_ops [ring] = ring_list_push ring_list_pop ring_list_overwrite hd_ring_list

end
