(* ===== verification/Ts_Packet.thy ===== *)
theory Ts_Packet
  imports Prelude
begin

text \<open>
  The MPEG-TS packet header parser (src/src/ts_packet.c, src/src/ts_packet.h).

  A packet is a list of bytes; the callers always pass 188 of them. The parser fills an
  out-parameter and returns whether the packet is acceptable, so \<open>ts_packet_parse\<close> takes
  the previous contents of the out-parameter and returns the pair of both. The
  properties say which packets are accepted, that every parsed field is within its range
  (so that a PID is a valid index of the 8192-entry tables), and that a header and a PCR
  laid out as the standard prescribes are read back.
\<close>

section \<open>Constants and the parsed header\<close>

definition TS_PACKET_SIZE :: nat where "TS_PACKET_SIZE = 188"
definition TS_SYNC_BYTE :: u8 where "TS_SYNC_BYTE = 0x47"
definition TS_NULL_PID :: u16 where "TS_NULL_PID = 0x1fff"

record ts_packet_info =
  info_pid :: u16
  info_continuity_counter :: u8
  adaptation_field_control :: u8
  info_transport_error :: bool
  payload_unit_start :: bool
  info_has_payload :: bool
  has_adaptation :: bool
  info_discontinuity_indicator :: bool
  info_has_pcr :: bool
  pcr_base :: u64
  pcr_extension :: u16
  info_is_null :: bool

text \<open>What \<open>memset(info, 0, sizeof *info)\<close> leaves.\<close>

definition zero_info :: ts_packet_info where
  "zero_info = \<lparr> info_pid = 0, info_continuity_counter = 0, adaptation_field_control = 0,
     info_transport_error = False, payload_unit_start = False, info_has_payload = False,
     has_adaptation = False, info_discontinuity_indicator = False, info_has_pcr = False,
     pcr_base = 0, pcr_extension = 0, info_is_null = False \<rparr>"

section \<open>The parser\<close>

definition ts_packet_has_sync :: "bytes \<Rightarrow> bool" where
  "ts_packet_has_sync packet \<longleftrightarrow> packet ! 0 = TS_SYNC_BYTE"

text \<open>Lines 18 to 26: the four header bytes.\<close>

definition ts_parse_header :: "bytes \<Rightarrow> ts_packet_info" where
  "ts_parse_header packet =
     (let b1 = packet ! 1; b2 = packet ! 2; b3 = packet ! 3;
          afc = drop_bit 4 b3 AND 0x03;
          pid = (push_bit 8 (ucast (b1 AND 0x1f)) OR ucast b2 :: u16)
      in zero_info\<lparr>
           info_transport_error := (b1 AND 0x80 \<noteq> 0),
           payload_unit_start := (b1 AND 0x40 \<noteq> 0),
           info_pid := pid,
           adaptation_field_control := afc,
           info_continuity_counter := b3 AND 0x0f,
           has_adaptation := (afc = 2 \<or> afc = 3),
           info_has_payload := (afc = 1 \<or> afc = 3),
           info_is_null := (pid = TS_NULL_PID) \<rparr>)"

text \<open>Lines 46 to 52: the clock reference of the adaptation field.\<close>

definition ts_parse_pcr_base :: "bytes \<Rightarrow> u64" where
  "ts_parse_pcr_base packet =
     push_bit 25 (ucast (packet ! 6)) OR
     push_bit 17 (ucast (packet ! 7)) OR
     push_bit 9 (ucast (packet ! 8)) OR
     push_bit 1 (ucast (packet ! 9)) OR
     drop_bit 7 (ucast (packet ! 10))"

definition ts_parse_pcr_extension :: "bytes \<Rightarrow> u16" where
  "ts_parse_pcr_extension packet =
     push_bit 8 (ucast (packet ! 10 AND 0x01)) OR ucast (packet ! 11)"

definition ts_packet_parse :: "bytes \<Rightarrow> ts_packet_info \<Rightarrow> bool \<times> ts_packet_info" where
  "ts_packet_parse packet info =
     (if \<not> ts_packet_has_sync packet then (False, info)
      else
        let info = ts_parse_header packet in
        if adaptation_field_control info = 0 then (False, info)
        else if \<not> has_adaptation info then (True, info)
        else
          let adaptation_length = packet ! 4 in
          if adaptation_length = 0 then (True, info)
          else if TS_PACKET_SIZE < 5 + unat adaptation_length then (False, info)
          else
            let flags = packet ! 5;
                info = info\<lparr>info_discontinuity_indicator := (flags AND 0x80 \<noteq> 0),
                            info_has_pcr := (flags AND 0x10 \<noteq> 0)\<rparr>
            in if info_has_pcr info \<and> 7 \<le> adaptation_length
               then (True, info\<lparr>pcr_base := ts_parse_pcr_base packet,
                                pcr_extension := ts_parse_pcr_extension packet\<rparr>)
               else (True, info\<lparr>info_has_pcr := False\<rparr>))"

section \<open>Field ranges\<close>

lemma pid_bits_less: "(push_bit 8 (ucast ((b1::u8) AND 0x1f)) OR ucast (b2::u8) :: u16) < 0x2000"
proof -
  have "\<not> bit (push_bit 8 (ucast (b1 AND mask 5)) OR ucast b2 :: u16) m" if "13 \<le> m" for m
    unfolding field_bits using that by (auto dest: bit_u8_less bit_mask_less)
  then have "(push_bit 8 (ucast (b1 AND mask 5)) OR ucast b2 :: u16) < 2 ^ 13"
    by (rule word_less_exp_if_bits) simp_all
  then show ?thesis by (simp add: mask_u8)
qed

lemma flag_bits: "(x AND 0x80 \<noteq> (0 :: u8)) = bit x 7" "(x AND 0x40 \<noteq> (0 :: u8)) = bit x 6"
  using bit_iff_and_push_bit_not_eq_0 [of x 7] bit_iff_and_push_bit_not_eq_0 [of x 6] by simp_all

lemma pcr_base_less: "ts_parse_pcr_base packet < 2 ^ 33"
proof (rule word_less_exp_if_bits)
  show "\<not> bit (ts_parse_pcr_base packet) m" if "33 \<le> m" for m
    unfolding ts_parse_pcr_base_def field_bits using that by (auto dest: bit_u8_less)
qed simp

lemma pcr_extension_less: "ts_parse_pcr_extension packet < 2 ^ 9"
proof (rule word_less_exp_if_bits)
  show "\<not> bit (ts_parse_pcr_extension packet) m" if "9 \<le> m" for m
    unfolding ts_parse_pcr_extension_def field_bits
    using that by (auto simp: bit_1_iff dest: bit_u8_less)
qed simp

lemma two_bits_cases: "(x AND 3 :: u8) \<in> {0, 1, 2, 3}"
proof -
  have "x AND mask 2 < 2 ^ 2" by (rule and_mask_less_size) (simp add: word_size)
  then have "unat (x AND 3) < 4" by (simp add: mask_u8(3) [symmetric] word_less_nat_alt)
  then have "unat (x AND 3) \<in> {unat (0::u8), unat (1::u8), unat (2::u8), unat (3::u8)}" by auto
  then show ?thesis by (auto simp only: insert_iff empty_iff word_unat_eq_iff [symmetric])
qed

text \<open>
  Every packet the parser accepts has all its fields within the ranges the rest of
  the program relies on: the PID indexes the 8192-entry tables, the continuity counter
  has four bits, the packet is a null packet exactly when its PID is 0x1fff, payload and
  adaptation flags agree with the two control bits, which are not the reserved value 0,
  and a packet with a clock reference has a 33-bit base and a 9-bit extension.
\<close>

lemma ts_packet_parse_ranges:
  assumes "ts_packet_parse packet info = (True, info')"
  shows "info_pid info' < 8192 \<and> info_continuity_counter info' < 16 \<and>
         (info_is_null info' \<longleftrightarrow> info_pid info' = 0x1fff) \<and>
         adaptation_field_control info' \<in> {1, 2, 3} \<and>
         (info_has_payload info' \<longleftrightarrow> adaptation_field_control info' \<noteq> 2) \<and>
         (has_adaptation info' \<longleftrightarrow> adaptation_field_control info' \<noteq> 1) \<and>
         pcr_base info' < 2 ^ 33 \<and> pcr_extension info' < 2 ^ 9"
  using assms two_bits_cases [of "drop_bit 4 (packet ! 3)"]
    pid_bits_less [of "packet ! 1" "packet ! 2"] and_15_less [of "packet ! 3"]
    pcr_base_less [of packet] pcr_extension_less [of packet]
  by (auto simp: ts_packet_parse_def ts_parse_header_def Let_def zero_info_def TS_NULL_PID_def
      split: if_splits)

section \<open>Acceptance and read-back\<close>

text \<open>
  The parser accepts a packet exactly when it starts with the sync byte, its
  adaptation field control is not the reserved value 0, and an adaptation field that is
  present ends within the 188 bytes.
\<close>

lemma ts_packet_parse_accepts:
  "fst (ts_packet_parse packet info) \<longleftrightarrow>
   packet ! 0 = 0x47 \<and> drop_bit 4 (packet ! 3) AND 3 \<noteq> 0 \<and>
   (drop_bit 4 (packet ! 3) AND 3 = 1 \<or> unat (packet ! 4) \<le> 183)"
  using two_bits_cases [of "drop_bit 4 (packet ! 3)"]
  by (auto simp: ts_packet_parse_def ts_packet_has_sync_def ts_parse_header_def Let_def
      zero_info_def TS_SYNC_BYTE_def TS_PACKET_SIZE_def)

text \<open>
  The layout of the standard, for the read-back theorem: the three bytes after the sync
  byte, and the six bytes of a clock reference.
\<close>

definition encode_header :: "bool \<Rightarrow> bool \<Rightarrow> u16 \<Rightarrow> u8 \<Rightarrow> u8 \<Rightarrow> bytes" where
  "encode_header tei pusi p afc cc =
     [0x47,
      (if tei then 0x80 else 0) OR (if pusi then 0x40 else 0) OR ucast (drop_bit 8 p),
      ucast p,
      push_bit 4 afc OR cc]"

definition encode_pcr :: "u64 \<Rightarrow> u16 \<Rightarrow> bytes" where
  "encode_pcr base ext =
     [ucast (drop_bit 25 base), ucast (drop_bit 17 base), ucast (drop_bit 9 base),
      ucast (drop_bit 1 base),
      push_bit 7 (ucast base) OR 0x7e OR ucast (drop_bit 8 ext),
      ucast ext]"

lemma parse_pcr_base_encode:
  assumes "base < 2 ^ 33" and "\<And>i. i < 6 \<Longrightarrow> packet ! (6 + i) = encode_pcr base ext ! i"
    and "ext < 2 ^ 9"
  shows "ts_parse_pcr_base packet = base"
proof -
  have b: "packet ! 6 = ucast (drop_bit 25 base)" "packet ! 7 = ucast (drop_bit 17 base)"
    "packet ! 8 = ucast (drop_bit 9 base)" "packet ! 9 = ucast (drop_bit 1 base)"
    "packet ! 10 = push_bit 7 (ucast base) OR 0x7e OR ucast (drop_bit 8 ext)"
    using assms(2) [of 0] assms(2) [of 1] assms(2) [of 2] assms(2) [of 3] assms(2) [of 4]
    by (simp_all add: encode_pcr_def)
  show ?thesis
  proof (rule bit_word_eqI)
    fix m assume "m < LENGTH(64)"
    have hi: "m < 33" if "bit base m" using word_less_exp_bits [OF assms(1) that] by simp
    have x7e: "\<not> bit (0x7e :: u8) 7" by simp
    have ext: "\<not> bit ext 15" using word_less_exp_bits [OF assms(3), of 15] by auto
    consider "m = 0" | "1 \<le> m" "m < 9" | "9 \<le> m" "m < 17" | "17 \<le> m" "m < 25"
      | "25 \<le> m" "m < 33" | "33 \<le> m" by linarith
    then show "bit (ts_parse_pcr_base packet) m = bit base m"
      unfolding ts_parse_pcr_base_def b field_bits
      by cases (use hi x7e ext in \<open>auto dest: bit_u8_less\<close>)
  qed
qed

lemma parse_pcr_extension_encode:
  assumes "ext < 2 ^ 9" and "packet ! 10 = encode_pcr base ext ! 4"
    and "packet ! 11 = encode_pcr base ext ! 5"
  shows "ts_parse_pcr_extension packet = ext"
proof -
  have b: "packet ! 10 = push_bit 7 (ucast base) OR 0x7e OR ucast (drop_bit 8 ext)"
    "packet ! 11 = ucast ext"
    using assms(2,3) by (simp_all add: encode_pcr_def)
  show ?thesis
  proof (rule bit_word_eqI)
    fix m assume "m < LENGTH(16)"
    have hi: "m < 9" if "bit ext m" using word_less_exp_bits [OF assms(1) that] by simp
    consider "m < 8" | "m = 8" | "9 \<le> m" by linarith
    then show "bit (ts_parse_pcr_extension packet) m = bit ext m"
      unfolding ts_parse_pcr_extension_def b field_bits
      by cases (use hi in \<open>auto simp: bit_1_iff dest: bit_u8_less\<close>)
  qed
qed

lemma parse_header_encode:
  assumes "p < 0x2000" and "afc < 4" and "cc < 16"
    and "\<And>i. i < 4 \<Longrightarrow> packet ! i = encode_header tei pusi p afc cc ! i"
  shows "ts_parse_header packet = zero_info\<lparr>info_transport_error := tei, payload_unit_start := pusi,
     info_pid := p, adaptation_field_control := afc, info_continuity_counter := cc,
     has_adaptation := (afc = 2 \<or> afc = 3), info_has_payload := (afc = 1 \<or> afc = 3),
     info_is_null := (p = TS_NULL_PID)\<rparr>"
proof -
  have b: "packet ! 1 = (if tei then 0x80 else 0) OR (if pusi then 0x40 else 0) OR ucast (drop_bit 8 p)"
    "packet ! 2 = ucast p" "packet ! 3 = push_bit 4 afc OR cc"
    using assms(4) [of 1] assms(4) [of 2] assms(4) [of 3] by (simp_all add: encode_header_def)
  have p13: "m < 13" if "bit p m" for m
    using word_less_exp_bits [of p 13 m] that assms(1) by simp
  have a2: "m < 2" if "bit afc m" for m
    using word_less_exp_bits [of afc 2 m] that assms(2) by simp
  have c4: "m < 4" if "bit cc m" for m
    using word_less_exp_bits [of cc 4 m] that assms(3) by simp
  have afc: "drop_bit 4 (packet ! 3) AND mask 2 = afc"
    unfolding b by (rule bit_word_eqI) (unfold field_bits bit_mask_iff, auto dest: a2 c4)
  have cc: "packet ! 3 AND mask 4 = cc"
    unfolding b by (rule bit_word_eqI) (unfold field_bits bit_mask_iff, auto dest: a2 c4)
  have low: "packet ! 1 AND mask 5 = ucast (drop_bit 8 p)"
    unfolding b by (rule bit_word_eqI)
      (unfold field_bits bit_mask_iff, auto simp: bit_simps numeral_eq_Suc less_Suc_eq dest: p13)
  have pid: "(push_bit 8 (ucast (packet ! 1 AND mask 5)) OR ucast (packet ! 2) :: u16) = p"
    unfolding low unfolding b
    by (rule bit_word_eqI) (unfold field_bits, auto dest: p13 bit_u8_less)
  have top: "(packet ! 1 AND 0x80 \<noteq> 0) = tei" "(packet ! 1 AND 0x40 \<noteq> 0) = pusi"
    unfolding flag_bits b
    by (auto simp: bit_simps numeral_eq_Suc dest: p13)
  show ?thesis
    using afc cc pid top by (simp add: ts_parse_header_def Let_def mask_u8)
qed

text \<open>
  C28. A packet laid out as the standard prescribes is read back: for any header fields in
  range and any adaptation field of 7 to 183 bytes whose flags announce a clock
  reference, the parser accepts the packet and returns exactly those fields and that
  clock reference.
\<close>

theorem ts_packet_parse_encoded:
  assumes "p < 0x2000" and "afc \<in> {2, 3}" and "cc < 16" and "base < 2 ^ 33" and "ext < 2 ^ 9"
    and "\<And>i. i < 4 \<Longrightarrow> packet ! i = encode_header tei pusi p afc cc ! i"
    and "7 \<le> packet ! 4" and "packet ! 4 \<le> 183" and "packet ! 5 AND 0x10 \<noteq> 0"
    and "\<And>i. i < 6 \<Longrightarrow> packet ! (6 + i) = encode_pcr base ext ! i"
  shows "ts_packet_parse packet info =
     (True, \<lparr> info_pid = p, info_continuity_counter = cc, adaptation_field_control = afc,
        info_transport_error = tei, payload_unit_start = pusi, info_has_payload = (afc = 3),
        has_adaptation = True, info_discontinuity_indicator = (packet ! 5 AND 0x80 \<noteq> 0),
        info_has_pcr = True, pcr_base = base, pcr_extension = ext,
        info_is_null = (p = 0x1fff) \<rparr>)"
proof -
  have sync: "packet ! 0 = 0x47" using assms(6) [of 0] by (simp add: encode_header_def)
  have base: "ts_parse_pcr_base packet = base"
    by (rule parse_pcr_base_encode [OF assms(4) assms(10) assms(5)])
  have ext: "ts_parse_pcr_extension packet = ext"
    using assms(10) [of 4] assms(10) [of 5]
    by (intro parse_pcr_extension_encode [OF assms(5)]) simp_all
  have "afc < 4" using assms(2) by auto
  note hdr = parse_header_encode [OF assms(1) this assms(3) assms(6)]
  have len: "packet ! 4 \<noteq> 0" "unat (packet ! 4) \<le> 183"
    using assms(7,8) by (auto simp: word_le_nat_alt)
  show ?thesis
    using assms(2,7,9) sync len
    by (auto simp: ts_packet_parse_def ts_packet_has_sync_def TS_SYNC_BYTE_def hdr base ext
        zero_info_def TS_NULL_PID_def TS_PACKET_SIZE_def)
qed

section \<open>A concrete packet\<close>

text \<open>PID 0x100, counter 5, payload and a clock reference, padded to 188 bytes.\<close>

definition example_pcr_packet :: bytes where
  "example_pcr_packet =
     encode_header False True 0x100 3 5 @ [7, 0x10] @ encode_pcr 0x123456789 0x12c @ replicate 176 0"

lemma ts_packet_parse_ranges_witness:
  "info_pid (snd (ts_packet_parse example_pcr_packet zero_info)) < 8192"
proof -
  have "ts_packet_parse example_pcr_packet zero_info =
        (True, snd (ts_packet_parse example_pcr_packet zero_info))"
    by (simp add: ts_packet_parse_def ts_packet_has_sync_def ts_parse_header_def Let_def
        zero_info_def TS_SYNC_BYTE_def TS_PACKET_SIZE_def example_pcr_packet_def
        encode_header_def encode_pcr_def)
  from ts_packet_parse_ranges [OF this] show ?thesis by blast
qed

lemma ts_packet_parse_encoded_witness:
  "pcr_base (snd (ts_packet_parse example_pcr_packet zero_info)) = 0x123456789"
proof -
  have hdr: "example_pcr_packet ! i = encode_header False True 0x100 3 5 ! i" if "i < 4" for i
    using that by (simp add: example_pcr_packet_def nth_append encode_header_def [THEN arg_cong, of length])
  have pcr: "example_pcr_packet ! (6 + i) = encode_pcr 0x123456789 0x12c ! i" if "i < 6" for i
    using that by (simp add: example_pcr_packet_def nth_append encode_header_def [THEN arg_cong, of length]
        encode_pcr_def [THEN arg_cong, of length])
  have af: "example_pcr_packet ! 4 = 7" "example_pcr_packet ! 5 = 0x10"
    by (simp_all add: example_pcr_packet_def encode_header_def)
  show ?thesis
    by (subst ts_packet_parse_encoded [OF _ _ _ _ _ hdr _ _ _ pcr]) (simp_all add: af)
qed

end
