(* ===== verification/Packet_Record.thy ===== *)
theory Packet_Record
  imports Ts_Packet
begin

text \<open>
  The record kept for every received packet and the comparisons between records
  (src/src/recovery_engine.h lines 77 to 94, src/src/recovery_engine.c lines 32 to 43 and
  261 to 285). A C pointer to a record that may be null is an option.
\<close>

record packet_record =
  source_stream_id :: int
  stream_index :: u64
  arrival_time :: "int \<times> int"
  arrival_time_ns :: u64
  pid :: u16
  continuity_counter :: u8
  has_payload :: bool
  has_pcr :: bool
  is_null :: bool
  transport_error :: bool
  discontinuity_indicator :: bool
  stream_continuity_errors :: u64
  stream_duplicate_counters :: u64
  pcr_value :: u64
  hash :: u64
  packet :: bytes

definition zero_record :: packet_record where
  "zero_record = \<lparr> source_stream_id = 0, stream_index = 0, arrival_time = (0, 0),
     arrival_time_ns = 0, pid = 0, continuity_counter = 0, has_payload = False, has_pcr = False,
     is_null = False, transport_error = False, discontinuity_indicator = False,
     stream_continuity_errors = 0, stream_duplicate_counters = 0, pcr_value = 0, hash = 0,
     packet = replicate TS_PACKET_SIZE 0 \<rparr>"

text \<open>The 64-bit FNV hash with the code's offset basis, over the first 188 bytes.\<close>

definition hash_packet :: "bytes \<Rightarrow> u64" where
  "hash_packet p =
     foldl (\<lambda>h b. (h XOR ucast b) * 1099511628211) 1469598103934665603 (take TS_PACKET_SIZE p)"

definition record_is_informative :: "packet_record \<Rightarrow> bool" where
  "record_is_informative r \<longleftrightarrow>
     \<not> is_null r \<and> \<not> transport_error r \<and> \<not> discontinuity_indicator r"

definition records_match :: "packet_record \<Rightarrow> packet_record \<Rightarrow> bool" where
  "records_match a b \<longleftrightarrow> record_is_informative a \<and> record_is_informative b \<and>
     hash a = hash b \<and> pid a = pid b \<and> continuity_counter a = continuity_counter b"

definition records_exact_non_error_match :: "packet_record \<Rightarrow> packet_record \<Rightarrow> bool" where
  "records_exact_non_error_match a b \<longleftrightarrow>
     \<not> transport_error a \<and> \<not> transport_error b \<and>
     \<not> discontinuity_indicator a \<and> \<not> discontinuity_indicator b \<and>
     hash a = hash b \<and> pid a = pid b \<and> continuity_counter a = continuity_counter b"

definition records_are_non_null_exact_anchor ::
    "packet_record option \<Rightarrow> packet_record option \<Rightarrow> bool" where
  "records_are_non_null_exact_anchor a b \<longleftrightarrow>
     (case (a, b) of
        (Some x, Some y) \<Rightarrow> \<not> is_null x \<and> \<not> is_null y \<and> records_exact_non_error_match x y
      | _ \<Rightarrow> False)"

lemma records_match_sym: "records_match a b \<longleftrightarrow> records_match b a"
  by (auto simp: records_match_def)

lemma records_match_iff_exact:
  "records_match a b \<longleftrightarrow> records_exact_non_error_match a b \<and> \<not> is_null a \<and> \<not> is_null b"
  by (auto simp: records_match_def records_exact_non_error_match_def record_is_informative_def)

lemma non_null_exact_anchor_Some [simp]:
  "records_are_non_null_exact_anchor (Some a) (Some b) \<longleftrightarrow> records_match a b"
  by (auto simp: records_are_non_null_exact_anchor_def records_match_iff_exact)

lemma non_null_exact_anchor_None [simp]:
  "\<not> records_are_non_null_exact_anchor None b" "\<not> records_are_non_null_exact_anchor a None"
  by (auto simp: records_are_non_null_exact_anchor_def split: option.splits)

lemma non_null_exact_anchor_iff:
  "records_are_non_null_exact_anchor a b \<longleftrightarrow>
     (\<exists>x y. a = Some x \<and> b = Some y \<and> records_match x y)"
  by (cases a; cases b) simp_all

end
