(* ===== verification/Packet_History.thy ===== *)
theory Packet_History
  imports Packet_Record
begin

text \<open>
  The rolling packet history of one input (src/src/recovery_engine.c lines 139 to 209): a
  circular buffer of records that overwrites its oldest entry when full. Slots are what the
  C code passes around as record pointers. \<open>hist_list\<close> is the history as a list, oldest
  first; every operation is shown to be the list operation it implements, and a lookup by
  stream index finds exactly the record with that index.
\<close>

record packet_history =
  hist_records :: "packet_record list"
  hist_capacity :: nat
  hist_start :: nat
  hist_count :: nat

definition zero_history :: packet_history where
  "zero_history = \<lparr>hist_records = [], hist_capacity = 0, hist_start = 0, hist_count = 0\<rparr>"

text \<open>\<open>alloc_ok\<close> tells whether \<open>calloc\<close> succeeds.\<close>

definition packet_history_init :: "bool \<Rightarrow> nat \<Rightarrow> int \<times> packet_history" where
  "packet_history_init alloc_ok capacity =
     (if \<not> alloc_ok then (-1, zero_history)
      else (0, \<lparr>hist_records = replicate capacity zero_record, hist_capacity = capacity,
                hist_start = 0, hist_count = 0\<rparr>))"

definition packet_history_push :: "packet_history \<Rightarrow> nat \<times> packet_history" where
  "packet_history_push h =
     (if hist_count h < hist_capacity h
      then ((hist_start h + hist_count h) mod hist_capacity h, h\<lparr>hist_count := hist_count h + 1\<rparr>)
      else (hist_start h, h\<lparr>hist_start := (hist_start h + 1) mod hist_capacity h\<rparr>))"

text \<open>Writing through the pointer that \<open>packet_history_push\<close> returned.\<close>

definition hist_store :: "packet_history \<Rightarrow> nat \<Rightarrow> packet_record \<Rightarrow> packet_history" where
  "hist_store h slot r = h\<lparr>hist_records := (hist_records h)[slot := r]\<rparr>"

definition hist_at :: "packet_history \<Rightarrow> nat \<Rightarrow> packet_record" where
  "hist_at h slot = hist_records h ! slot"

function packet_history_prune_older_than :: "packet_history \<Rightarrow> u64 \<Rightarrow> packet_history" where
  "packet_history_prune_older_than h cutoff_ns =
     (if 0 < hist_count h then
        if cutoff_ns \<le> arrival_time_ns (hist_records h ! hist_start h) then h
        else packet_history_prune_older_than
               (h\<lparr>hist_start := (hist_start h + 1) mod hist_capacity h,
                  hist_count := hist_count h - 1\<rparr>) cutoff_ns
      else h)"
  by pat_completeness auto
termination
  by (relation "measure (\<lambda>(h, cutoff). hist_count h)") auto

declare packet_history_prune_older_than.simps [simp del]

text \<open>The slot of the record with the given stream index, if it is still kept.\<close>

definition packet_history_find_index :: "packet_history \<Rightarrow> u64 \<Rightarrow> nat option" where
  "packet_history_find_index h idx =
     (if hist_count h = 0 then None
      else
        let oldest_stream_index = stream_index (hist_records h ! hist_start h)
        in if idx < oldest_stream_index then None
           else
             let offset = idx - oldest_stream_index
             in if hist_count h \<le> unat offset then None
                else
                  let index = (hist_start h + unat offset) mod hist_capacity h
                  in if stream_index (hist_records h ! index) \<noteq> idx then None else Some index)"

definition hist_find :: "packet_history \<Rightarrow> u64 \<Rightarrow> packet_record option" where
  "hist_find h idx = map_option (hist_at h) (packet_history_find_index h idx)"

section \<open>The history as a list\<close>

definition hist_ok :: "packet_history \<Rightarrow> bool" where
  "hist_ok h \<longleftrightarrow> length (hist_records h) = hist_capacity h \<and> 0 < hist_capacity h \<and>
     hist_start h < hist_capacity h \<and> hist_count h \<le> hist_capacity h"

definition hist_list :: "packet_history \<Rightarrow> packet_record list" where
  "hist_list h = ring_list (hist_records h) (hist_capacity h) (hist_start h) (hist_count h)"

lemma length_hist_list [simp]: "length (hist_list h) = hist_count h"
  by (simp add: hist_list_def)

text \<open>
  After \<open>n\<close> packets of a stream the history holds the last \<open>count\<close> of them, and the
  stream index of each is its arrival number.
\<close>

definition numbered :: "packet_history \<Rightarrow> nat \<Rightarrow> bool" where
  "numbered h n \<longleftrightarrow> hist_count h \<le> n \<and>
     (\<forall>i < hist_count h. unat (stream_index (hist_list h ! i)) = n - hist_count h + i)"

definition hist_push_record :: "packet_history \<Rightarrow> packet_record \<Rightarrow> packet_history" where
  "hist_push_record h r = (case packet_history_push h of (slot, h') \<Rightarrow> hist_store h' slot r)"

lemma hist_push_capacity [simp]: "hist_capacity (hist_push_record h r) = hist_capacity h"
  by (simp add: hist_push_record_def packet_history_push_def hist_store_def)

lemma hist_ok_push: "hist_ok h \<Longrightarrow> hist_ok (hist_push_record h r)"
  by (auto simp: hist_push_record_def packet_history_push_def hist_store_def hist_ok_def)

lemma hist_list_push:
  assumes "hist_ok h"
  shows "hist_list (hist_push_record h r) =
         (if hist_count h < hist_capacity h then hist_list h else tl (hist_list h)) @ [r]"
proof (cases "hist_count h < hist_capacity h")
  case True
  then show ?thesis using assms
    by (simp add: hist_push_record_def packet_history_push_def hist_store_def hist_list_def
        hist_ok_def ring_list_push)
next
  case False
  then have "hist_count h = hist_capacity h" using assms by (simp add: hist_ok_def)
  then show ?thesis using assms ring_list_overwrite [of "hist_capacity h" "hist_records h" "hist_start h" r]
    by (simp add: hist_push_record_def packet_history_push_def hist_store_def hist_list_def hist_ok_def)
qed

lemma hist_list_prune:
  "hist_ok h \<Longrightarrow>
   hist_list (packet_history_prune_older_than h c) = dropWhile (\<lambda>r. arrival_time_ns r < c) (hist_list h) \<and>
   hist_ok (packet_history_prune_older_than h c) \<and>
   hist_capacity (packet_history_prune_older_than h c) = hist_capacity h \<and>
   hist_records (packet_history_prune_older_than h c) = hist_records h"
proof (induction h c rule: packet_history_prune_older_than.induct)
  case (1 h c)
  let ?h' = "h\<lparr>hist_start := (hist_start h + 1) mod hist_capacity h, hist_count := hist_count h - 1\<rparr>"
  show ?case
  proof (cases "hist_count h = 0")
    case True
    then show ?thesis using "1.prems"
      by (simp add: packet_history_prune_older_than.simps [of h] hist_list_def)
  next
    case False
    have hd: "hd (hist_list h) = hist_records h ! hist_start h"
      using False "1.prems" by (simp add: hist_list_def hist_ok_def hd_ring_list)
    have ne: "hist_list h = hd (hist_list h) # tl (hist_list h)"
      using False by (metis hd_Cons_tl length_0_conv length_hist_list)
    have tl: "hist_list ?h' = tl (hist_list h)" and ok: "hist_ok ?h'"
      using False "1.prems" ring_list_pop [of "hist_count h" "hist_records h" "hist_capacity h" "hist_start h"]
      by (auto simp: hist_list_def hist_ok_def)
    show ?thesis
    proof (cases "c \<le> arrival_time_ns (hist_records h ! hist_start h)")
      case True
      then have "dropWhile (\<lambda>r. arrival_time_ns r < c) (hist_list h) = hist_list h"
        using hd by (cases "hist_list h") simp_all
      then show ?thesis using True False "1.prems"
        by (simp add: packet_history_prune_older_than.simps [of h])
    next
      case late: False
      have "dropWhile (\<lambda>r. arrival_time_ns r < c) (hist_list h) =
            dropWhile (\<lambda>r. arrival_time_ns r < c) (tl (hist_list h))"
        using late hd by (subst ne) simp
      then show ?thesis using "1.IH" [OF _ late ok] False late tl
        by (simp add: packet_history_prune_older_than.simps [of h])
    qed
  qed
qed

lemma hist_list_init:
  "0 < capacity \<Longrightarrow> packet_history_init True capacity = (r, h) \<Longrightarrow>
   r = 0 \<and> hist_ok h \<and> hist_list h = [] \<and> numbered h 0"
  by (auto simp: packet_history_init_def hist_ok_def hist_list_def numbered_def)

section \<open>Arrival numbers\<close>

lemma numbered_push:
  assumes "hist_ok h" and "numbered h n" and "unat (stream_index r) = n"
  shows "numbered (hist_push_record h r) (Suc n)"
proof -
  let ?h = "hist_push_record h r"
  have len: "hist_count ?h = (if hist_count h < hist_capacity h then Suc (hist_count h) else hist_count h)"
    by (simp add: hist_push_record_def packet_history_push_def hist_store_def)
  have pos: "hist_count h < hist_capacity h \<or> 0 < hist_count h"
    using assms(1) by (auto simp: hist_ok_def)
  have n: "hist_count h \<le> n" "\<And>i. i < hist_count h \<Longrightarrow> unat (stream_index (hist_list h ! i)) = n - hist_count h + i"
    using assms(2) by (simp_all add: numbered_def)
  show ?thesis
    unfolding numbered_def
    using n pos assms(3)
    by (auto simp: len hist_list_push [OF assms(1)] nth_append nth_tl less_Suc_eq Suc_diff_le)
qed

lemma hist_count_prune: "hist_count (packet_history_prune_older_than h c) \<le> hist_count h"
  by (induction h c rule: packet_history_prune_older_than.induct)
    (subst packet_history_prune_older_than.simps, simp, fastforce?)

lemma numbered_prune:
  assumes "hist_ok h" and "numbered h n"
  shows "numbered (packet_history_prune_older_than h c) n"
proof -
  let ?p = "packet_history_prune_older_than h c"
  have l: "hist_list ?p = dropWhile (\<lambda>r. arrival_time_ns r < c) (hist_list h)"
    using hist_list_prune [OF assms(1)] by blast
  define d where "d = length (takeWhile (\<lambda>r. arrival_time_ns r < c) (hist_list h))"
  have drop: "hist_list ?p = drop d (hist_list h)"
    unfolding l d_def by (rule dropWhile_eq_drop)
  have d: "d \<le> hist_count h"
    using length_takeWhile_le [of _ "hist_list h"] by (simp add: d_def)
  have len: "hist_count ?p = hist_count h - d"
    using arg_cong [OF drop, of length] by simp
  show ?thesis
    using assms(2) d by (auto simp: numbered_def len drop)
qed

text \<open>A lookup returns exactly the record with the given arrival number, while it is kept.\<close>

lemma hist_find_numbered:
  assumes "hist_ok h" and "numbered h n"
  shows "hist_find h idx =
     (if n - hist_count h \<le> unat idx \<and> unat idx < n
      then Some (hist_list h ! (unat idx - (n - hist_count h))) else None)"
proof (cases "hist_count h = 0")
  case True
  then show ?thesis by (simp add: hist_find_def packet_history_find_index_def)
next
  case False
  let ?c = "hist_count h" and ?o = "stream_index (hist_records h ! hist_start h)"
  have n: "?c \<le> n" "\<And>i. i < ?c \<Longrightarrow> unat (stream_index (hist_list h ! i)) = n - ?c + i"
    using assms(2) by (simp_all add: numbered_def)
  have o: "unat ?o = n - ?c"
    using n(2) [of 0] False assms(1) by (simp add: hist_list_def hist_ok_def)
  have nth: "hist_list h ! i = hist_records h ! ((hist_start h + i) mod hist_capacity h)" if "i < ?c" for i
    using that by (simp add: hist_list_def)
  show ?thesis
  proof (cases "?o \<le> idx")
    case ge: True
    then have off: "unat (idx - ?o) = unat idx - (n - ?c)" "n - ?c \<le> unat idx"
      using o by (simp_all add: unat_sub word_le_nat_alt)
    show ?thesis
    proof (cases "unat idx - (n - ?c) < ?c")
      case True
      let ?i = "unat idx - (n - ?c)"
      have "stream_index (hist_list h ! ?i) = idx"
        using n(2) [OF True] off(2) by (simp add: word_unat_eq_iff)
      then show ?thesis using True False ge off n(1)
        by (auto simp: hist_find_def packet_history_find_index_def Let_def nth hist_at_def not_less [symmetric])
    next
      case no: False
      then show ?thesis using False ge off n(1)
        by (auto simp: hist_find_def packet_history_find_index_def Let_def not_less [symmetric])
    qed
  next
    case False
    then have "idx < ?o" by simp
    moreover from this have "unat idx < n - ?c" using o by (simp add: word_less_nat_alt)
    ultimately show ?thesis by (simp add: hist_find_def packet_history_find_index_def)
  qed
qed

lemma hist_find_stream_index: "hist_find h idx = Some r \<Longrightarrow> stream_index r = idx"
  by (auto simp: hist_find_def packet_history_find_index_def hist_at_def Let_def split: if_splits)

lemma hist_find_in:
  assumes "hist_find h idx = Some r"
  shows "r \<in> set (hist_list h)"
proof -
  define i where "i = unat (idx - stream_index (hist_records h ! hist_start h))"
  have "i < hist_count h" "r = hist_list h ! i"
    using assms
    by (auto simp: hist_find_def packet_history_find_index_def hist_at_def Let_def i_def hist_list_def
        split: if_splits)
  then show ?thesis by simp
qed

text \<open>Two lookups that return the same slot looked for the same stream index.\<close>

lemma find_index_inj:
  "packet_history_find_index h a = Some i \<Longrightarrow> packet_history_find_index h b = Some i \<Longrightarrow> a = b"
  by (auto simp: packet_history_find_index_def Let_def split: if_splits)

text \<open>
  C20. The packet history is a bounded list of the most recent packets of its input.
  Pushing appends the packet and, when the buffer is full, drops the oldest one; pruning
  drops the packets from before the cutoff at the old end; and with the packets numbered in
  arrival order, a lookup by stream index returns that very packet if it is still kept and
  nothing otherwise.
\<close>

theorem packet_history_refines:
  assumes "hist_ok h" and "numbered h n" and "unat (stream_index r) = n"
  shows "hist_list (hist_push_record h r) =
           (if hist_count h < hist_capacity h then hist_list h else tl (hist_list h)) @ [r] \<and>
         hist_list (packet_history_prune_older_than h cutoff) =
           dropWhile (\<lambda>r. arrival_time_ns r < cutoff) (hist_list h) \<and>
         hist_find h idx =
           (if n - hist_count h \<le> unat idx \<and> unat idx < n
            then Some (hist_list h ! (unat idx - (n - hist_count h))) else None) \<and>
         hist_ok (hist_push_record h r) \<and> numbered (hist_push_record h r) (Suc n) \<and>
         hist_ok (packet_history_prune_older_than h cutoff) \<and>
         numbered (packet_history_prune_older_than h cutoff) n"
  using hist_list_push hist_list_prune hist_find_numbered hist_ok_push numbered_push
    numbered_prune assms by blast

lemma packet_history_refines_witness:
  "hist_list (hist_push_record (snd (packet_history_init True 4)) zero_record) = [zero_record]"
proof -
  have "packet_history_init True 4 = (0, snd (packet_history_init True 4))"
    by (simp add: packet_history_init_def)
  from hist_list_init [OF _ this]
  have ok: "hist_ok (snd (packet_history_init True 4))" "numbered (snd (packet_history_init True 4)) 0"
    by simp_all
  have "hist_list (snd (packet_history_init True 4)) = []"
    by (simp add: packet_history_init_def hist_list_def)
  with packet_history_refines [OF ok, of zero_record] show ?thesis
    by (simp add: zero_record_def packet_history_init_def)
qed

end
