(* ===== verification/Delay_Queue.thy ===== *)
theory Delay_Queue
  imports Packet_Record
begin

text \<open>
  The delay queues of the two inputs (src/src/recovery_engine.c lines 211 to 259): bounded
  first-in first-out buffers. The locale \<open>bounded_fifo\<close> is the contract their clients use;
  it is interpreted on the model of the queue. Its lemmas cover the two ways the engine uses
  a queue beyond single operations: replacing the oldest element when a push finds the queue
  full, and discarding from the front while a condition holds.
\<close>

record delay_queue =
  q_records :: "packet_record list"
  q_capacity :: nat
  q_start :: nat
  q_count :: nat
  delay_ns :: u64

definition zero_queue :: delay_queue where
  "zero_queue = \<lparr>q_records = [], q_capacity = 0, q_start = 0, q_count = 0, delay_ns = 0\<rparr>"

definition delay_queue_init :: "bool \<Rightarrow> nat \<Rightarrow> u64 \<Rightarrow> int \<times> delay_queue" where
  "delay_queue_init alloc_ok capacity delay =
     (if \<not> alloc_ok then (-1, zero_queue)
      else (0, \<lparr>q_records = replicate capacity zero_record, q_capacity = capacity, q_start = 0,
                q_count = 0, delay_ns = delay\<rparr>))"

definition delay_queue_front :: "delay_queue \<Rightarrow> packet_record option" where
  "delay_queue_front q = (if q_count q = 0 then None else Some (q_records q ! q_start q))"

definition delay_queue_pop :: "delay_queue \<Rightarrow> delay_queue" where
  "delay_queue_pop q =
     (if q_count q = 0 then q
      else q\<lparr>q_start := (q_start q + 1) mod q_capacity q, q_count := q_count q - 1\<rparr>)"

definition delay_queue_push :: "delay_queue \<Rightarrow> packet_record \<Rightarrow> int \<times> delay_queue" where
  "delay_queue_push q r =
     (if q_capacity q \<le> q_count q then (-1, q)
      else
        let index = (q_start q + q_count q) mod q_capacity q
        in (0, q\<lparr>q_records := (q_records q)[index := r], q_count := q_count q + 1\<rparr>))"

section \<open>The contract\<close>

locale bounded_fifo =
  fixes contents :: "'q \<Rightarrow> 'a list"
    and ok :: "'q \<Rightarrow> bool"
    and limit :: "'q \<Rightarrow> nat"
    and push :: "'q \<Rightarrow> 'a \<Rightarrow> int \<times> 'q"
    and front :: "'q \<Rightarrow> 'a option"
    and pop :: "'q \<Rightarrow> 'q"
  assumes limit_pos: "ok q \<Longrightarrow> 0 < limit q"
    and bounded: "ok q \<Longrightarrow> length (contents q) \<le> limit q"
    and front_contents: "ok q \<Longrightarrow> front q = (case contents q of [] \<Rightarrow> None | x # _ \<Rightarrow> Some x)"
    and pop_contents: "ok q \<Longrightarrow> contents (pop q) = tl (contents q)"
    and pop_ok: "ok q \<Longrightarrow> ok (pop q) \<and> limit (pop q) = limit q"
    and push_room: "ok q \<Longrightarrow> length (contents q) < limit q \<Longrightarrow>
          fst (push q x) = 0 \<and> contents (snd (push q x)) = contents q @ [x]"
    and push_full: "ok q \<Longrightarrow> length (contents q) = limit q \<Longrightarrow> push q x = (-1, q)"
    and push_ok: "ok q \<Longrightarrow> ok (snd (push q x)) \<and> limit (snd (push q x)) = limit q"
begin

text \<open>Pushing onto a full queue after making room always succeeds.\<close>

lemma push_evicting:
  assumes "ok q"
  shows "fst (push (if fst (push q x) \<noteq> 0 then pop q else q) x) = 0 \<and>
         contents (snd (push (if fst (push q x) \<noteq> 0 then pop q else q) x)) =
           (if length (contents q) < limit q then contents q else tl (contents q)) @ [x]"
proof (cases "length (contents q) < limit q")
  case True
  then show ?thesis using push_room [OF assms] by simp
next
  case False
  with bounded [OF assms] have full: "length (contents q) = limit q" by simp
  have "length (contents (pop q)) < limit (pop q)"
    using full limit_pos [OF assms] pop_contents [OF assms] pop_ok [OF assms] by simp
  with pop_ok [OF assms] push_room [of "pop q" x] push_full [OF assms full] False
  show ?thesis using pop_contents [OF assms] by simp
qed

text \<open>A loop that pops while the front satisfies a condition drops the longest such prefix.\<close>

lemma discard_while:
  assumes step: "\<And>q. w q = (case front q of None \<Rightarrow> q | Some x \<Rightarrow> if P x then w (pop q) else q)"
    and "ok q"
  shows "contents (w q) = dropWhile P (contents q) \<and> ok (w q) \<and> limit (w q) = limit q"
  using assms(2)
proof (induction "contents q" arbitrary: q)
  case Nil
  then show ?case using step [of q] front_contents [of q] by (simp add: Nil(1) [symmetric])
next
  case (Cons x xs)
  have fr: "front q = Some x"
    using front_contents [OF Cons.prems] by (simp add: Cons.hyps(2) [symmetric])
  show ?case
  proof (cases "P x")
    case True
    have xs: "xs = contents (pop q)" using pop_contents [OF Cons.prems] Cons.hyps(2) [symmetric] by simp
    with Cons.hyps(1) [OF xs] pop_ok [OF Cons.prems] True fr step [of q] show ?thesis
      by (simp add: Cons.hyps(2) [symmetric])
  next
    case False
    then show ?thesis using fr step [of q] Cons.prems by (simp add: Cons.hyps(2) [symmetric])
  qed
qed

end

section \<open>The queue keeps the contract\<close>

definition queue_ok :: "delay_queue \<Rightarrow> bool" where
  "queue_ok q \<longleftrightarrow> length (q_records q) = q_capacity q \<and> 0 < q_capacity q \<and>
     q_start q < q_capacity q \<and> q_count q \<le> q_capacity q"

definition queue_list :: "delay_queue \<Rightarrow> packet_record list" where
  "queue_list q = ring_list (q_records q) (q_capacity q) (q_start q) (q_count q)"

lemma length_queue_list [simp]: "length (queue_list q) = q_count q"
  by (simp add: queue_list_def)

lemma queue_list_empty_iff [simp]: "queue_list q = [] \<longleftrightarrow> q_count q = 0"
  by (simp add: queue_list_def)

interpretation dq: bounded_fifo queue_list queue_ok q_capacity delay_queue_push delay_queue_front
  delay_queue_pop
proof
  fix q :: delay_queue and x :: packet_record
  assume ok: "queue_ok q"
  note o = ok [unfolded queue_ok_def]
  show "0 < q_capacity q" "length (queue_list q) \<le> q_capacity q" using o by simp_all
  show "delay_queue_front q = (case queue_list q of [] \<Rightarrow> None | y # _ \<Rightarrow> Some y)"
  proof (cases "q_count q = 0")
    case True
    then show ?thesis by (simp add: delay_queue_front_def queue_list_def)
  next
    case False
    then have "hd (queue_list q) = q_records q ! q_start q" "queue_list q \<noteq> []"
      using o by (simp_all add: queue_list_def hd_ring_list)
    then show ?thesis using False by (cases "queue_list q") (simp_all add: delay_queue_front_def)
  qed
  show "queue_list (delay_queue_pop q) = tl (queue_list q)"
    using ring_list_pop [of "q_count q" "q_records q" "q_capacity q" "q_start q"]
    by (cases "q_count q = 0") (simp_all add: delay_queue_pop_def queue_list_def)
  show "queue_ok (delay_queue_pop q) \<and> q_capacity (delay_queue_pop q) = q_capacity q"
    using o by (auto simp: delay_queue_pop_def queue_ok_def)
  show "queue_ok (snd (delay_queue_push q x)) \<and> q_capacity (snd (delay_queue_push q x)) = q_capacity q"
    using o by (auto simp: delay_queue_push_def queue_ok_def Let_def)
  {
    assume "length (queue_list q) < q_capacity q"
    then show "fst (delay_queue_push q x) = 0 \<and>
        queue_list (snd (delay_queue_push q x)) = queue_list q @ [x]"
      using o by (simp add: delay_queue_push_def queue_list_def Let_def ring_list_push)
  next
    assume "length (queue_list q) = q_capacity q"
    then show "delay_queue_push q x = (-1, q)" by (simp add: delay_queue_push_def)
  }
qed

lemma queue_init_ok:
  "0 < capacity \<Longrightarrow> delay_queue_init True capacity d = (r, q) \<Longrightarrow>
   r = 0 \<and> queue_ok q \<and> queue_list q = [] \<and> delay_ns q = d"
  by (auto simp: delay_queue_init_def queue_ok_def queue_list_def)

lemma queue_delay [simp]:
  "delay_ns (delay_queue_pop q) = delay_ns q" "delay_ns (snd (delay_queue_push q x)) = delay_ns q"
  by (simp_all add: delay_queue_pop_def delay_queue_push_def Let_def)

text \<open>
  C21. The delay queue is a bounded first-in first-out queue: push appends, and fails
  without effect exactly when the queue is full; front shows the oldest record and pop
  removes it; and the engine's way of pushing, which pops once when the first push fails,
  always succeeds and loses the oldest record only when the queue was full.
\<close>

theorem delay_queue_refines:
  assumes "queue_ok q"
  shows "delay_queue_front q = (case queue_list q of [] \<Rightarrow> None | x # _ \<Rightarrow> Some x) \<and>
         queue_list (delay_queue_pop q) = tl (queue_list q) \<and>
         (fst (delay_queue_push q r) = 0 \<longleftrightarrow> q_count q < q_capacity q) \<and>
         queue_list (snd (delay_queue_push q r)) =
           (if q_count q < q_capacity q then queue_list q @ [r] else queue_list q) \<and>
         fst (delay_queue_push (if fst (delay_queue_push q r) \<noteq> 0 then delay_queue_pop q else q) r) = 0 \<and>
         queue_list (snd (delay_queue_push (if fst (delay_queue_push q r) \<noteq> 0 then delay_queue_pop q else q) r)) =
           (if q_count q < q_capacity q then queue_list q else tl (queue_list q)) @ [r]"
proof -
  have "q_count q < q_capacity q \<or> q_count q = q_capacity q"
    using assms by (auto simp: queue_ok_def)
  then show ?thesis
    using dq.front_contents [OF assms] dq.pop_contents [OF assms] dq.push_room [OF assms, of r]
      dq.push_full [OF assms, of r] dq.push_evicting [OF assms, of r]
    by auto
qed

lemma delay_queue_refines_witness:
  "queue_list (snd (delay_queue_push (snd (delay_queue_init True 2 5)) zero_record)) = [zero_record]"
proof -
  have "delay_queue_init True 2 5 = (0, snd (delay_queue_init True 2 5))"
    by (simp add: delay_queue_init_def)
  from queue_init_ok [OF _ this] have "queue_ok (snd (delay_queue_init True 2 5))" by simp
  from delay_queue_refines [OF this, of zero_record] show ?thesis
    by (simp add: delay_queue_init_def queue_list_def)
qed

end
