(* ===== verification/Packet_Sink.thy ===== *)
theory Packet_Sink
  imports Ts_Packet
begin

text \<open>
  The packet sink interface (src/src/packet_sink.h): a context and two function pointers,
  of which the flush pointer may be null. The context is the sink's own state, passed to
  and returned by the functions.

  The locale \<open>ts_sink\<close> is what the recovery engine relies on: a send that returns 0 has
  appended exactly that packet to what the sink accepted.
\<close>

record 's packet_sink =
  sink_ctx :: 's
  send_fn :: "'s \<Rightarrow> bytes \<Rightarrow> int \<times> 's"
  flush_fn :: "('s \<Rightarrow> int \<times> 's) option"

definition packet_sink_send_ts_packet :: "'s packet_sink \<Rightarrow> bytes \<Rightarrow> int \<times> 's packet_sink" where
  "packet_sink_send_ts_packet snk packet =
     (case send_fn snk (sink_ctx snk) packet of (r, ctx) \<Rightarrow> (r, snk\<lparr>sink_ctx := ctx\<rparr>))"

definition packet_sink_flush :: "'s packet_sink \<Rightarrow> int \<times> 's packet_sink" where
  "packet_sink_flush snk =
     (case flush_fn snk of
        None \<Rightarrow> (0, snk)
      | Some f \<Rightarrow> (case f (sink_ctx snk) of (r, ctx) \<Rightarrow> (r, snk\<lparr>sink_ctx := ctx\<rparr>)))"

lemma packet_sink_send_fns [simp]:
  "send_fn (snd (packet_sink_send_ts_packet snk p)) = send_fn snk"
  "flush_fn (snd (packet_sink_send_ts_packet snk p)) = flush_fn snk"
  by (simp_all add: packet_sink_send_ts_packet_def split: prod.splits)

text \<open>Sending a list of packets, stopping at the first failure as every caller does.\<close>

primrec send_list :: "('s \<Rightarrow> bytes \<Rightarrow> int \<times> 's) \<Rightarrow> 's \<Rightarrow> bytes list \<Rightarrow> int \<times> 's" where
  "send_list send s [] = (0, s)"
| "send_list send s (p # ps) = (case send s p of (r, s') \<Rightarrow> if r \<noteq> 0 then (-1, s') else send_list send s' ps)"

section \<open>What a client may rely on\<close>

locale ts_sink =
  fixes send :: "'s \<Rightarrow> bytes \<Rightarrow> int \<times> 's"
    and accepted :: "'s \<Rightarrow> bytes list"
    and sane :: "'s \<Rightarrow> bool"
  assumes send_accepts:
      "sane s \<Longrightarrow> length p = TS_PACKET_SIZE \<Longrightarrow> send s p = (0, s') \<Longrightarrow> accepted s' = accepted s @ [p]"
    and send_sane: "sane s \<Longrightarrow> length p = TS_PACKET_SIZE \<Longrightarrow> send s p = (r, s') \<Longrightarrow> sane s'"
begin

lemma send_list_accepts:
  assumes "sane s" and "\<forall>p \<in> set ps. length p = TS_PACKET_SIZE" and "send_list send s ps = (0, s')"
  shows "accepted s' = accepted s @ ps \<and> sane s'"
  using assms
proof (induction ps arbitrary: s)
  case Nil
  then show ?case by simp
next
  case (Cons p ps)
  obtain r t where t: "send s p = (r, t)" by fastforce
  with Cons.prems(3) have r: "r = 0" and rest: "send_list send t ps = (0, s')"
    by (auto split: if_splits)
  have "accepted t = accepted s @ [p]" "sane t"
    using send_accepts send_sane Cons.prems(1,2) t r by auto
  with Cons.IH [OF _ _ rest] Cons.prems(2) show ?case by auto
qed

end

text \<open>
  A sink that invents nothing either: also after a failed send, and after a flush, it holds
  nothing but packets it was given.
\<close>

locale ts_sink_faithful = ts_sink send accepted sane
  for send :: "'s \<Rightarrow> bytes \<Rightarrow> int \<times> 's" and accepted :: "'s \<Rightarrow> bytes list" and sane :: "'s \<Rightarrow> bool" +
  fixes flush :: "'s \<Rightarrow> int \<times> 's"
  assumes send_within: "sane s \<Longrightarrow> length p = TS_PACKET_SIZE \<Longrightarrow> send s p = (r, s') \<Longrightarrow>
      set (accepted s') \<subseteq> insert p (set (accepted s))"
    and flush_sane: "sane s \<Longrightarrow> flush s = (r, s') \<Longrightarrow> sane s'"
    and flush_within: "sane s \<Longrightarrow> flush s = (r, s') \<Longrightarrow> set (accepted s') \<subseteq> set (accepted s)"
begin

lemma send_list_within:
  assumes "sane s" and "\<forall>p \<in> set ps. length p = TS_PACKET_SIZE" and "send_list send s ps = (r, s')"
  shows "sane s' \<and> set (accepted s') \<subseteq> set ps \<union> set (accepted s)"
  using assms
proof (induction ps arbitrary: s)
  case Nil
  then show ?case by simp
next
  case (Cons p ps)
  obtain c t where t: "send s p = (c, t)" by fastforce
  have one: "sane t" "set (accepted t) \<subseteq> insert p (set (accepted s))"
    using send_sane send_within Cons.prems(1,2) t by auto
  show ?case
  proof (cases "c = 0")
    case True
    with Cons.prems(3) t have "send_list send t ps = (r, s')" by simp
    from Cons.IH [OF one(1) _ this] Cons.prems(2) one(2) show ?thesis by auto
  next
    case False
    with Cons.prems(3) t one show ?thesis by auto
  qed
qed

end

end
