(* ===== verification/Binary64.thy ===== *)
theory Binary64
  imports Prelude
begin

text \<open>
  The C type \<open>double\<close>: a value is a rational number, and every operation of the code
  delivers the exact result rounded to nearest, ties to even, with 53 significant bits and
  the gradual underflow of binary64. Infinities, NaNs and the sign of zero are left out:
  the code divides only by a value it has checked to be positive, and every quantity it
  computes stays far below the overflow threshold (arrival times and counters below
  \<open>2 ^ 64\<close>, a bit rate below \<open>2 ^ 95\<close>). Rounding is monotone and fixes what is
  representable, which is all the statistics rely on.
\<close>

type_synonym double = rat

section \<open>Rounding\<close>

definition round_half_even :: "rat \<Rightarrow> int" where
  "round_half_even x =
     (let f = \<lfloor>x\<rfloor>; d = x - of_int f
      in if d < 1/2 then f else if 1/2 < d then f + 1 else if even f then f else f + 1)"

lemma round_half_even_int [simp]: "round_half_even (of_int n) = n"
  by (simp add: round_half_even_def)

lemma round_half_even_numeral [simp]: "round_half_even (numeral n) = numeral n"
  using round_half_even_int [of "numeral n"] by simp

lemma round_half_even_bounds:
  "\<lfloor>x\<rfloor> \<le> round_half_even x" "round_half_even x \<le> \<lfloor>x\<rfloor> + 1"
  by (simp_all add: round_half_even_def Let_def)

lemma round_half_even_mono: "x \<le> y \<Longrightarrow> round_half_even x \<le> round_half_even y"
proof -
  assume le: "x \<le> y"
  show ?thesis
  proof (cases "\<lfloor>x\<rfloor> = \<lfloor>y\<rfloor>")
    case True
    then show ?thesis using le by (auto simp: round_half_even_def Let_def)
  next
    case False
    with le have "\<lfloor>x\<rfloor> + 1 \<le> \<lfloor>y\<rfloor>" using floor_mono [OF le] by simp
    then show ?thesis using round_half_even_bounds [of x] round_half_even_bounds [of y] by simp
  qed
qed

text \<open>\<open>log2_floor n\<close> is the position of the highest set bit of a positive \<open>n\<close>.\<close>

fun log2_floor :: "nat \<Rightarrow> nat" where
  "log2_floor n = (if n < 2 then 0 else Suc (log2_floor (n div 2)))"

declare log2_floor.simps [simp del]

lemma log2_floor_bounds: "0 < n \<Longrightarrow> 2 ^ log2_floor n \<le> n \<and> n < 2 ^ Suc (log2_floor n)"
proof (induction n rule: log2_floor.induct)
  case (1 n)
  show ?case
  proof (cases "n < 2")
    case True
    with "1.prems" show ?thesis by (simp add: log2_floor.simps [of n])
  next
    case False
    then have "2 ^ log2_floor (n div 2) \<le> n div 2" "n div 2 < 2 ^ Suc (log2_floor (n div 2))"
      using "1.IH" by simp_all
    moreover have "2 * (n div 2) \<le> n" "n < 2 * (n div 2) + 2" by linarith+
    ultimately show ?thesis using False by (simp add: log2_floor.simps [of n])
  qed
qed

definition pow2 :: "int \<Rightarrow> rat" where
  "pow2 e = (if 0 \<le> e then 2 ^ nat e else 1 / 2 ^ nat (- e))"

lemma pow2_pos [simp]: "0 < pow2 e"
  by (simp add: pow2_def)

lemma pow2_powi: "pow2 e = 2 powi e"
  by (simp add: pow2_def power_int_def inverse_eq_divide power_one_over)

text \<open>The exponent of a positive number: the \<open>e\<close> with \<open>2 ^ e \<le> x < 2 ^ (e + 1)\<close>.\<close>

definition f64_exponent :: "rat \<Rightarrow> int" where
  "f64_exponent x =
     (if 1 \<le> x then int (log2_floor (nat \<lfloor>x\<rfloor>))
      else (let m = nat \<lceil>1 / x\<rceil>; k = log2_floor m
            in if 2 ^ k = m then - int k else - int k - 1))"

text \<open>The spacing of binary64 numbers around a number of exponent \<open>e\<close>.\<close>

definition f64_ulp_exponent :: "int \<Rightarrow> int" where
  "f64_ulp_exponent e = max (e - 52) (-1074)"

definition f64_round_pos :: "rat \<Rightarrow> rat" where
  "f64_round_pos x =
     (let q = f64_ulp_exponent (f64_exponent x)
      in of_int (round_half_even (x / pow2 q)) * pow2 q)"

definition f64_round :: "rat \<Rightarrow> double" where
  "f64_round x = (if x = 0 then 0 else if 0 < x then f64_round_pos x else - f64_round_pos (- x))"

section \<open>Operations\<close>

definition f64_of_u64 :: "u64 \<Rightarrow> double" where "f64_of_u64 w = f64_round (of_nat (unat w))"
definition f64_of_i64 :: "int \<Rightarrow> double" where "f64_of_i64 i = f64_round (of_int i)"
definition f64_add :: "double \<Rightarrow> double \<Rightarrow> double" where "f64_add x y = f64_round (x + y)"
definition f64_sub :: "double \<Rightarrow> double \<Rightarrow> double" where "f64_sub x y = f64_round (x - y)"
definition f64_mul :: "double \<Rightarrow> double \<Rightarrow> double" where "f64_mul x y = f64_round (x * y)"
definition f64_div :: "double \<Rightarrow> double \<Rightarrow> double" where "f64_div x y = f64_round (x / y)"

section \<open>Rounding is monotone\<close>

lemma pow2_add: "pow2 (a + b) = pow2 a * pow2 b"
  by (simp add: pow2_powi power_int_add)

lemma pow2_mono: "a \<le> b \<Longrightarrow> pow2 a \<le> pow2 b"
  by (simp add: pow2_powi power_int_increasing)

lemma pow2_nat: "0 \<le> e \<Longrightarrow> pow2 e = of_int (2 ^ nat e)"
  by (simp add: pow2_def)

lemma pow2_neg: "pow2 (- e) = 1 / pow2 e"
  by (simp add: pow2_powi power_int_minus inverse_eq_divide)

lemma pow2_int: "pow2 (int k) = of_nat (2 ^ k)"
  by (simp add: pow2_def)

lemma f64_exponent_bounds:
  assumes "0 < x"
  shows "pow2 (f64_exponent x) \<le> x \<and> x < pow2 (f64_exponent x + 1)"
proof (cases "1 \<le> x")
  case True
  let ?n = "nat \<lfloor>x\<rfloor>" let ?k = "log2_floor ?n"
  have n: "0 < ?n" "of_nat ?n \<le> x" "x < of_nat (Suc ?n)"
    using True by (simp_all add: zero_less_floor) linarith
  have k: "2 ^ ?k \<le> ?n" "Suc ?n \<le> 2 ^ Suc ?k"
    using log2_floor_bounds [OF n(1)] by (simp_all only: Suc_le_eq)
  have "pow2 (int ?k) \<le> x"
    using order_trans [OF of_nat_mono [OF k(1)] n(2)] by (simp only: pow2_int)
  moreover have "x < pow2 (int (Suc ?k))"
    using less_le_trans [OF n(3) of_nat_mono [OF k(2)]] by (simp only: pow2_int)
  ultimately show ?thesis using True by (simp add: f64_exponent_def add.commute)
next
  case False
  define y where "y = 1 / x"
  let ?m = "nat \<lceil>y\<rceil>" let ?k = "log2_floor ?m"
  have y: "1 < y" "x = 1 / y" using False assms by (simp_all add: y_def)
  have m: "1 < ?m" "y \<le> of_nat ?m" "of_nat (?m - 1) < y"
    using y(1) by (simp_all add: less_ceiling_iff of_nat_diff) linarith
  have k: "2 ^ ?k \<le> ?m" "?m < 2 ^ Suc ?k" using log2_floor_bounds [of ?m] m(1) by simp_all
  have inv: "pow2 e \<le> x \<longleftrightarrow> y \<le> pow2 (- e)" "x < pow2 e \<longleftrightarrow> pow2 (- e) < y" for e
    unfolding y(2) pow2_neg using y(1) by (simp_all add: le_divide_eq less_divide_eq divide_less_eq mult.commute)
  show ?thesis
  proof (cases "2 ^ ?k = ?m")
    case True
    then have k0: "?k \<noteq> 0" using m(1) by (cases ?k) auto
    then have le: "2 ^ (?k - 1) \<le> ?m - 1" using True m(1) by (cases ?k) auto
    have "pow2 (int (?k - 1)) < y"
      using le_less_trans [OF of_nat_mono [OF le] m(3)] by (simp only: pow2_int)
    moreover have "y \<le> pow2 (int ?k)" using m(2) True by (simp only: pow2_int)
    ultimately show ?thesis using True False k0
      by (simp add: f64_exponent_def y_def [symmetric] inv of_nat_diff)
  next
    case neq: False
    then have le: "2 ^ ?k \<le> ?m - 1" using k(1) by linarith
    have "pow2 (int ?k) < y"
      using le_less_trans [OF of_nat_mono [OF le] m(3)] by (simp only: pow2_int)
    moreover have "y \<le> pow2 (int (Suc ?k))"
      using order_trans [OF m(2) of_nat_mono [OF less_imp_le [OF k(2)]]] by (simp only: pow2_int)
    ultimately show ?thesis using neq False
      by (simp add: f64_exponent_def y_def [symmetric] inv Let_def add.commute)
  qed
qed

lemma f64_round_pos_mono:
  assumes "0 < x" and "x \<le> y"
  shows "f64_round_pos x \<le> f64_round_pos y"
proof -
  define ex ey where "ex = f64_exponent x" and "ey = f64_exponent y"
  define qx qy where "qx = f64_ulp_exponent ex" and "qy = f64_ulp_exponent ey"
  have x: "x < pow2 (ex + 1)" and y: "pow2 ey \<le> y"
    using f64_exponent_bounds [of x] f64_exponent_bounds [of y] assms by (auto simp: ex_def ey_def)
  have rx: "f64_round_pos x = of_int (round_half_even (x / pow2 qx)) * pow2 qx"
    and ry: "f64_round_pos y = of_int (round_half_even (y / pow2 qy)) * pow2 qy"
    by (simp_all add: f64_round_pos_def Let_def qx_def qy_def ex_def ey_def)
  show ?thesis
  proof (cases "qx = qy")
    case True
    have "round_half_even (x / pow2 qy) \<le> round_half_even (y / pow2 qy)"
      using assms(2) by (intro round_half_even_mono divide_right_mono) (simp_all add: less_imp_le)
    then show ?thesis using True by (simp add: rx ry)
  next
    case False
    have "pow2 ex \<le> x" "y < pow2 (ey + 1)"
      using f64_exponent_bounds [of x] f64_exponent_bounds [of y] assms by (auto simp: ex_def ey_def)
    then have "ex < ey + 1" using assms(2) pow2_mono [of "ey + 1" ex] by linarith
    then have less: "ex < ey" "qx \<le> ey" "qy = ey - 52" 
      using False by (auto simp: qx_def qy_def f64_ulp_exponent_def split: if_splits)
    have xB: "x \<le> pow2 ey" using x pow2_mono [of "ex + 1" ey] less(1) by linarith
    have "x / pow2 qx \<le> pow2 (ey - qx)"
      using xB pow2_add [of "ey - qx" qx] by (simp add: divide_le_eq)
    then have "round_half_even (x / pow2 qx) \<le> 2 ^ nat (ey - qx)"
      using round_half_even_mono [of "x / pow2 qx" "of_int (2 ^ nat (ey - qx))"] less(2)
      by (simp add: pow2_nat del: of_int_power)
    then have "f64_round_pos x \<le> pow2 (ey - qx) * pow2 qx"
      unfolding rx using less(2) by (intro mult_right_mono) (simp_all add: pow2_nat less_imp_le)
    also have "\<dots> = pow2 ey" by (simp add: pow2_add [symmetric])
    also have "pow2 ey = pow2 (ey - qy) * pow2 qy" by (simp add: pow2_add [symmetric])
    also have "\<dots> \<le> f64_round_pos y"
    proof -
      have "pow2 (ey - qy) \<le> y / pow2 qy"
        using y pow2_add [of "ey - qy" qy] by (simp add: le_divide_eq)
      then have "2 ^ nat (ey - qy) \<le> round_half_even (y / pow2 qy)"
        using round_half_even_mono [of "of_int (2 ^ nat (ey - qy))" "y / pow2 qy"] less(3)
        by (simp add: pow2_nat del: of_int_power)
      then show ?thesis
        unfolding ry using less(3) by (intro mult_right_mono) (simp_all add: pow2_nat less_imp_le)
    qed
    finally show ?thesis .
  qed
qed

lemma f64_round_pos_nonneg: "0 < x \<Longrightarrow> 0 \<le> f64_round_pos x"
proof -
  assume "0 < x"
  then have "0 \<le> round_half_even (x / pow2 q)" for q
    using round_half_even_mono [of 0 "x / pow2 q"] round_half_even_int [of 0]
    by (simp add: less_imp_le)
  then show ?thesis by (simp add: f64_round_pos_def Let_def less_imp_le)
qed

lemma f64_round_mono: "x \<le> y \<Longrightarrow> f64_round x \<le> f64_round y"
  using f64_round_pos_mono [of x y] f64_round_pos_mono [of "- y" "- x"]
    f64_round_pos_nonneg [of y] f64_round_pos_nonneg [of "- x"]
  by (auto simp: f64_round_def)

lemma f64_round_0 [simp]: "f64_round 0 = 0"
  by (simp add: f64_round_def)

lemma f64_round_minus: "f64_round (- x) = - f64_round x"
  by (simp add: f64_round_def)

lemma f64_round_nonneg: "0 \<le> x \<Longrightarrow> 0 \<le> f64_round x"
  using f64_round_mono [of 0 x] by simp

lemma f64_of_u64_mono: "a \<le> b \<Longrightarrow> f64_of_u64 a \<le> f64_of_u64 b"
  by (simp add: f64_of_u64_def f64_round_mono word_le_nat_alt del: of_nat_unat)

lemma f64_of_u64_nonneg [simp]: "0 \<le> f64_of_u64 a"
  by (simp add: f64_of_u64_def f64_round_nonneg del: of_nat_unat)

lemma f64_of_u64_not_neg [simp]: "\<not> f64_of_u64 a < 0"
  by (simp add: not_less)

end
