(* ===== verification/Report_Stats.thy ===== *)
theory Report_Stats
  imports Ts_Packet Binary64
begin

text \<open>
  Counters, rolling windows and health (src/src/report_stats.c, src/src/report_stats.h).

  The statistics are one record with the fields of the C struct. Arrays over the two
  streams are functions from the stream id, tables over the PIDs functions from the PID;
  \<open>ts_packet_parse_ranges\<close> bounds the PIDs that reach them. Every function that reads
  a clock takes the reading as an argument.
\<close>

definition REPORT_STATS_STREAMS :: int where "REPORT_STATS_STREAMS = 2"
definition REPORT_STATS_PIDS :: nat where "REPORT_STATS_PIDS = 8192"
definition REPORT_STATS_ROLLING_SECONDS :: nat where "REPORT_STATS_ROLLING_SECONDS = 60"
definition REPORT_STATS_QUIET_SECONDS :: nat where "REPORT_STATS_QUIET_SECONDS = 30"
definition REPORT_STATS_HEALTH_INTERVAL_NS :: u64 where
  "REPORT_STATS_HEALTH_INTERVAL_NS = 5000000000"
definition REPORT_STATS_OFFLINE_NS :: u64 where "REPORT_STATS_OFFLINE_NS = 5000000000"

lemmas stats_consts = REPORT_STATS_STREAMS_def REPORT_STATS_PIDS_def
  REPORT_STATS_ROLLING_SECONDS_def REPORT_STATS_QUIET_SECONDS_def
  REPORT_STATS_HEALTH_INTERVAL_NS_def REPORT_STATS_OFFLINE_NS_def

datatype stream_health =
  STREAM_HEALTH_HEALTHY | STREAM_HEALTH_DEGRADED | STREAM_HEALTH_LOSSY
  | STREAM_HEALTH_UNTRUSTED | STREAM_HEALTH_OFFLINE

datatype recovery_reject_reason =
  RECOVERY_REJECT_LOW_ALIGNMENT | RECOVERY_REJECT_SECONDARY_LATE | RECOVERY_REJECT_TEI
  | RECOVERY_REJECT_DISCONTINUITY | RECOVERY_REJECT_WRONG_PID | RECOVERY_REJECT_WRONG_COUNTER
  | RECOVERY_REJECT_AMBIGUOUS | RECOVERY_REJECT_BURST_TOO_LARGE
  | RECOVERY_REJECT_MISSING_CANDIDATE | RECOVERY_REJECT_COUNT

section \<open>The records\<close>

record report_stats_sample =
  s_packets_received :: "int \<Rightarrow> u64"
  s_sync_errors :: "int \<Rightarrow> u64"
  s_transport_errors :: "int \<Rightarrow> u64"
  s_continuity_errors :: "int \<Rightarrow> u64"
  s_duplicate_counters :: "int \<Rightarrow> u64"
  s_recovered_packets :: u64
  s_unrecoverable_loss :: u64
  s_output_packets :: u64
  s_output_continuity_errors :: u64
  s_output_duplicate_counters :: u64
  s_stream_disagreements :: u64
  s_primary_delay_overflows :: u64
  s_secondary_loss_events :: u64
  s_secondary_missing_packets :: u64
  s_secondary_missing_anchors :: u64
  s_secondary_packets_too_late :: u64
  s_primary_delay_insufficient :: u64
  s_recovery_exact_cc_gap :: u64
  s_source_switches :: "int \<Rightarrow> u64"
  s_active_output_stream_id :: int
  s_alignment_confidence :: u32

record report_stats =
  input_datagrams :: "int \<Rightarrow> u64"
  malformed_datagrams :: "int \<Rightarrow> u64"
  partial_datagrams :: "int \<Rightarrow> u64"
  resync_events :: "int \<Rightarrow> u64"
  output_datagrams :: u64
  output_short_flushes :: u64
  packets_received :: "int \<Rightarrow> u64"
  sync_errors :: "int \<Rightarrow> u64"
  transport_errors :: "int \<Rightarrow> u64"
  continuity_errors :: "int \<Rightarrow> u64"
  duplicate_counters :: "int \<Rightarrow> u64"
  null_packets :: "int \<Rightarrow> u64"
  pcr_packets :: "int \<Rightarrow> u64"
  stream_disagreements :: u64
  primary_delay_overflows :: u64
  recovered_null_packets :: u64
  recovered_content_packets :: u64
  recovered_content_bursts :: u64
  unrecoverable_null_regions :: u64
  secondary_loss_events :: u64
  secondary_missing_packets :: u64
  secondary_missing_anchors :: u64
  pcr_timing_confidence :: "int \<Rightarrow> u32"
  pcr_bitrate_bps :: "int \<Rightarrow> double"
  pcr_delay_ns :: double
  pcr_delay_samples :: u64
  observed_secondary_latency_min_ns :: double
  observed_secondary_latency_avg_ns :: double
  observed_secondary_latency_max_ns :: double
  observed_secondary_latency_jitter_ns :: double
  observed_secondary_latency_samples :: u64
  secondary_packets_too_late :: u64
  primary_delay_insufficient :: u64
  recovery_rejects :: "recovery_reject_reason \<Rightarrow> u64"
  recovery_exact_cc_gap :: u64
  stream_health :: "int \<Rightarrow> stream_health"
  output_health :: stream_health
  alignment_offset_packets :: int
  alignment_confidence :: u32
  per_pid_packets :: "int \<Rightarrow> u16 \<Rightarrow> u64"
  recovered_packets :: u64
  unrecoverable_loss :: u64
  output_packets :: u64
  output_continuity_errors :: u64
  output_duplicate_counters :: u64
  source_switches :: "int \<Rightarrow> u64"
  active_output_stream_id :: int
  last_recovery_event_time :: int
  last_report_ns :: u64
  last_sample_ns :: u64
  last_health_update_ns :: u64
  last_packet_ns :: "int \<Rightarrow> u64"
  rolling_samples :: "report_stats_sample list"
  rolling_index :: nat
  rolling_count :: nat
  last_continuity_counter :: "int \<Rightarrow> u16 \<Rightarrow> u8"
  has_continuity_counter :: "int \<Rightarrow> u16 \<Rightarrow> bool"

definition zero_sample :: report_stats_sample where
  "zero_sample = \<lparr>
     s_packets_received = \<lambda>_. 0, s_sync_errors = \<lambda>_. 0, s_transport_errors = \<lambda>_. 0,
     s_continuity_errors = \<lambda>_. 0, s_duplicate_counters = \<lambda>_. 0, s_recovered_packets = 0,
     s_unrecoverable_loss = 0, s_output_packets = 0, s_output_continuity_errors = 0,
     s_output_duplicate_counters = 0, s_stream_disagreements = 0,
     s_primary_delay_overflows = 0, s_secondary_loss_events = 0,
     s_secondary_missing_packets = 0, s_secondary_missing_anchors = 0,
     s_secondary_packets_too_late = 0, s_primary_delay_insufficient = 0,
     s_recovery_exact_cc_gap = 0, s_source_switches = \<lambda>_. 0, s_active_output_stream_id = 0,
     s_alignment_confidence = 0 \<rparr>"

definition zero_stats :: report_stats where
  "zero_stats = \<lparr>
     input_datagrams = \<lambda>_. 0, malformed_datagrams = \<lambda>_. 0, partial_datagrams = \<lambda>_. 0,
     resync_events = \<lambda>_. 0, output_datagrams = 0, output_short_flushes = 0,
     packets_received = \<lambda>_. 0, sync_errors = \<lambda>_. 0, transport_errors = \<lambda>_. 0,
     continuity_errors = \<lambda>_. 0, duplicate_counters = \<lambda>_. 0, null_packets = \<lambda>_. 0,
     pcr_packets = \<lambda>_. 0, stream_disagreements = 0, primary_delay_overflows = 0,
     recovered_null_packets = 0, recovered_content_packets = 0, recovered_content_bursts = 0,
     unrecoverable_null_regions = 0, secondary_loss_events = 0, secondary_missing_packets = 0,
     secondary_missing_anchors = 0, pcr_timing_confidence = \<lambda>_. 0, pcr_bitrate_bps = \<lambda>_. 0,
     pcr_delay_ns = 0, pcr_delay_samples = 0, observed_secondary_latency_min_ns = 0,
     observed_secondary_latency_avg_ns = 0, observed_secondary_latency_max_ns = 0,
     observed_secondary_latency_jitter_ns = 0, observed_secondary_latency_samples = 0,
     secondary_packets_too_late = 0, primary_delay_insufficient = 0,
     recovery_rejects = \<lambda>_. 0, recovery_exact_cc_gap = 0,
     stream_health = \<lambda>_. STREAM_HEALTH_HEALTHY, output_health = STREAM_HEALTH_HEALTHY,
     alignment_offset_packets = 0, alignment_confidence = 0, per_pid_packets = \<lambda>_ _. 0,
     recovered_packets = 0, unrecoverable_loss = 0, output_packets = 0,
     output_continuity_errors = 0, output_duplicate_counters = 0, source_switches = \<lambda>_. 0,
     active_output_stream_id = 0, last_recovery_event_time = 0, last_report_ns = 0,
     last_sample_ns = 0, last_health_update_ns = 0, last_packet_ns = \<lambda>_. 0,
     rolling_samples = replicate 60 zero_sample, rolling_index = 0, rolling_count = 0,
     last_continuity_counter = \<lambda>_ _. 0, has_continuity_counter = \<lambda>_ _. False \<rparr>"

section \<open>Clock and initial state\<close>

text \<open>
  \<open>clock_gettime(CLOCK_MONOTONIC)\<close> either fails (\<open>None\<close>) or fills seconds and
  nanoseconds.
\<close>

definition report_stats_now_ns :: "(u64 \<times> u64) option \<Rightarrow> u64" where
  "report_stats_now_ns ts = (case ts of None \<Rightarrow> 0 | Some (sec, nsec) \<Rightarrow> sec * 1000000000 + nsec)"

definition report_stats_init :: "u64 \<Rightarrow> report_stats" where
  "report_stats_init now_ns = zero_stats\<lparr>
     last_report_ns := now_ns, last_sample_ns := now_ns, last_health_update_ns := 0,
     active_output_stream_id := 0, observed_secondary_latency_min_ns := 0,
     last_packet_ns := (\<lambda>_. 0)(0 := now_ns, 1 := now_ns),
     stream_health := (\<lambda>_. STREAM_HEALTH_HEALTHY), output_health := STREAM_HEALTH_HEALTHY\<rparr>"

section \<open>Input datagrams and packets\<close>

definition bad_stream :: "int \<Rightarrow> bool" where
  "bad_stream stream_id \<longleftrightarrow> stream_id < 0 \<or> REPORT_STATS_STREAMS \<le> stream_id"

definition report_stats_observe_datagram :: "report_stats \<Rightarrow> int \<Rightarrow> nat \<Rightarrow> report_stats" where
  "report_stats_observe_datagram st stream_id n =
     (if bad_stream stream_id then st
      else
        let st = st\<lparr>input_datagrams := bump (input_datagrams st) stream_id\<rparr>
        in if n = 0 \<or> n mod TS_PACKET_SIZE \<noteq> 0
           then st\<lparr>partial_datagrams := bump (partial_datagrams st) stream_id\<rparr> else st)"

definition reset_stream_continuity :: "report_stats \<Rightarrow> int \<Rightarrow> report_stats" where
  "reset_stream_continuity st stream_id =
     st\<lparr>has_continuity_counter := (has_continuity_counter st)(stream_id := \<lambda>_. False)\<rparr>"

text \<open>Lines 80 to 81, 86 to 87 and 102: remember the counter of a PID.\<close>

definition store_continuity :: "report_stats \<Rightarrow> int \<Rightarrow> u16 \<Rightarrow> u8 \<Rightarrow> report_stats" where
  "store_continuity st stream_id p cc =
     st\<lparr>last_continuity_counter :=
          (last_continuity_counter st)(stream_id := (last_continuity_counter st stream_id)(p := cc)),
        has_continuity_counter :=
          (has_continuity_counter st)(stream_id := (has_continuity_counter st stream_id)(p := True))\<rparr>"

definition report_stats_observe_packet ::
    "report_stats \<Rightarrow> int \<Rightarrow> ts_packet_info \<Rightarrow> u64 \<Rightarrow> report_stats" where
  "report_stats_observe_packet st stream_id info now_ns =
     (if bad_stream stream_id then st
      else
        let p = info_pid info;
            cc = info_continuity_counter info;
            st = (if now_ns \<noteq> 0 \<and> last_packet_ns st stream_id \<noteq> 0 \<and>
                     REPORT_STATS_OFFLINE_NS \<le> now_ns - last_packet_ns st stream_id
                  then reset_stream_continuity st stream_id else st);
            st = st\<lparr>packets_received := bump (packets_received st) stream_id,
                    last_packet_ns := (last_packet_ns st)(stream_id := now_ns),
                    per_pid_packets :=
                      (per_pid_packets st)(stream_id := bump (per_pid_packets st stream_id) p)\<rparr>;
            st = (if info_transport_error info
                  then st\<lparr>transport_errors := bump (transport_errors st) stream_id\<rparr> else st);
            st = (if info_is_null info
                  then st\<lparr>null_packets := bump (null_packets st) stream_id\<rparr> else st);
            st = (if info_has_pcr info
                  then st\<lparr>pcr_packets := bump (pcr_packets st) stream_id\<rparr> else st);
            last = last_continuity_counter st stream_id p
        in if info_is_null info \<or> info_transport_error info \<or> info_discontinuity_indicator info
           then store_continuity st stream_id p cc
           else if \<not> has_continuity_counter st stream_id p
           then store_continuity st stream_id p cc
           else
             let st = (if info_has_payload info
                       then (let expected = (last + 1) AND 0x0f
                             in if cc = last
                                then st\<lparr>duplicate_counters := bump (duplicate_counters st) stream_id\<rparr>
                                else if cc \<noteq> expected
                                then st\<lparr>continuity_errors := bump (continuity_errors st) stream_id\<rparr>
                                else st)
                       else if cc \<noteq> last
                       then st\<lparr>continuity_errors := bump (continuity_errors st) stream_id\<rparr>
                       else st)
             in store_continuity st stream_id p cc)"

section \<open>Output, latency and recovery counters\<close>

definition report_stats_observe_output_datagram :: "report_stats \<Rightarrow> bool \<Rightarrow> report_stats" where
  "report_stats_observe_output_datagram st short_flush =
     (let st = st\<lparr>output_datagrams := output_datagrams st + 1\<rparr>
      in if short_flush then st\<lparr>output_short_flushes := output_short_flushes st + 1\<rparr> else st)"

definition report_stats_observe_latency_sample :: "report_stats \<Rightarrow> double \<Rightarrow> report_stats" where
  "report_stats_observe_latency_sample st sample_ns =
     (let st = (if observed_secondary_latency_samples st = 0 \<or>
                   sample_ns < observed_secondary_latency_min_ns st
                then st\<lparr>observed_secondary_latency_min_ns := sample_ns\<rparr> else st);
          st = (if observed_secondary_latency_max_ns st < sample_ns
                then st\<lparr>observed_secondary_latency_max_ns := sample_ns\<rparr> else st);
          st = st\<lparr>observed_secondary_latency_samples := observed_secondary_latency_samples st + 1\<rparr>
      in if observed_secondary_latency_samples st = 1
         then st\<lparr>observed_secondary_latency_avg_ns := sample_ns,
                 observed_secondary_latency_jitter_ns := 0\<rparr>
         else
           let previous_avg = observed_secondary_latency_avg_ns st;
               st = st\<lparr>observed_secondary_latency_avg_ns :=
                         f64_add (f64_mul previous_avg (7/8)) (f64_mul sample_ns (1/8))\<rparr>;
               diff = (if previous_avg < sample_ns then f64_sub sample_ns previous_avg
                       else f64_sub previous_avg sample_ns)
           in st\<lparr>observed_secondary_latency_jitter_ns :=
                   f64_add (f64_mul (observed_secondary_latency_jitter_ns st) (7/8))
                           (f64_mul diff (1/8))\<rparr>)"

definition report_stats_observe_pcr_delay :: "report_stats \<Rightarrow> double \<Rightarrow> report_stats" where
  "report_stats_observe_pcr_delay st sample_ns =
     (let st = st\<lparr>pcr_delay_samples := pcr_delay_samples st + 1\<rparr>;
          st = (if pcr_delay_samples st = 1 then st\<lparr>pcr_delay_ns := sample_ns\<rparr>
                else st\<lparr>pcr_delay_ns := f64_add (f64_mul (pcr_delay_ns st) (7/8))
                                                (f64_mul sample_ns (1/8))\<rparr>)
      in report_stats_observe_latency_sample st (if sample_ns < 0 then - sample_ns else sample_ns))"

definition report_stats_observe_latency ::
    "report_stats \<Rightarrow> u64 \<Rightarrow> u64 \<Rightarrow> u64 \<Rightarrow> report_stats" where
  "report_stats_observe_latency st primary_arrival_ns secondary_arrival_ns max_latency_ns =
     (let sample_ns = (if secondary_arrival_ns < primary_arrival_ns then 0
                       else f64_of_u64 (secondary_arrival_ns - primary_arrival_ns));
          st = report_stats_observe_latency_sample st sample_ns
      in if 0 < max_latency_ns \<and> f64_of_u64 max_latency_ns < sample_ns
         then st\<lparr>secondary_packets_too_late := secondary_packets_too_late st + 1\<rparr> else st)"

text \<open>\<open>now\<close> is the result of \<open>time(NULL)\<close>.\<close>

definition report_stats_observe_recovery :: "report_stats \<Rightarrow> bool \<Rightarrow> int \<Rightarrow> report_stats" where
  "report_stats_observe_recovery st is_null_packet now =
     (let st = st\<lparr>recovered_packets := recovered_packets st + 1\<rparr>;
          st = (if is_null_packet then st\<lparr>recovered_null_packets := recovered_null_packets st + 1\<rparr>
                else st\<lparr>recovered_content_packets := recovered_content_packets st + 1\<rparr>)
      in st\<lparr>last_recovery_event_time := (if now = 0 then 1 else now)\<rparr>)"

definition report_stats_reject_recovery ::
    "report_stats \<Rightarrow> recovery_reject_reason \<Rightarrow> report_stats" where
  "report_stats_reject_recovery st reason =
     (if reason \<noteq> RECOVERY_REJECT_COUNT
      then st\<lparr>recovery_rejects := bump (recovery_rejects st) reason\<rparr> else st)"

section \<open>Rolling window\<close>

definition oldest_rolling_sample :: "report_stats \<Rightarrow> report_stats_sample option" where
  "oldest_rolling_sample st =
     (if rolling_count st = 0 then None
      else if rolling_count st < REPORT_STATS_ROLLING_SECONDS then Some (rolling_samples st ! 0)
      else Some (rolling_samples st ! rolling_index st))"

definition rolling_sample_ago :: "report_stats \<Rightarrow> nat \<Rightarrow> report_stats_sample option" where
  "rolling_sample_ago st seconds =
     (if rolling_count st = 0 then None
      else if rolling_count st \<le> seconds then oldest_rolling_sample st
      else
        let newest_index = (if rolling_index st = 0 then REPORT_STATS_ROLLING_SECONDS - 1
                            else rolling_index st - 1);
            index = (newest_index + REPORT_STATS_ROLLING_SECONDS - seconds)
                      mod REPORT_STATS_ROLLING_SECONDS
        in Some (rolling_samples st ! index))"

definition sample_of :: "report_stats \<Rightarrow> report_stats_sample" where
  "sample_of st = zero_sample\<lparr>
     s_packets_received := (\<lambda>_. 0)(0 := packets_received st 0, 1 := packets_received st 1),
     s_sync_errors := (\<lambda>_. 0)(0 := sync_errors st 0, 1 := sync_errors st 1),
     s_transport_errors := (\<lambda>_. 0)(0 := transport_errors st 0, 1 := transport_errors st 1),
     s_continuity_errors := (\<lambda>_. 0)(0 := continuity_errors st 0, 1 := continuity_errors st 1),
     s_duplicate_counters := (\<lambda>_. 0)(0 := duplicate_counters st 0, 1 := duplicate_counters st 1),
     s_recovered_packets := recovered_packets st,
     s_unrecoverable_loss := unrecoverable_loss st,
     s_output_packets := output_packets st,
     s_output_continuity_errors := output_continuity_errors st,
     s_output_duplicate_counters := output_duplicate_counters st,
     s_stream_disagreements := stream_disagreements st,
     s_primary_delay_overflows := primary_delay_overflows st,
     s_secondary_loss_events := secondary_loss_events st,
     s_secondary_missing_packets := secondary_missing_packets st,
     s_secondary_missing_anchors := secondary_missing_anchors st,
     s_secondary_packets_too_late := secondary_packets_too_late st,
     s_primary_delay_insufficient := primary_delay_insufficient st,
     s_recovery_exact_cc_gap := recovery_exact_cc_gap st,
     s_source_switches := (\<lambda>_. 0)(0 := source_switches st 0, 1 := source_switches st 1),
     s_active_output_stream_id := active_output_stream_id st,
     s_alignment_confidence := alignment_confidence st\<rparr>"

definition capture_rolling_sample :: "report_stats \<Rightarrow> report_stats" where
  "capture_rolling_sample st =
     (let st = st\<lparr>rolling_samples := (rolling_samples st)[rolling_index st := sample_of st]\<rparr>;
          st = st\<lparr>rolling_index := (rolling_index st + 1) mod REPORT_STATS_ROLLING_SECONDS\<rparr>
      in if rolling_count st < REPORT_STATS_ROLLING_SECONDS
         then st\<lparr>rolling_count := rolling_count st + 1\<rparr> else st)"

definition report_stats_tick :: "report_stats \<Rightarrow> u64 \<Rightarrow> report_stats" where
  "report_stats_tick st now_ns =
     (if now_ns = 0 then st
      else if last_sample_ns st \<noteq> 0 \<and> now_ns - last_sample_ns st < 1000000000 then st
      else (capture_rolling_sample st)\<lparr>last_sample_ns := now_ns\<rparr>)"

section \<open>Continuity counting\<close>

lemma bad_stream_iff: "bad_stream i \<longleftrightarrow> i < 0 \<or> 2 \<le> i"
  by (simp add: bad_stream_def stats_consts)

text \<open>A clean packet carrying payload: the only kind whose counter must advance.\<close>

definition countable_info :: "ts_packet_info \<Rightarrow> bool" where
  "countable_info info \<longleftrightarrow> \<not> info_is_null info \<and> \<not> info_transport_error info \<and>
     \<not> info_discontinuity_indicator info \<and> info_has_payload info"

lemma counter_after_loss:
  assumes "cc < (16 :: u8)" and "cc' = (cc + 1 + of_nat m) AND 15"
  shows "cc' = cc \<longleftrightarrow> m mod 16 = 15" and "cc' = (cc + 1) AND 15 \<longleftrightarrow> m mod 16 = 0"
proof -
  have cc: "unat cc < 16" using assms(1) by (simp add: word_less_nat_alt)
  have u: "unat cc' = (unat cc + 1 + m) mod 16"
    by (simp add: assms(2) unat_and_15 unat_word_ariths unat_of_nat mod_simps mod_mod_cancel)
  have v: "unat ((cc + 1) AND 15) = (unat cc + 1) mod 16"
    by (simp add: unat_and_15 unat_word_ariths mod_mod_cancel)
  show "cc' = cc \<longleftrightarrow> m mod 16 = 15"
    using counter_advance(1) [OF cc, of m] by (simp add: word_unat_eq_iff u)
  show "cc' = (cc + 1) AND 15 \<longleftrightarrow> m mod 16 = 0"
    using counter_advance(2) [OF cc, of m] by (simp add: word_unat_eq_iff u v)
qed


definition example_info :: "u16 \<Rightarrow> u8 \<Rightarrow> ts_packet_info" where
  "example_info p cc = zero_info\<lparr>info_pid := p, info_continuity_counter := cc,
     adaptation_field_control := 1, info_has_payload := True\<rparr>"


section \<open>Latency statistics\<close>

definition latency_ok :: "report_stats \<Rightarrow> bool" where
  "latency_ok st \<longleftrightarrow> observed_secondary_latency_samples st \<noteq> 0 \<longrightarrow>
     0 \<le> observed_secondary_latency_min_ns st \<and>
     observed_secondary_latency_min_ns st \<le> observed_secondary_latency_max_ns st"

text \<open>
  C26. Latency statistics. Each measured pair of arrivals keeps \<open>0 \<le> min \<le> max\<close>, leaves
  the measured value between the two, and counts the secondary as too late only when its
  latency really exceeds the configured maximum: rounding to double never produces a false
  alarm, and a maximum of 0 switches the count off.
\<close>

theorem observe_latency_bounds:
  assumes "latency_ok st" and "observed_secondary_latency_samples st + 1 \<noteq> 0"
    and "observed_secondary_latency_samples st = 0 \<longrightarrow> observed_secondary_latency_max_ns st = 0"
  shows "let st' = report_stats_observe_latency st p s limit;
             v = (if s < p then 0 else f64_of_u64 (s - p)) in
     latency_ok st' \<and> observed_secondary_latency_min_ns st' \<le> v \<and>
     v \<le> observed_secondary_latency_max_ns st' \<and>
     secondary_packets_too_late st' \<in> {secondary_packets_too_late st, secondary_packets_too_late st + 1} \<and>
     (secondary_packets_too_late st' \<noteq> secondary_packets_too_late st \<longrightarrow>
        0 < limit \<and> p \<le> s \<and> limit < s - p)"
proof -
  define v where "v = (if s < p then 0 else f64_of_u64 (s - p))"
  have v0: "0 \<le> v" by (simp add: v_def)
  have late: "0 < limit \<and> p \<le> s \<and> limit < s - p" if "0 < limit" "f64_of_u64 limit < v"
  proof -
    have "p \<le> s" using that by (auto simp: v_def not_less split: if_splits)
    moreover have "limit < s - p"
    proof (rule ccontr)
      assume "\<not> limit < s - p"
      then have "f64_of_u64 (s - p) \<le> f64_of_u64 limit" by (simp add: f64_of_u64_mono)
      moreover have "v = f64_of_u64 (s - p)" using \<open>p \<le> s\<close> by (auto simp: v_def)
      ultimately show False using that(2) by linarith
    qed
    ultimately show ?thesis using that(1) by simp
  qed
  show ?thesis
    unfolding Let_def report_stats_observe_latency_def report_stats_observe_latency_sample_def
      v_def [symmetric] latency_ok_def
    using assms(1) assms(2,3) v0 late
    by (auto simp: latency_ok_def not_less intro: order_trans)
qed

lemma observe_latency_bounds_witness:
  "latency_ok (report_stats_observe_latency zero_stats 10 30 5)"
  using observe_latency_bounds [of zero_stats 10 30 5]
  by (simp add: Let_def latency_ok_def zero_stats_def)

section \<open>The rolling window is the last sixty samples\<close>

definition rolling_ok :: "report_stats \<Rightarrow> bool" where
  "rolling_ok st \<longleftrightarrow> length (rolling_samples st) = 60 \<and> rolling_index st < 60 \<and>
     rolling_count st \<le> 60 \<and> (rolling_count st < 60 \<longrightarrow> rolling_index st = rolling_count st)"

text \<open>The stored samples, newest first.\<close>

definition rolling_list :: "report_stats \<Rightarrow> report_stats_sample list" where
  "rolling_list st =
     map (\<lambda>k. rolling_samples st ! ((rolling_index st + 59 - k) mod 60)) [0..<rolling_count st]"

lemma rolling_ok_init: "rolling_ok (report_stats_init now_ns)"
  by (simp add: rolling_ok_def report_stats_init_def zero_stats_def)

lemma capture_rolling_ok: "rolling_ok st \<Longrightarrow> rolling_ok (capture_rolling_sample st)"
  by (auto simp: rolling_ok_def capture_rolling_sample_def Let_def stats_consts mod_Suc)

text \<open>
  C27. The circular sample buffer implements a window of the last 60 samples: capturing puts
  the current counters in front and drops what is older than 60 captures, and looking back
  \<open>k\<close> seconds gives the \<open>k\<close>-th newest sample, or the oldest one when fewer exist.
\<close>

theorem rolling_window_refines:
  assumes "rolling_ok st"
  shows "rolling_list (capture_rolling_sample st) = take 60 (sample_of st # rolling_list st) \<and>
         rolling_ok (capture_rolling_sample st) \<and>
         (k < 60 \<longrightarrow> rolling_sample_ago st k =
           (if rolling_list st = [] then None
            else Some (rolling_list st ! min k (length (rolling_list st) - 1)))) \<and>
         oldest_rolling_sample st =
           (if rolling_list st = [] then None else Some (last (rolling_list st)))"
proof -
  note ok = assms [unfolded rolling_ok_def]
  have oldest: "oldest_rolling_sample st =
      (if rolling_list st = [] then None else Some (last (rolling_list st)))"
    using ok
    by (auto simp: oldest_rolling_sample_def rolling_list_def stats_consts last_map last_upt)
  have ago: "rolling_sample_ago st k =
      (if rolling_list st = [] then None
       else Some (rolling_list st ! min k (length (rolling_list st) - 1)))" if "k < 60"
  proof (cases "rolling_count st \<le> k")
    case True
    then show ?thesis using oldest
      by (auto simp: rolling_sample_ago_def rolling_list_def last_conv_nth oldest_rolling_sample_def)
  next
    case False
    have wrap: "(59 + 60 - k) mod 60 = (59 - k) mod 60"
    proof -
      have "59 + 60 - k = (59 - k) + 60" using \<open>k < 60\<close> by simp
      then show ?thesis by (simp only: mod_add_self2)
    qed
    have slot: "((if rolling_index st = 0 then 60 - 1 else rolling_index st - 1) + 60 - k) mod 60 =
          (rolling_index st + 59 - k) mod 60"
    proof (cases "rolling_index st = 0")
      case True
      then show ?thesis using wrap by simp
    next
      case False
      then have "rolling_index st - 1 + 60 - k = rolling_index st + 59 - k" using \<open>k < 60\<close> by simp
      with False show ?thesis by simp
    qed
    have "rolling_sample_ago st k = Some (rolling_samples st ! ((rolling_index st + 59 - k) mod 60))"
      unfolding rolling_sample_ago_def stats_consts Let_def slot using False by simp
    moreover have "rolling_list st \<noteq> []" "min k (length (rolling_list st) - 1) = k"
      using False by (auto simp: rolling_list_def)
    moreover have "rolling_list st ! k = rolling_samples st ! ((rolling_index st + 59 - k) mod 60)"
      using False by (simp add: rolling_list_def)
    ultimately show ?thesis by simp
  qed
  have "rolling_list (capture_rolling_sample st) = take 60 (sample_of st # rolling_list st)"
  proof (rule nth_equalityI)
    show "length (rolling_list (capture_rolling_sample st)) =
          length (take 60 (sample_of st # rolling_list st))"
      using ok by (auto simp: rolling_list_def capture_rolling_sample_def stats_consts Let_def)
  next
    fix i assume i: "i < length (rolling_list (capture_rolling_sample st))"
    then have i60: "i < 60" "i < Suc (rolling_count st)"
      using ok by (auto simp: rolling_list_def capture_rolling_sample_def stats_consts Let_def
          split: if_splits)
    have slot: "((rolling_index st + 1) mod 60 + 59 - i) mod 60 = (rolling_index st + 60 - i) mod 60"
    proof (cases "rolling_index st = 59")
      case True
      have "59 + 60 - i = (59 - i) + 60" using i60 by simp
      then have "(59 + 60 - i) mod 60 = (59 - i) mod 60" by (simp only: mod_add_self2)
      with True show ?thesis by simp
    next
      case False
      then show ?thesis using ok by (simp add: add.commute)
    qed
    show "rolling_list (capture_rolling_sample st) ! i = take 60 (sample_of st # rolling_list st) ! i"
    proof (cases i)
      case 0
      then show ?thesis using i ok slot
        by (auto simp: rolling_list_def capture_rolling_sample_def stats_consts Let_def)
    next
      case (Suc j)
      have "(rolling_index st + 60 - i) mod 60 \<noteq> rolling_index st"
      proof
        assume "(rolling_index st + 60 - i) mod 60 = rolling_index st"
        moreover have "rolling_index st + 60 - i < 120" using ok by linarith
        ultimately show False using Suc i60 ok by (auto simp: mod_if split: if_splits)
      qed
      then show ?thesis using i i60 ok slot Suc
        by (auto simp: rolling_list_def capture_rolling_sample_def stats_consts Let_def
            add.commute [of _ "rolling_index st"] add.commute [of _ "rolling_count st"])
    qed
  qed
  with oldest ago capture_rolling_ok [OF assms] show ?thesis by blast
qed

lemma rolling_window_refines_witness:
  "rolling_list (capture_rolling_sample (report_stats_init 1)) = [sample_of (report_stats_init 1)]"
  using rolling_window_refines [OF rolling_ok_init, of 1]
  by (simp add: rolling_list_def report_stats_init_def zero_stats_def)

end
