(* ===== verification/Engine_Types.thy ===== *)
theory Engine_Types
  imports Packet_History Delay_Queue Packet_Sink Report_Stats
begin

text \<open>
  The state of the recovery engine (src/src/recovery_engine.h) and the log of its decisions
  (src/src/recovery_engine.c lines 45 to 137).

  Besides the fields of the C struct the engine record carries \<open>world\<close>, what the code
  asks of its environment: the successive readings of the clocks, and the decision lines it
  prints, as records of the values printed. The statistics the engine points to are its
  field \<open>stats\<close>; the sink it points to is its field \<open>sink\<close>. Arrays of two are functions
  from the stream id, the per-PID tables functions from the PID.
\<close>

section \<open>Configuration and constants\<close>

record recovery_engine_config =
  primary_delay_ns :: u64
  max_secondary_latency_ns :: u64
  alignment_window_ns :: u64
  history_ms :: u64
  primary_outage_ns :: u64
  primary_return_ns :: u64
  min_alignment_confidence :: u32
  max_content_burst_packets :: u32

definition recovery_engine_default_config :: recovery_engine_config where
  "recovery_engine_default_config = \<lparr>
     primary_delay_ns = 2500000000, max_secondary_latency_ns = 5000000000,
     alignment_window_ns = 6000000000, history_ms = 10000, primary_outage_ns = 50000000,
     primary_return_ns = 120000000000, min_alignment_confidence = 40,
     max_content_burst_packets = 15 \<rparr>"

definition RECOVERY_ENGINE_DEFAULT_HISTORY_PACKETS :: u64 where
  "RECOVERY_ENGINE_DEFAULT_HISTORY_PACKETS = 65536"
definition RECOVERY_ENGINE_ALIGNMENT_SEARCH_PACKETS :: u64 where
  "RECOVERY_ENGINE_ALIGNMENT_SEARCH_PACKETS = 2048"
definition RECOVERY_ENGINE_ALIGNMENT_MATCH_THRESHOLD :: u32 where
  "RECOVERY_ENGINE_ALIGNMENT_MATCH_THRESHOLD = 8"
definition RECOVERY_ENGINE_MAX_PCR_PIDS :: nat where "RECOVERY_ENGINE_MAX_PCR_PIDS = 32"
definition STAGE1_BOUNDARY_SEARCH_EXTRA :: int where "STAGE1_BOUNDARY_SEARCH_EXTRA = 8"
definition OVERSIZE_AFTER_ANCHOR_SCAN_PACKETS :: u64 where "OVERSIZE_AFTER_ANCHOR_SCAN_PACKETS = 255"
definition WIDE_ALIGNMENT_PROBE_INTERVAL :: u64 where "WIDE_ALIGNMENT_PROBE_INTERVAL = 512"
definition MAX_SECONDARY_AFTER_ANCHOR_CANDIDATES :: nat where
  "MAX_SECONDARY_AFTER_ANCHOR_CANDIDATES = 64"

section \<open>Component states\<close>

record alignment_state =
  has_alignment :: bool
  offset_packets :: int
  confidence :: u32
  consecutive_matches :: u32
  consecutive_misses :: u32

record primary_anchor =
  anchor_valid :: bool
  primary_index :: u64
  secondary_index :: u64

record primary_gap_state =
  gap_valid :: bool
  gap_arrival_time_ns :: u64
  gap_last_recovered_secondary_arrival_ns :: u64
  recovered_stream_packets :: u64
  secondary_recovery_index :: u64
  gap_continuity_errors :: u64
  gap_duplicate_counters :: u64

record output_pid_state =
  out_valid :: bool
  out_cc :: u8
  last_arrival_time_ns :: u64
  last_recovered_secondary_arrival_ns :: u64
  last_primary_continuity_errors :: u64

record input_pid_state =
  in_valid :: bool
  in_cc :: u8

record pcr_pid_model =
  pcr_active :: bool
  pcr_pid :: u16
  last_pcr :: u64
  last_stream_index :: u64
  pcr_last_arrival_time_ns :: u64
  bitrate_bps :: double
  packets_per_second :: double
  jitter_ns :: double
  pcr_confidence :: u32

record pcr_timing_model =
  pid_models :: "pcr_pid_model list"
  estimated_delay_ns :: double
  timing_confidence :: u32

record decision =
  d_path :: int
  d_hash :: u64
  d_index :: u64
  d_pid :: u16
  d_previous_cc :: "u8 option"
  d_cc :: u8
  d_missing :: "u64 option"
  d_align :: u32
  d_candidate :: bool
  d_candidates :: nat
  d_truncated :: bool
  d_before :: bool
  d_after :: bool
  d_decision :: string
  d_reason :: "string option"

record world =
  clock :: "nat \<Rightarrow> (u64 \<times> u64) option"
  wall_time :: "nat \<Rightarrow> int"
  time_of_day :: "nat \<Rightarrow> int \<times> int"
  reads :: nat
  decision_log :: "decision list"

record 's recovery_engine =
  sink :: "'s packet_sink"
  stats :: report_stats
  config :: recovery_engine_config
  history :: "int \<Rightarrow> packet_history"
  primary_queue :: delay_queue
  secondary_queue :: delay_queue
  pcr_model :: "int \<Rightarrow> pcr_timing_model"
  next_stream_index :: "int \<Rightarrow> u64"
  last_input_arrival_ns :: "int \<Rightarrow> u64"
  last_output_stream_index :: "int \<Rightarrow> u64"
  has_output_stream_index :: "int \<Rightarrow> bool"
  eng_active_output_stream_id :: int
  primary_return_start_ns :: u64
  primary_switchback_guard :: bool
  primary_switchback_guard_informative :: u32
  alignment :: alignment_state
  last_primary_anchor :: primary_anchor
  primary_gap :: primary_gap_state
  input_pid_state :: "int \<Rightarrow> u16 \<Rightarrow> input_pid_state"
  output_pid_state :: "u16 \<Rightarrow> output_pid_state"
  decision_candidate_count :: nat
  decision_candidates_truncated :: bool
  world :: world

section \<open>The environment\<close>

text \<open>One reading of a clock: the value, and the engine with that reading used up.\<close>

definition read_now_ns :: "'s recovery_engine \<Rightarrow> u64 \<times> 's recovery_engine" where
  "read_now_ns e =
     (report_stats_now_ns (clock (world e) (reads (world e))),
      e\<lparr>world := (world e)\<lparr>reads := Suc (reads (world e))\<rparr>\<rparr>)"

definition read_wall_time :: "'s recovery_engine \<Rightarrow> int \<times> 's recovery_engine" where
  "read_wall_time e =
     (wall_time (world e) (reads (world e)),
      e\<lparr>world := (world e)\<lparr>reads := Suc (reads (world e))\<rparr>\<rparr>)"

definition read_time_of_day :: "'s recovery_engine \<Rightarrow> (int \<times> int) \<times> 's recovery_engine" where
  "read_time_of_day e =
     (time_of_day (world e) (reads (world e)),
      e\<lparr>world := (world e)\<lparr>reads := Suc (reads (world e))\<rparr>\<rparr>)"

section \<open>The decision log\<close>

text \<open>
  The line printed for a decision, as the record of its values; a null or empty reason is
  not printed.
\<close>

definition recovery_decision_log ::
    "'s recovery_engine \<Rightarrow> int \<Rightarrow> packet_record \<Rightarrow> u8 \<Rightarrow> bool \<Rightarrow> u64 \<Rightarrow> bool \<Rightarrow> bool \<Rightarrow> bool \<Rightarrow> bool
     \<Rightarrow> string \<Rightarrow> string option \<Rightarrow> 's recovery_engine" where
  "recovery_decision_log e stream_id primary previous_cc has_previous_cc missing_count
     has_missing_count candidate_available before_anchor after_anchor dec reason =
     e\<lparr>world := (world e)\<lparr>decision_log := decision_log (world e) @
        [\<lparr>d_path = (if stream_id = 0 then 0 else 1), d_hash = hash primary,
          d_index = stream_index primary, d_pid = pid primary,
          d_previous_cc = (if has_previous_cc then Some previous_cc else None),
          d_cc = continuity_counter primary,
          d_missing = (if has_missing_count then Some missing_count else None),
          d_align = confidence (alignment e), d_candidate = candidate_available,
          d_candidates = decision_candidate_count e,
          d_truncated = decision_candidates_truncated e,
          d_before = before_anchor, d_after = after_anchor, d_decision = dec,
          d_reason = (if reason = Some [] then None else reason)\<rparr>]\<rparr>\<rparr>"

definition observe_unrecoverable_primary_gap ::
    "'s recovery_engine \<Rightarrow> packet_record \<Rightarrow> u64 \<Rightarrow> bool \<Rightarrow> string option \<Rightarrow> 's recovery_engine" where
  "observe_unrecoverable_primary_gap e primary missing_count has_missing_count reason =
     (if \<not> has_missing_count \<or> missing_count = 0 \<or> is_null primary \<or> transport_error primary \<or>
         discontinuity_indicator primary then e
      else if reason \<noteq> None \<and> take 5 (the reason) = ''null_'' then e
      else e\<lparr>stats := (stats e)\<lparr>unrecoverable_loss := unrecoverable_loss (stats e) + missing_count\<rparr>\<rparr>)"

definition recovery_reject_log ::
    "'s recovery_engine \<Rightarrow> packet_record \<Rightarrow> u8 \<Rightarrow> bool \<Rightarrow> u64 \<Rightarrow> bool \<Rightarrow> bool \<Rightarrow> bool \<Rightarrow> bool
     \<Rightarrow> recovery_reject_reason \<Rightarrow> string option \<Rightarrow> 's recovery_engine" where
  "recovery_reject_log e primary previous_cc has_previous_cc missing_count has_missing_count
     candidate_available before_anchor after_anchor reject_reason reason =
     (let e = recovery_decision_log e 0 primary previous_cc has_previous_cc missing_count
                has_missing_count candidate_available before_anchor after_anchor ''reject'' reason;
          e = e\<lparr>stats := report_stats_reject_recovery (stats e) reject_reason\<rparr>
      in observe_unrecoverable_primary_gap e primary missing_count has_missing_count reason)"

section \<open>Steps that leave the recovery state alone\<close>

text \<open>The environment is the same, up to the readings already taken and the lines logged.\<close>

definition same_env :: "world \<Rightarrow> world \<Rightarrow> bool" where
  "same_env w w' \<longleftrightarrow>
     clock w' = clock w \<and> wall_time w' = wall_time w \<and> time_of_day w' = time_of_day w"

text \<open>The statistics fields that copy engine state for the reports.\<close>

definition same_status :: "report_stats \<Rightarrow> report_stats \<Rightarrow> bool" where
  "same_status st st' \<longleftrightarrow>
     active_output_stream_id st' = active_output_stream_id st \<and>
     alignment_offset_packets st' = alignment_offset_packets st \<and>
     alignment_confidence st' = alignment_confidence st"

lemma same_env_refl [simp]: "same_env w w"
  by (simp add: same_env_def)

lemma same_env_trans: "same_env a b \<Longrightarrow> same_env b c \<Longrightarrow> same_env a c"
  by (simp add: same_env_def)

lemma same_env_upd [simp]:
  "same_env w (w'\<lparr>reads := n\<rparr>) = same_env w w'" "same_env w (w'\<lparr>decision_log := l\<rparr>) = same_env w w'"
  by (simp_all add: same_env_def)

lemma same_status_refl [simp]: "same_status st st"
  by (simp add: same_status_def)

lemma same_status_trans: "same_status a b \<Longrightarrow> same_status b c \<Longrightarrow> same_status a c"
  by (simp add: same_status_def)

lemma same_status_upd [simp]:
  "same_status st (st'\<lparr>unrecoverable_loss := n\<rparr>) = same_status st st'"
  "same_status st (st'\<lparr>recovered_content_bursts := n\<rparr>) = same_status st st'"
  "same_status st (st'\<lparr>output_packets := n\<rparr>) = same_status st st'"
  "same_status st (st'\<lparr>output_continuity_errors := n\<rparr>) = same_status st st'"
  "same_status st (st'\<lparr>output_duplicate_counters := n\<rparr>) = same_status st st'"
  "same_status st (st'\<lparr>primary_delay_overflows := n\<rparr>) = same_status st st'"
  "same_status st (report_stats_reject_recovery st' rr) = same_status st st'"
  "same_status st (report_stats_observe_recovery st' b t) = same_status st st'"
  "same_status st (report_stats_observe_output_datagram st' b) = same_status st st'"
  by (simp_all add: same_status_def report_stats_reject_recovery_def Let_def
      report_stats_observe_recovery_def report_stats_observe_output_datagram_def)

text \<open>
  \<open>quiet e e'\<close>: the two engines differ only in the log, the clock readings taken and
  statistics other than the copies of engine state. Logging and reading a clock are quiet, so
  a rejected recovery leaves the state it decided on.
\<close>

definition quiet :: "'s recovery_engine \<Rightarrow> 's recovery_engine \<Rightarrow> bool" where
  "quiet e e' \<longleftrightarrow> same_env (world e) (world e') \<and> same_status (stats e) (stats e') \<and>
     (\<exists>st w. e' = e\<lparr>stats := st, world := w\<rparr>)"

lemma quiet_refl [simp, intro]: "quiet e e"
  unfolding quiet_def
  by (intro conjI exI [of _ "stats e"] exI [of _ "world e"]) simp_all

lemma quiet_trans: "quiet a b \<Longrightarrow> quiet b c \<Longrightarrow> quiet a c"
  unfolding quiet_def by (fastforce intro: same_env_trans same_status_trans)

lemma quiet_world [intro]: "quiet e e' \<Longrightarrow> same_env (world e) w \<Longrightarrow> quiet e (e'\<lparr>world := w\<rparr>)"
  unfolding quiet_def by fastforce

lemma quiet_stats [intro]:
  assumes "quiet e e'" and "same_status (stats e) st"
  shows "quiet e (e'\<lparr>stats := st\<rparr>)"
proof -
  from assms obtain s w where "e' = e\<lparr>stats := s, world := w\<rparr>" by (auto simp: quiet_def)
  then have "e'\<lparr>stats := st\<rparr> = e\<lparr>stats := st, world := w\<rparr>" by simp
  then have "\<exists>st' w. e'\<lparr>stats := st\<rparr> = e\<lparr>stats := st', world := w\<rparr>" by blast
  then show ?thesis using assms by (simp add: quiet_def)
qed

lemma quietD:
  assumes "quiet e e'"
  shows "sink e' = sink e" "config e' = config e" "history e' = history e"
    "primary_queue e' = primary_queue e" "secondary_queue e' = secondary_queue e"
    "pcr_model e' = pcr_model e" "next_stream_index e' = next_stream_index e"
    "last_input_arrival_ns e' = last_input_arrival_ns e"
    "last_output_stream_index e' = last_output_stream_index e"
    "has_output_stream_index e' = has_output_stream_index e"
    "eng_active_output_stream_id e' = eng_active_output_stream_id e"
    "primary_return_start_ns e' = primary_return_start_ns e"
    "alignment e' = alignment e" "last_primary_anchor e' = last_primary_anchor e"
    "primary_gap e' = primary_gap e" "input_pid_state e' = input_pid_state e"
    "output_pid_state e' = output_pid_state e"
    "decision_candidate_count e' = decision_candidate_count e"
    "decision_candidates_truncated e' = decision_candidates_truncated e"
  using assms by (auto simp: quiet_def)

lemma quietD_env:
  assumes "quiet e e'"
  shows "same_env (world e) (world e')" "same_status (stats e) (stats e')"
  using assms by (auto simp: quiet_def)

lemma quiet_decision_log [intro, simp]:
  "quiet e (recovery_decision_log e sid p cc hcc n hn ca b a d reason)"
  unfolding recovery_decision_log_def by (rule quiet_world) simp_all

lemma quiet_unrecoverable [intro]: "quiet e e' \<Longrightarrow> quiet e (observe_unrecoverable_primary_gap e' p n hn reason)"
  unfolding observe_unrecoverable_primary_gap_def by (auto intro!: quiet_stats dest: quietD_env)

lemma quiet_reject_log [intro, simp]: "quiet e (recovery_reject_log e p cc hcc n hn ca b a rr reason)"
  unfolding recovery_reject_log_def Let_def
  by (intro quiet_unrecoverable quiet_stats quiet_decision_log)
    (simp add: quietD_env(2) [OF quiet_decision_log])

lemma quiet_reads [intro, simp]:
  "quiet e (snd (read_now_ns e))" "quiet e (snd (read_wall_time e))" "quiet e (snd (read_time_of_day e))"
  by (auto simp: read_now_ns_def read_wall_time_def read_time_of_day_def)

text \<open>What a rejection adds to the statistics and the log.\<close>

definition loss_counted :: "packet_record \<Rightarrow> bool \<Rightarrow> string option \<Rightarrow> bool" where
  "loss_counted p has_missing_count reason \<longleftrightarrow>
     has_missing_count \<and> \<not> is_null p \<and> \<not> transport_error p \<and> \<not> discontinuity_indicator p \<and>
     \<not> (reason \<noteq> None \<and> take 5 (the reason) = ''null_'')"

lemma reject_log_stats:
  assumes "rr \<noteq> RECOVERY_REJECT_COUNT"
  shows "stats (recovery_reject_log e p cc hcc n hn ca b a rr reason) =
     (stats e)\<lparr>recovery_rejects := bump (recovery_rejects (stats e)) rr,
        unrecoverable_loss := unrecoverable_loss (stats e) + (if loss_counted p hn reason then n else 0)\<rparr>"
  using assms
  by (simp add: recovery_reject_log_def recovery_decision_log_def Let_def loss_counted_def
      observe_unrecoverable_primary_gap_def report_stats_reject_recovery_def)

lemma reject_log_log:
  "length (decision_log (world (recovery_reject_log e p cc hcc n hn ca b a rr reason))) =
   Suc (length (decision_log (world e)))"
  by (simp add: recovery_reject_log_def recovery_decision_log_def Let_def
      observe_unrecoverable_primary_gap_def)

end
