(* ===== verification/Output_State.thy ===== *)
theory Output_State
  imports Engine_Types
begin

text \<open>
  Continuity tracking and packet output of the engine (src/src/recovery_engine.c lines 287
  to 513): which record may come next on the output, how many packets a counter jump hides,
  the gaps observed on an input, and sending one record.
\<close>

section \<open>Lookups and configuration\<close>

definition find_aligned_secondary_record ::
    "'s recovery_engine \<Rightarrow> packet_record \<Rightarrow> packet_record option" where
  "find_aligned_secondary_record e primary =
     (if \<not> has_alignment (alignment e) then None
      else
        let expected_index = sint (stream_index primary) + offset_packets (alignment e)
        in if expected_index < 0 then None
           else hist_find (history e 1) (word_of_int expected_index))"

definition history_capacity_from_config :: "recovery_engine_config \<Rightarrow> nat" where
  "history_capacity_from_config cfg =
     (let capacity = (if 0 < history_ms cfg then (history_ms cfg * 14000 + 999) div 1000
                      else RECOVERY_ENGINE_DEFAULT_HISTORY_PACKETS);
          capacity = (if capacity < 8192 then 8192 else capacity);
          capacity = (if 1048576 < capacity then 1048576 else capacity)
      in unat capacity)"

definition alignment_search_radius_packets :: "'s recovery_engine \<Rightarrow> u64" where
  "alignment_search_radius_packets e =
     (let radius = (alignment_window_ns (config e) * 14 + 999999) div 1000000;
          radius = (if radius < RECOVERY_ENGINE_ALIGNMENT_SEARCH_PACKETS
                    then RECOVERY_ENGINE_ALIGNMENT_SEARCH_PACKETS else radius)
      in if hist_capacity (history e 0) < unat radius
         then of_nat (hist_capacity (history e 0)) else radius)"

section \<open>Continuity of the output\<close>

definition record_fits_output_states :: "(u16 \<Rightarrow> output_pid_state) \<Rightarrow> packet_record \<Rightarrow> bool" where
  "record_fits_output_states states r =
     (if is_null r then True
      else if transport_error r \<or> discontinuity_indicator r then False
      else
        let state = states (pid r)
        in if \<not> out_valid state then True
           else if \<not> has_payload r then continuity_counter r = out_cc state
           else continuity_counter r = (out_cc state + 1) AND 0x0f)"

definition record_fits_next_output :: "'s recovery_engine \<Rightarrow> packet_record \<Rightarrow> bool" where
  "record_fits_next_output e r = record_fits_output_states (output_pid_state e) r"

text \<open>\<open>Some cc\<close> where the C function returns true and stores \<open>cc\<close>.\<close>

definition previous_output_cc_for_record :: "'s recovery_engine \<Rightarrow> packet_record \<Rightarrow> u8 option" where
  "previous_output_cc_for_record e r =
     (if is_null r \<or> REPORT_STATS_PIDS \<le> unat (pid r) then None
      else
        let state = output_pid_state e (pid r)
        in if \<not> out_valid state then None else Some (out_cc state))"

definition infer_missing_from_cc :: "u8 \<Rightarrow> packet_record \<Rightarrow> u64 option" where
  "infer_missing_from_cc previous_cc r =
     (if \<not> has_payload r \<or> is_null r then None
      else
        let delta = (continuity_counter r + 16 - previous_cc) AND 0x0f
        in if delta = 0 then None else Some (ucast (delta - 1)))"

definition observe_output_states ::
    "(u16 \<Rightarrow> output_pid_state) \<Rightarrow> packet_record \<Rightarrow> (u16 \<Rightarrow> output_pid_state)" where
  "observe_output_states states r =
     (if is_null r \<or> transport_error r \<or> discontinuity_indicator r then states
      else
        let state = (states (pid r))\<lparr>out_valid := True, out_cc := continuity_counter r,
                                     last_arrival_time_ns := arrival_time_ns r\<rparr>;
            state = (if source_stream_id r = 0
                     then state\<lparr>last_primary_continuity_errors := stream_continuity_errors r\<rparr>
                     else state)
        in states(pid r := state))"

definition observe_output_record :: "'s recovery_engine \<Rightarrow> packet_record \<Rightarrow> 's recovery_engine" where
  "observe_output_record e r =
     (if is_null r then e
      else
        let state = output_pid_state e (pid r);
            st = stats e;
            st = (if out_valid state \<and> \<not> transport_error r \<and> \<not> discontinuity_indicator r
                  then (if has_payload r
                        then (let expected = (out_cc state + 1) AND 0x0f
                              in if continuity_counter r = out_cc state
                                 then st\<lparr>output_duplicate_counters := output_duplicate_counters st + 1\<rparr>
                                 else if continuity_counter r \<noteq> expected
                                 then st\<lparr>output_continuity_errors := output_continuity_errors st + 1\<rparr>
                                 else st)
                        else if continuity_counter r \<noteq> out_cc state
                        then st\<lparr>output_continuity_errors := output_continuity_errors st + 1\<rparr>
                        else st)
                  else st);
            state = state\<lparr>out_valid := True, out_cc := continuity_counter r,
                          last_arrival_time_ns := arrival_time_ns r\<rparr>;
            state = (if source_stream_id r = 0
                     then state\<lparr>last_primary_continuity_errors := stream_continuity_errors r\<rparr>
                     else state)
        in e\<lparr>stats := st, output_pid_state := (output_pid_state e)(pid r := state)\<rparr>)"

definition output_record :: "'s recovery_engine \<Rightarrow> packet_record \<Rightarrow> int \<times> 's recovery_engine" where
  "output_record e r =
     (case packet_sink_send_ts_packet (sink e) (packet r) of (rc, snk) \<Rightarrow>
        let e = e\<lparr>sink := snk\<rparr>
        in if rc \<noteq> 0 then (-1, e)
           else
             let e = e\<lparr>stats := (stats e)\<lparr>output_packets := output_packets (stats e) + 1\<rparr>\<rparr>;
                 e = (if 0 \<le> source_stream_id r \<and> source_stream_id r < 2
                      then e\<lparr>has_output_stream_index :=
                               (has_output_stream_index e)(source_stream_id r := True),
                             last_output_stream_index :=
                               (last_output_stream_index e)(source_stream_id r := stream_index r)\<rparr>
                      else e);
                 e = (if output_packets (stats e) mod 7 = 0
                      then e\<lparr>stats := report_stats_observe_output_datagram (stats e) False\<rparr> else e)
             in (0, observe_output_record e r))"

definition set_active_output_stream :: "'s recovery_engine \<Rightarrow> int \<Rightarrow> 's recovery_engine" where
  "set_active_output_stream e stream_id =
     (if stream_id < 0 \<or> 1 < stream_id \<or> eng_active_output_stream_id e = stream_id then e
      else e\<lparr>eng_active_output_stream_id := stream_id,
             stats := (stats e)\<lparr>active_output_stream_id := stream_id,
                                source_switches := bump (source_switches (stats e)) stream_id\<rparr>\<rparr>)"

section \<open>Gaps on an input\<close>

definition observe_input_path_gap ::
    "'s recovery_engine \<Rightarrow> int \<Rightarrow> packet_record \<Rightarrow> 's recovery_engine" where
  "observe_input_path_gap e stream_id r =
     (if is_null r \<or> transport_error r \<or> discontinuity_indicator r \<or>
         REPORT_STATS_PIDS \<le> unat (pid r) then e
      else
        let state = input_pid_state e stream_id (pid r);
            e = (if in_valid state
                 then
                   let missing = (if has_payload r then infer_missing_from_cc (in_cc state) r else None);
                       gap = (if has_payload r
                              then continuity_counter r \<noteq> in_cc state \<and>
                                   continuity_counter r \<noteq> (in_cc state + 1) AND 0x0f
                              else continuity_counter r \<noteq> in_cc state)
                   in if gap \<and> stream_id = 1
                      then
                        let st = stats e;
                            e = e\<lparr>stats := st\<lparr>secondary_loss_events := secondary_loss_events st + 1,
                                  secondary_missing_packets := secondary_missing_packets st +
                                    (case missing of None \<Rightarrow> 1 | Some m \<Rightarrow> m)\<rparr>\<rparr>
                        in recovery_decision_log e stream_id r (in_cc state) True
                             (case missing of None \<Rightarrow> 0 | Some m \<Rightarrow> m) (missing \<noteq> None)
                             False False False ''reject'' (Some ''secondary_input_gap'')
                      else e
                 else e)
        in e\<lparr>input_pid_state := (input_pid_state e)(stream_id := (input_pid_state e stream_id)
               (pid r := \<lparr>in_valid = True, in_cc = continuity_counter r\<rparr>))\<rparr>)"

end
