(* ===== verification/Alignment.thy ===== *)
theory Alignment
  imports Output_State
begin

text \<open>
  Aligning the two inputs (src/src/recovery_engine.c lines 515 to 777): the PCR timing model
  and the search for runs of eight matching packets that fix the offset between the stream
  indices.
\<close>

section \<open>Adopting a match\<close>

definition update_alignment_from_match ::
    "'s recovery_engine \<Rightarrow> packet_record \<Rightarrow> packet_record \<Rightarrow> 's recovery_engine" where
  "update_alignment_from_match e primary secondary =
     (let al = (alignment e)\<lparr>
            has_alignment := True,
            offset_packets := sint (stream_index secondary) - sint (stream_index primary),
            confidence := 100,
            consecutive_matches := consecutive_matches (alignment e) + 1,
            consecutive_misses := 0\<rparr>;
          st = (stats e)\<lparr>alignment_offset_packets := offset_packets al,
                         alignment_confidence := confidence al\<rparr>
      in e\<lparr>alignment := al,
           stats := report_stats_observe_latency st (arrival_time_ns primary)
                      (arrival_time_ns secondary) (max_secondary_latency_ns (config e))\<rparr>)"

section \<open>The PCR timing model\<close>

definition zero_pcr_model :: pcr_pid_model where
  "zero_pcr_model = \<lparr>pcr_active = False, pcr_pid = 0, last_pcr = 0, last_stream_index = 0,
     pcr_last_arrival_time_ns = 0, bitrate_bps = 0, packets_per_second = 0, jitter_ns = 0,
     pcr_confidence = 0\<rparr>"

text \<open>The loop of \<open>pcr_pid_model_for\<close>: the slot of the PID, or the first free slot.\<close>

primrec pcr_scan :: "pcr_pid_model list \<Rightarrow> u16 \<Rightarrow> nat \<Rightarrow> nat option \<Rightarrow> nat option \<times> nat option" where
  "pcr_scan [] p i free_model = (None, free_model)"
| "pcr_scan (m # ms) p i free_model =
     (if pcr_active m \<and> pcr_pid m = p then (Some i, free_model)
      else pcr_scan ms p (Suc i)
             (if \<not> pcr_active m \<and> free_model = None then Some i else free_model))"

definition set_pcr_slot :: "'s recovery_engine \<Rightarrow> int \<Rightarrow> nat \<Rightarrow> pcr_pid_model \<Rightarrow> 's recovery_engine" where
  "set_pcr_slot e stream_id i m =
     e\<lparr>pcr_model := (pcr_model e)(stream_id := (pcr_model e stream_id)
         \<lparr>pid_models := (pid_models (pcr_model e stream_id))[i := m]\<rparr>)\<rparr>"

definition pcr_pid_model_for ::
    "'s recovery_engine \<Rightarrow> int \<Rightarrow> u16 \<Rightarrow> nat option \<times> 's recovery_engine" where
  "pcr_pid_model_for e stream_id p =
     (case pcr_scan (pid_models (pcr_model e stream_id)) p 0 None of
        (Some i, _) \<Rightarrow> (Some i, e)
      | (None, Some i) \<Rightarrow>
          (Some i, set_pcr_slot e stream_id i (zero_pcr_model\<lparr>pcr_active := True, pcr_pid := p\<rparr>))
      | (None, None) \<Rightarrow> (None, e))"

text \<open>The latest record of the other history with the same clock reference.\<close>

definition pcr_candidate :: "packet_record \<Rightarrow> packet_record \<Rightarrow> bool" where
  "pcr_candidate r c \<longleftrightarrow> has_pcr c \<and> pid c = pid r \<and> pcr_value c = pcr_value r \<and>
     \<not> transport_error c \<and> \<not> discontinuity_indicator c"

definition find_matching_pcr_record :: "packet_history \<Rightarrow> packet_record \<Rightarrow> packet_record option" where
  "find_matching_pcr_record h r =
     foldl (\<lambda>best i.
        let c = hist_records h ! ((hist_start h + i) mod hist_capacity h)
        in if \<not> pcr_candidate r c then best
           else case best of None \<Rightarrow> Some c
                | Some b \<Rightarrow> if arrival_time_ns b < arrival_time_ns c then Some c else best)
       None [0..<hist_count h]"

text \<open>Lines 589 to 607: the bit rate of one PID from two clock references.\<close>

definition update_pcr_bitrate ::
    "'s recovery_engine \<Rightarrow> int \<Rightarrow> nat \<Rightarrow> packet_record \<Rightarrow> 's recovery_engine" where
  "update_pcr_bitrate e stream_id i r =
     (let m = pid_models (pcr_model e stream_id) ! i
      in if pcr_last_arrival_time_ns m \<noteq> 0 \<and> last_pcr m < pcr_value r \<and>
            last_stream_index m < stream_index r
         then
           let pcr_seconds = f64_div (f64_of_u64 (pcr_value r - last_pcr m)) 90000;
               packet_bits = f64_mul (f64_mul (f64_of_u64 (stream_index r - last_stream_index m)) 188) 8
           in if 0 < pcr_seconds
              then
                let rate = f64_div packet_bits pcr_seconds;
                    m = m\<lparr>bitrate_bps := (if bitrate_bps m = 0 then rate
                             else f64_add (f64_mul (bitrate_bps m) (7/8)) (f64_mul rate (1/8)))\<rparr>;
                    st = (stats e)\<lparr>pcr_bitrate_bps := (pcr_bitrate_bps (stats e))
                                     (stream_id := bitrate_bps m)\<rparr>;
                    m = (if pcr_confidence m < 100
                         then m\<lparr>pcr_confidence := pcr_confidence m +
                                  (if 95 < pcr_confidence m then 100 - pcr_confidence m else 5)\<rparr>
                         else m);
                    e = set_pcr_slot e stream_id i m
                in e\<lparr>pcr_model := (pcr_model e)(stream_id := (pcr_model e stream_id)
                        \<lparr>timing_confidence := pcr_confidence m\<rparr>),
                     stats := st\<lparr>pcr_timing_confidence := (pcr_timing_confidence st)
                        (stream_id := pcr_confidence m)\<rparr>\<rparr>
              else e
         else e)"

definition update_pcr_timing :: "'s recovery_engine \<Rightarrow> packet_record \<Rightarrow> 's recovery_engine" where
  "update_pcr_timing e r =
     (let stream_id = source_stream_id r;
          other_stream_id = (if stream_id = 0 then 1 else 0)
      in if \<not> has_pcr r \<or> transport_error r \<or> discontinuity_indicator r then e
         else
           let (slot, e) = pcr_pid_model_for e stream_id (pid r);
               e = (case slot of None \<Rightarrow> e
                    | Some i \<Rightarrow>
                        let e = update_pcr_bitrate e stream_id i r
                        in set_pcr_slot e stream_id i
                             ((pid_models (pcr_model e stream_id) ! i)
                                \<lparr>last_pcr := pcr_value r, last_stream_index := stream_index r,
                                 pcr_last_arrival_time_ns := arrival_time_ns r\<rparr>))
           in case find_matching_pcr_record (history e other_stream_id) r of
                None \<Rightarrow> e
              | Some match \<Rightarrow>
                  let e = (if records_exact_non_error_match r match
                           then (if stream_id = 0 then update_alignment_from_match e r match
                                 else update_alignment_from_match e match r)
                           else e);
                      sample_ns =
                        (if stream_id = 0
                         then f64_of_i64 (sint (arrival_time_ns match) - sint (arrival_time_ns r))
                         else f64_of_i64 (sint (arrival_time_ns r) - sint (arrival_time_ns match)));
                      e = e\<lparr>pcr_model := (pcr_model e)
                              (stream_id := (pcr_model e stream_id)\<lparr>estimated_delay_ns := sample_ns\<rparr>)\<rparr>;
                      e = e\<lparr>pcr_model := (pcr_model e)
                              (other_stream_id := (pcr_model e other_stream_id)
                                 \<lparr>estimated_delay_ns := sample_ns\<rparr>)\<rparr>
                  in e\<lparr>stats := report_stats_observe_pcr_delay (stats e) sample_ns\<rparr>)"

section \<open>Searching a confirmed run\<close>

function has_confirmed_backward_run_from ::
    "packet_history \<Rightarrow> packet_history \<Rightarrow> packet_record \<Rightarrow> packet_record \<Rightarrow> u32 \<Rightarrow> u32 \<Rightarrow> bool" where
  "has_confirmed_backward_run_from self other r match required_matches n =
     (if n < required_matches then
        if stream_index r < ucast n \<or> stream_index match < ucast n then False
        else
          (case (hist_find self (stream_index r - ucast n), hist_find other (stream_index match - ucast n)) of
             (Some previous_self, Some previous_other) \<Rightarrow>
               if \<not> records_match previous_self previous_other then False
               else has_confirmed_backward_run_from self other r match required_matches (n + 1)
           | _ \<Rightarrow> False)
      else True)"
  by pat_completeness auto
termination
  by (relation "measure (\<lambda>(self, other, r, match, required, n). unat required - unat n)")
    (simp_all add: word_loop_measure)

declare has_confirmed_backward_run_from.simps [simp del]

definition has_confirmed_backward_run ::
    "packet_history \<Rightarrow> packet_history \<Rightarrow> packet_record \<Rightarrow> packet_record \<Rightarrow> u32 \<Rightarrow> bool" where
  "has_confirmed_backward_run self other r match required_matches =
     has_confirmed_backward_run_from self other r match required_matches 1"

text \<open>The loop over \<open>delta\<close>, from the given value to the radius.\<close>

function find_confirmed_from ::
    "packet_history \<Rightarrow> packet_history \<Rightarrow> packet_record \<Rightarrow> int \<Rightarrow> int \<Rightarrow> u32 \<Rightarrow> int
     \<Rightarrow> packet_record option" where
  "find_confirmed_from self other r expected_index radius required_matches delta =
     (if delta \<le> radius then
        let index = expected_index + delta;
            continue = find_confirmed_from self other r expected_index radius required_matches (delta + 1)
        in if index < 0 then continue
           else
             (case hist_find other (word_of_int index) of
                Some candidate \<Rightarrow>
                  if records_match r candidate \<and>
                     has_confirmed_backward_run self other r candidate required_matches
                  then Some candidate else continue
              | None \<Rightarrow> continue)
      else None)"
  by pat_completeness auto
termination
  by (relation "measure (\<lambda>(self, other, r, e, radius, k, delta). nat (radius + 1 - delta))") auto

declare find_confirmed_from.simps [simp del]

definition find_confirmed_matching_record_near ::
    "packet_history \<Rightarrow> packet_history \<Rightarrow> packet_record \<Rightarrow> int \<Rightarrow> u64 \<Rightarrow> u32 \<Rightarrow> packet_record option" where
  "find_confirmed_matching_record_near self other r expected_index radius required_matches =
     find_confirmed_from self other r expected_index (sint radius) required_matches (- sint radius)"

section \<open>Updating the alignment for a packet\<close>

definition update_alignment :: "'s recovery_engine \<Rightarrow> int \<Rightarrow> packet_record \<Rightarrow> 's recovery_engine" where
  "update_alignment e stream_id r =
     (let self = history e stream_id;
          other = history e (if stream_id = 0 then 1 else 0);
          near = (\<lambda>expected radius. find_confirmed_matching_record_near self other r expected radius
                    RECOVERY_ENGINE_ALIGNMENT_MATCH_THRESHOLD);
          miss = (\<lambda>e. e\<lparr>alignment := (alignment e)
                    \<lparr>consecutive_misses := consecutive_misses (alignment e) + 1\<rparr>\<rparr>);
          adopt = (\<lambda>match. if stream_id = 0 then update_alignment_from_match e r match
                            else update_alignment_from_match e match r)
      in if \<not> record_is_informative r then e
         else
           let match = (if has_alignment (alignment e)
                        then near (if stream_id = 0
                                   then sint (stream_index r) + offset_packets (alignment e)
                                   else sint (stream_index r) - offset_packets (alignment e))
                               (word_of_int STAGE1_BOUNDARY_SEARCH_EXTRA)
                        else None);
               match = (case match of Some m \<Rightarrow> Some m
                        | None \<Rightarrow> near (sint (stream_index r)) (word_of_int STAGE1_BOUNDARY_SEARCH_EXTRA))
           in case match of Some m \<Rightarrow> adopt m
              | None \<Rightarrow>
                  if stream_index r mod WIDE_ALIGNMENT_PROBE_INTERVAL \<noteq> 0 then miss e
                  else
                    (case near (sint (stream_index r)) (alignment_search_radius_packets e) of
                       Some m \<Rightarrow> adopt m
                     | None \<Rightarrow>
                         let e = miss e
                         in if 64 \<le> consecutive_misses (alignment e) \<and> 0 < confidence (alignment e)
                            then
                              let al = (alignment e)\<lparr>confidence := confidence (alignment e) - 1,
                                                    consecutive_misses := 0\<rparr>
                              in e\<lparr>alignment := al,
                                   stats := (stats e)\<lparr>alignment_confidence := confidence al\<rparr>\<rparr>
                            else e))"

end
