(* ===== verification/Candidates.thy ===== *)
theory Candidates
  imports Output_State
begin

text \<open>
  Candidates for the packet of the secondary input that ends a gap
  (src/src/recovery_engine.c lines 689 to 727 and 910 to 961): all records of the secondary
  history that equal the primary packet, searched around the aligned position and behind the
  last anchor. A candidate is a slot of the secondary history, so that two finds of the same
  record are recognised as one.
\<close>

record secondary_after_anchor_candidates =
  cand_slots :: "nat list"
  cand_truncated :: bool

definition no_candidates :: secondary_after_anchor_candidates where
  "no_candidates = \<lparr>cand_slots = [], cand_truncated = False\<rparr>"

definition add_secondary_after_anchor_candidate ::
    "secondary_after_anchor_candidates \<Rightarrow> nat option \<Rightarrow> secondary_after_anchor_candidates" where
  "add_secondary_after_anchor_candidate cs candidate =
     (case candidate of
        None \<Rightarrow> cs
      | Some s \<Rightarrow>
          if s \<in> set (cand_slots cs) then cs
          else if MAX_SECONDARY_AFTER_ANCHOR_CANDIDATES \<le> length (cand_slots cs)
          then cs\<lparr>cand_truncated := True\<rparr>
          else cs\<lparr>cand_slots := cand_slots cs @ [s]\<rparr>)"

text \<open>One round of the collecting loop: the record with this stream index, if it matches.\<close>

definition collect_at ::
    "packet_history \<Rightarrow> packet_record \<Rightarrow> u64 \<Rightarrow> secondary_after_anchor_candidates
     \<Rightarrow> secondary_after_anchor_candidates" where
  "collect_at h primary index cs =
     (case packet_history_find_index h index of
        None \<Rightarrow> cs
      | Some s \<Rightarrow>
          if records_exact_non_error_match primary (hist_at h s)
          then add_secondary_after_anchor_candidate cs (Some s) else cs)"

function collect_secondary_after_anchor_candidates_in_range ::
    "packet_history \<Rightarrow> packet_record \<Rightarrow> u64 \<Rightarrow> u64 \<Rightarrow> secondary_after_anchor_candidates
     \<Rightarrow> secondary_after_anchor_candidates" where
  "collect_secondary_after_anchor_candidates_in_range h primary index last_index cs =
     (if index \<le> last_index then
        let cs = collect_at h primary index cs
        in if index = - 1 then cs
           else collect_secondary_after_anchor_candidates_in_range h primary (index + 1) last_index cs
      else cs)"
  by pat_completeness auto
termination
proof (relation "measure (\<lambda>(h, primary, index, last_index, cs). unat (- 1 :: u64) - unat index)", simp)
  fix h primary and index last_index :: u64 and cs x
  assume "index \<noteq> - 1"
  then have "index < - 1" by (simp add: order_less_le)
  then show "((h, primary, index + 1, last_index, x), h, primary, index, last_index, cs)
      \<in> measure (\<lambda>(h, primary, index, last_index, cs). unat (- 1 :: u64) - unat index)"
    using word_loop_measure [of index "- 1"] by simp
qed

declare collect_secondary_after_anchor_candidates_in_range.simps [simp del]

text \<open>Lines 948 to 958: the last stream index searched behind the anchor.\<close>

definition after_anchor_last_index :: "'s recovery_engine \<Rightarrow> packet_record \<Rightarrow> u64" where
  "after_anchor_last_index e primary =
     (let anchor = last_primary_anchor e;
          first_index = secondary_index anchor + 1;
          oversize_scan = (ucast (max_content_burst_packets (config e)) :: u64) + 1;
          oversize_scan = (if oversize_scan < OVERSIZE_AFTER_ANCHOR_SCAN_PACKETS
                           then OVERSIZE_AFTER_ANCHOR_SCAN_PACKETS else oversize_scan)
      in first_index + (stream_index primary - primary_index anchor - 1) + oversize_scan)"

definition find_secondary_boundary_matches ::
    "'s recovery_engine \<Rightarrow> packet_record \<Rightarrow> secondary_after_anchor_candidates" where
  "find_secondary_boundary_matches e primary =
     (let h = history e 1;
          anchor = last_primary_anchor e
      in if is_null primary \<or> transport_error primary \<or> discontinuity_indicator primary
         then no_candidates
         else
           let cs = (if has_alignment (alignment e)
                     then
                       let expected_index = sint (stream_index primary) + offset_packets (alignment e);
                           cs = (if 0 \<le> expected_index
                                 then collect_at h primary (word_of_int expected_index) no_candidates
                                 else no_candidates)
                       in if 0 \<le> expected_index + STAGE1_BOUNDARY_SEARCH_EXTRA
                          then
                            let first_exact = (if STAGE1_BOUNDARY_SEARCH_EXTRA < expected_index
                                     then word_of_int (expected_index - STAGE1_BOUNDARY_SEARCH_EXTRA)
                                     else 0);
                                last_exact = word_of_int (expected_index + STAGE1_BOUNDARY_SEARCH_EXTRA)
                            in collect_secondary_after_anchor_candidates_in_range h primary
                                 first_exact last_exact cs
                          else cs
                     else no_candidates)
           in if \<not> anchor_valid anchor \<or> stream_index primary \<le> primary_index anchor then cs
              else
                collect_secondary_after_anchor_candidates_in_range h primary
                  (secondary_index anchor + 1) (after_anchor_last_index e primary) cs)"

text \<open>The record a candidate slot points to.\<close>

definition candidate_record :: "'s recovery_engine \<Rightarrow> nat \<Rightarrow> packet_record" where
  "candidate_record e slot = hist_at (history e 1) slot"

section \<open>What the candidates are\<close>

definition cands_ok :: "packet_history \<Rightarrow> packet_record \<Rightarrow> secondary_after_anchor_candidates \<Rightarrow> bool" where
  "cands_ok h primary cs \<longleftrightarrow> distinct (cand_slots cs) \<and>
     length (cand_slots cs) \<le> MAX_SECONDARY_AFTER_ANCHOR_CANDIDATES \<and>
     (\<forall>s \<in> set (cand_slots cs). (\<exists>i. packet_history_find_index h i = Some s) \<and>
        records_exact_non_error_match primary (hist_at h s))"

lemma cands_ok_empty [simp]: "cands_ok h primary no_candidates"
  by (simp add: cands_ok_def no_candidates_def)

lemma cands_ok_at: "cands_ok h primary cs \<Longrightarrow> cands_ok h primary (collect_at h primary i cs)"
  by (auto simp: cands_ok_def collect_at_def add_secondary_after_anchor_candidate_def
      split: option.splits)

lemma cands_ok_range:
  "cands_ok h primary cs \<Longrightarrow>
   cands_ok h primary (collect_secondary_after_anchor_candidates_in_range h primary i l cs)"
proof (induction h primary i l cs rule: collect_secondary_after_anchor_candidates_in_range.induct)
  case (1 h primary i l cs)
  then show ?case
    by (subst collect_secondary_after_anchor_candidates_in_range.simps)
      (simp add: Let_def cands_ok_at)
qed

lemma boundary_matches_ok:
  "cands_ok (history e 1) primary (find_secondary_boundary_matches e primary)"
  by (simp add: find_secondary_boundary_matches_def Let_def cands_ok_at cands_ok_range)

text \<open>The collecting loop misses nothing, except what it reports by the truncation mark.\<close>

lemma collect_at_mono:
  "set (cand_slots cs) \<subseteq> set (cand_slots (collect_at h primary i cs)) \<and>
   (cand_truncated cs \<longrightarrow> cand_truncated (collect_at h primary i cs))"
  by (auto simp: collect_at_def add_secondary_after_anchor_candidate_def split: option.splits)

lemma collect_range_mono:
  "set (cand_slots cs) \<subseteq> set (cand_slots (collect_secondary_after_anchor_candidates_in_range h primary i l cs)) \<and>
   (cand_truncated cs \<longrightarrow> cand_truncated (collect_secondary_after_anchor_candidates_in_range h primary i l cs))"
proof (induction h primary i l cs rule: collect_secondary_after_anchor_candidates_in_range.induct)
  case (1 h primary i l cs)
  show ?case
  proof (cases "i \<le> l \<and> i \<noteq> - 1")
    case True
    with "1.IH" [OF _ refl] collect_at_mono [of cs h primary i] show ?thesis
      by (subst (1 2) collect_secondary_after_anchor_candidates_in_range.simps) (auto simp: Let_def)
  next
    case False
    with collect_at_mono [of cs h primary i] show ?thesis
      by (subst (1 2) collect_secondary_after_anchor_candidates_in_range.simps) (auto simp: Let_def)
  qed
qed

lemma collect_range_complete:
  assumes "i \<le> j" and "j \<le> l" and "packet_history_find_index h j = Some s"
    and "records_exact_non_error_match primary (hist_at h s)"
  shows "s \<in> set (cand_slots (collect_secondary_after_anchor_candidates_in_range h primary i l cs)) \<or>
         cand_truncated (collect_secondary_after_anchor_candidates_in_range h primary i l cs)"
  using assms
proof (induction h primary i l cs rule: collect_secondary_after_anchor_candidates_in_range.induct)
  case (1 h primary i l cs)
  let ?cs = "collect_at h primary i cs"
  let ?rest = "collect_secondary_after_anchor_candidates_in_range h primary (i + 1) l ?cs"
  have il: "i \<le> l" using "1.prems"(1,2) by simp
  have eq: "collect_secondary_after_anchor_candidates_in_range h primary i l cs =
      (if i = - 1 then ?cs else ?rest)"
    using il by (subst collect_secondary_after_anchor_candidates_in_range.simps) (simp add: Let_def)
  show ?case
  proof (cases "i = j")
    case True
    have "s \<in> set (cand_slots ?cs) \<or> cand_truncated ?cs"
      using True "1.prems"(3,4) by (auto simp: collect_at_def add_secondary_after_anchor_candidate_def)
    then show ?thesis unfolding eq using collect_range_mono [of ?cs h primary "i + 1" l] by auto
  next
    case False
    with "1.prems"(1) have ij: "i < j" by simp
    then have ne: "i \<noteq> - 1" by (auto dest: leD)
    have "i + 1 \<le> j" using ij by (simp add: unat_inc_less word_le_nat_alt word_less_nat_alt)
    from "1.IH" [OF il refl ne this "1.prems"(2,3,4)] ne show ?thesis unfolding eq by simp
  qed
qed

lemma hist_find_slot: "packet_history_find_index h i = Some s \<Longrightarrow> hist_find h i = Some (hist_at h s)"
  by (simp add: hist_find_def)

end
