(* ===== verification/Gap_Validation.thy ===== *)
theory Gap_Validation
  imports Candidates
begin

text \<open>
  The three validators (src/src/recovery_engine.c lines 963 to 1142 and 1453 to 1716): given a
  primary packet and a secondary record equal to it, may the packets the secondary has in
  between be inserted? They only read the engine. Loops over stream indices are functions of
  the loop counter at its 64-bit width.
\<close>

record recovery_candidate_validation =
  val_valid :: bool
  val_reject_reason :: recovery_reject_reason
  val_reason :: "string option"
  val_missing_packets :: u64
  val_has_missing_count :: bool

definition reject_with ::
    "recovery_candidate_validation \<Rightarrow> recovery_reject_reason \<Rightarrow> string \<Rightarrow> recovery_candidate_validation" where
  "reject_with v rr reason = v\<lparr>val_reject_reason := rr, val_reason := Some reason\<rparr>"

definition fresh_validation :: "string \<Rightarrow> recovery_candidate_validation" where
  "fresh_validation reason = \<lparr>val_valid = False,
     val_reject_reason = RECOVERY_REJECT_MISSING_CANDIDATE, val_reason = Some reason,
     val_missing_packets = 0, val_has_missing_count = False\<rparr>"

section \<open>Shared loops and guards\<close>

text \<open>The packets since the anchor on each input: \<open>primary_between\<close> and \<open>secondary_between\<close>.\<close>

definition primary_between :: "'s recovery_engine \<Rightarrow> packet_record \<Rightarrow> u64" where
  "primary_between e primary = stream_index primary - primary_index (last_primary_anchor e) - 1"

definition secondary_between :: "'s recovery_engine \<Rightarrow> packet_record \<Rightarrow> u64" where
  "secondary_between e sm = stream_index sm - secondary_index (last_primary_anchor e) - 1"

text \<open>The early returns every validator and every recovery starts with.\<close>

definition gap_shape :: "'s recovery_engine \<Rightarrow> packet_record \<Rightarrow> packet_record option \<Rightarrow> bool" where
  "gap_shape e primary secondary_match \<longleftrightarrow>
     \<not> (is_null primary \<or> transport_error primary \<or> discontinuity_indicator primary \<or>
        \<not> anchor_valid (last_primary_anchor e)) \<and>
     (case secondary_match of
        None \<Rightarrow> False
      | Some sm \<Rightarrow>
          \<not> (stream_index sm \<le> secondary_index (last_primary_anchor e) \<or>
             stream_index primary \<le> primary_index (last_primary_anchor e)))"

text \<open>The packets between the anchors agree pairwise: the prefix loops.\<close>

function prefix_matches_from :: "'s recovery_engine \<Rightarrow> u64 \<Rightarrow> u64 \<Rightarrow> bool" where
  "prefix_matches_from e i n =
     (if i < n then
        (case (hist_find (history e 0) (primary_index (last_primary_anchor e) + 1 + i),
               hist_find (history e 1) (secondary_index (last_primary_anchor e) + 1 + i)) of
           (Some a, Some b) \<Rightarrow>
             if \<not> records_exact_non_error_match a b then False else prefix_matches_from e (i + 1) n
         | _ \<Rightarrow> False)
      else True)"
  by pat_completeness auto
termination
  by (relation "measure (\<lambda>(e, i, n). unat n - unat i)") (simp_all add: word_loop_measure)

declare prefix_matches_from.simps [simp del]

definition before_anchor_holds :: "'s recovery_engine \<Rightarrow> bool" where
  "before_anchor_holds e \<longleftrightarrow>
     records_are_non_null_exact_anchor
       (hist_find (history e 0) (primary_index (last_primary_anchor e)))
       (hist_find (history e 1) (secondary_index (last_primary_anchor e)))"

definition after_anchor_holds :: "packet_record \<Rightarrow> packet_record \<Rightarrow> bool" where
  "after_anchor_holds primary sm \<longleftrightarrow>
     \<not> (is_null primary \<or> is_null sm \<or> \<not> records_exact_non_error_match primary sm)"

section \<open>Exact content gaps\<close>

text \<open>
  Lines 1000 to 1010: the number of lost packets of the PID from its continuity counter, or
  from the stream positions when the counter has come round.
\<close>

definition cc_missing_count :: "'s recovery_engine \<Rightarrow> packet_record \<Rightarrow> u64 \<Rightarrow> u64 option" where
  "cc_missing_count e primary missing_packets =
     (case previous_output_cc_for_record e primary of
        None \<Rightarrow> None
      | Some previous_cc \<Rightarrow>
          (case infer_missing_from_cc previous_cc primary of
             Some n \<Rightarrow> Some n
           | None \<Rightarrow>
               if has_payload primary \<and> 0 < missing_packets \<and> missing_packets \<le> 15 \<and>
                  continuity_counter primary = ucast ((ucast previous_cc + missing_packets + 1) AND 0x0f)
               then Some missing_packets else None))"

text \<open>Lines 1068 to 1083: the only record of the PID with the expected counter.\<close>

function scan_candidate ::
    "packet_history \<Rightarrow> u16 \<Rightarrow> u8 \<Rightarrow> u64 \<Rightarrow> u64 \<Rightarrow> packet_record option \<Rightarrow> unit + packet_record option" where
  "scan_candidate h p expected_cc index last_index candidate =
     (if index < last_index then
        (case hist_find h index of
           None \<Rightarrow> scan_candidate h p expected_cc (index + 1) last_index candidate
         | Some possible \<Rightarrow>
             if \<not> is_null possible \<and> has_payload possible \<and> pid possible = p \<and>
                continuity_counter possible = expected_cc
             then (if candidate \<noteq> None then Inl ()
                   else scan_candidate h p expected_cc (index + 1) last_index (Some possible))
             else scan_candidate h p expected_cc (index + 1) last_index candidate)
      else Inr candidate)"
  by pat_completeness auto
termination
  by (relation "measure (\<lambda>(h, p, cc, i, l, c). unat l - unat i)") (simp_all add: word_loop_measure)

declare scan_candidate.simps [simp del]

text \<open>
  Lines 1063 to 1122, one round: the record to insert for the \<open>k\<close>-th lost packet, or the
  reason to give up and whether a candidate was there.
\<close>

definition expected_missing_cc :: "u8 \<Rightarrow> u64 \<Rightarrow> u8" where
  "expected_missing_cc previous_cc k = ucast ((ucast previous_cc + 1 + k) AND 0x0f)"

type_synonym pick_reject = "recovery_reject_reason \<times> string \<times> bool"

definition pick_exact_candidate ::
    "'s recovery_engine \<Rightarrow> packet_record \<Rightarrow> packet_record \<Rightarrow> u64 \<Rightarrow> u8 \<Rightarrow> u64 \<Rightarrow> u64
     \<Rightarrow> pick_reject + packet_record" where
  "pick_exact_candidate e primary sm missing_packets previous_cc candidate_first_index k =
     (case scan_candidate (history e 1) (pid primary) (expected_missing_cc previous_cc k)
             candidate_first_index (stream_index sm) None of
        Inl _ \<Rightarrow> Inl (RECOVERY_REJECT_AMBIGUOUS, ''multiple_candidates'', True)
      | Inr found \<Rightarrow>
          let candidate =
                (if found = None \<and> missing_packets = 1
                 then hist_find (history e 1)
                        (if primary_between e primary = 0
                         then secondary_index (last_primary_anchor e) + 1
                         else stream_index sm - 1)
                 else found)
          in case candidate of
               None \<Rightarrow> Inl (RECOVERY_REJECT_MISSING_CANDIDATE, ''missing_candidate'', False)
             | Some c \<Rightarrow>
                 if is_null c then Inl (RECOVERY_REJECT_WRONG_PID, ''null_candidate'', True)
                 else if transport_error c then Inl (RECOVERY_REJECT_TEI, ''secondary_tei'', True)
                 else if discontinuity_indicator c
                 then Inl (RECOVERY_REJECT_DISCONTINUITY, ''secondary_discontinuity'', True)
                 else if pid c \<noteq> pid primary then Inl (RECOVERY_REJECT_WRONG_PID, ''wrong_pid'', True)
                 else if \<not> has_payload c \<or> continuity_counter c \<noteq> expected_missing_cc previous_cc k
                 then Inl (RECOVERY_REJECT_WRONG_COUNTER, ''wrong_counter'', True)
                 else Inr c)"

function pick_exact_candidates ::
    "'s recovery_engine \<Rightarrow> packet_record \<Rightarrow> packet_record \<Rightarrow> u64 \<Rightarrow> u8 \<Rightarrow> u64 \<Rightarrow> u64 \<Rightarrow> u64
     \<Rightarrow> pick_reject + packet_record list" where
  "pick_exact_candidates e primary sm missing_packets previous_cc first_index k n =
     (if k < n then
        (case pick_exact_candidate e primary sm missing_packets previous_cc first_index k of
           Inl r \<Rightarrow> Inl r
         | Inr c \<Rightarrow>
             (case pick_exact_candidates e primary sm missing_packets previous_cc first_index (k + 1) n of
                Inl r \<Rightarrow> Inl r
              | Inr cs \<Rightarrow> Inr (c # cs)))
      else Inr [])"
  by pat_completeness auto
termination
  by (relation "measure (\<lambda>(e, p, sm, m, cc, f, k, n). unat n - unat k)")
    (simp_all add: word_loop_measure)

declare pick_exact_candidates.simps [simp del]

text \<open>Lines 1041 to 1061: skip the prefix both inputs share.\<close>

definition exact_first_index :: "'s recovery_engine \<Rightarrow> packet_record \<Rightarrow> packet_record \<Rightarrow> u64" where
  "exact_first_index e primary sm =
     (let first = secondary_index (last_primary_anchor e) + 1
      in if 0 < primary_between e primary \<and> primary_between e primary < secondary_between e sm \<and>
            prefix_matches_from e 0 (primary_between e primary)
         then first + primary_between e primary else first)"

text \<open>The counters of the records, one after the other, continue the output.\<close>

primrec states_after ::
    "(u16 \<Rightarrow> output_pid_state) \<Rightarrow> packet_record list \<Rightarrow> (u16 \<Rightarrow> output_pid_state) option" where
  "states_after states [] = Some states"
| "states_after states (r # rs) =
     (if \<not> record_fits_output_states states r then None
      else states_after (observe_output_states states r) rs)"

definition validate_exact_content_candidate ::
    "'s recovery_engine \<Rightarrow> packet_record \<Rightarrow> packet_record option \<Rightarrow> recovery_candidate_validation" where
  "validate_exact_content_candidate e primary secondary_match =
     (let result = fresh_validation ''not_content_gap''
      in if \<not> gap_shape e primary secondary_match then result
         else
           let sm = the secondary_match;
               pb = primary_between e primary;
               sb = secondary_between e sm
           in if sb < pb then result
              else if record_fits_next_output e primary then result
              else
                (case cc_missing_count e primary (sb - pb) of
                   None \<Rightarrow> result
                 | Some n \<Rightarrow>
                     let result = result\<lparr>val_missing_packets := n, val_has_missing_count := True\<rparr>;
                         previous_cc = the (previous_output_cc_for_record e primary)
                     in if n = 0 then result
                        else if ucast (max_content_burst_packets (config e)) < n
                        then reject_with result RECOVERY_REJECT_BURST_TOO_LARGE ''burst_too_large''
                        else if confidence (alignment e) < min_alignment_confidence (config e)
                        then reject_with result RECOVERY_REJECT_LOW_ALIGNMENT ''low_alignment''
                        else if \<not> before_anchor_holds e
                        then reject_with result RECOVERY_REJECT_AMBIGUOUS ''before_anchor''
                        else if \<not> after_anchor_holds primary sm
                        then reject_with result RECOVERY_REJECT_AMBIGUOUS ''after_anchor''
                        else
                          (case pick_exact_candidates e primary sm (sb - pb) previous_cc
                                  (exact_first_index e primary sm) 0 n of
                             Inl (rr, reason, _) \<Rightarrow> reject_with result rr reason
                           | Inr cs \<Rightarrow>
                               (case states_after (output_pid_state e) cs of
                                  None \<Rightarrow> reject_with result RECOVERY_REJECT_WRONG_COUNTER
                                            ''secondary_wrong_counter''
                                | Some states \<Rightarrow>
                                    if \<not> record_fits_output_states states primary
                                    then reject_with result RECOVERY_REJECT_WRONG_COUNTER
                                           ''after_anchor_wrong_counter''
                                    else result\<lparr>val_valid := True, val_reason := None\<rparr>))))"

section \<open>Null gaps\<close>

text \<open>
  Lines 1491 to 1504: are the first \<open>n\<close> missing records null packets? \<open>Inl\<close> carries the
  reason to stop: a record that is not kept, or one that is not null.
\<close>

datatype null_scan = Scan_Missing | Scan_Content | Scan_All_Null

function scan_nulls :: "packet_history \<Rightarrow> u64 \<Rightarrow> u64 \<Rightarrow> u64 \<Rightarrow> null_scan" where
  "scan_nulls h first_index i n =
     (if i < n then
        (case hist_find h (first_index + i) of
           None \<Rightarrow> Scan_Missing
         | Some c \<Rightarrow> if \<not> is_null c then Scan_Content else scan_nulls h first_index (i + 1) n)
      else Scan_All_Null)"
  by pat_completeness auto
termination
  by (relation "measure (\<lambda>(h, f, i, n). unat n - unat i)") (simp_all add: word_loop_measure)

declare scan_nulls.simps [simp del]

text \<open>
  Lines 1544 to 1567: every missing record is a clean null packet. \<open>Inl None\<close> is the plain
  "not a null gap"; \<open>Inl (Some r)\<close> a definite reason.
\<close>

function check_nulls :: "packet_history \<Rightarrow> u64 \<Rightarrow> u64 \<Rightarrow> u64 \<Rightarrow> pick_reject option + unit" where
  "check_nulls h first_index i n =
     (if i < n then
        (case hist_find h (first_index + i) of
           None \<Rightarrow> Inl (Some (RECOVERY_REJECT_MISSING_CANDIDATE, ''missing_candidate'', False))
         | Some c \<Rightarrow>
             if \<not> is_null c then Inl None
             else if transport_error c then Inl (Some (RECOVERY_REJECT_TEI, ''secondary_tei'', True))
             else if discontinuity_indicator c
             then Inl (Some (RECOVERY_REJECT_DISCONTINUITY, ''secondary_discontinuity'', True))
             else check_nulls h first_index (i + 1) n)
      else Inr ())"
  by pat_completeness auto
termination
  by (relation "measure (\<lambda>(h, f, i, n). unat n - unat i)") (simp_all add: word_loop_measure)

declare check_nulls.simps [simp del]

definition validate_null_position_candidate ::
    "'s recovery_engine \<Rightarrow> packet_record \<Rightarrow> packet_record option \<Rightarrow> recovery_candidate_validation" where
  "validate_null_position_candidate e primary secondary_match =
     (let result = fresh_validation ''not_null_position_gap''
      in if \<not> gap_shape e primary secondary_match then result
         else
           let sm = the secondary_match;
               pb = primary_between e primary;
               sb = secondary_between e sm
           in if sb \<le> pb then result
              else
                let missing_packets = sb - pb;
                    result = result\<lparr>val_missing_packets := missing_packets, val_has_missing_count := True\<rparr>;
                    burst = (ucast (max_content_burst_packets (config e)) :: u64);
                    first_index = secondary_index (last_primary_anchor e) + pb + 1
                in if missing_packets = 0 then result
                   else if burst < missing_packets then
                     (case scan_nulls (history e 1) first_index 0 (burst + 1) of
                        Scan_Missing \<Rightarrow> reject_with result RECOVERY_REJECT_MISSING_CANDIDATE ''missing_candidate''
                      | Scan_Content \<Rightarrow> result
                      | Scan_All_Null \<Rightarrow> reject_with result RECOVERY_REJECT_BURST_TOO_LARGE ''null_burst_too_large'')
                   else if confidence (alignment e) < min_alignment_confidence (config e)
                   then reject_with result RECOVERY_REJECT_LOW_ALIGNMENT ''low_alignment''
                   else if \<not> before_anchor_holds e
                   then reject_with result RECOVERY_REJECT_AMBIGUOUS ''before_anchor''
                   else if \<not> after_anchor_holds primary sm
                   then reject_with result RECOVERY_REJECT_AMBIGUOUS ''after_anchor''
                   else if \<not> prefix_matches_from e 0 pb
                   then reject_with result RECOVERY_REJECT_AMBIGUOUS ''stale_anchor_prefix''
                   else
                     (case check_nulls (history e 1) first_index 0 missing_packets of
                        Inl None \<Rightarrow> result
                      | Inl (Some (rr, reason, _)) \<Rightarrow> reject_with result rr reason
                      | Inr _ \<Rightarrow> result\<lparr>val_valid := True,
                                   val_reject_reason := RECOVERY_REJECT_MISSING_CANDIDATE,
                                   val_reason := None\<rparr>))"

section \<open>Mixed gaps\<close>

text \<open>
  Lines 1653 to 1681: the missing records, checked one after the other against the evolving
  output counters. The result is the states after them and the records.
\<close>

function check_mixed ::
    "packet_history \<Rightarrow> u64 \<Rightarrow> (u16 \<Rightarrow> output_pid_state) \<Rightarrow> u64 \<Rightarrow> u64
     \<Rightarrow> pick_reject + (u16 \<Rightarrow> output_pid_state) \<times> packet_record list" where
  "check_mixed h first_index states i n =
     (if i < n then
        (case hist_find h (first_index + i) of
           None \<Rightarrow> Inl (RECOVERY_REJECT_MISSING_CANDIDATE, ''missing_candidate'', False)
         | Some c \<Rightarrow>
             if transport_error c then Inl (RECOVERY_REJECT_TEI, ''secondary_tei'', True)
             else if discontinuity_indicator c
             then Inl (RECOVERY_REJECT_DISCONTINUITY, ''secondary_discontinuity'', True)
             else if \<not> record_fits_output_states states c
             then Inl (RECOVERY_REJECT_WRONG_COUNTER, ''candidate_counter_contradiction'', True)
             else
               (case check_mixed h first_index (observe_output_states states c) (i + 1) n of
                  Inl r \<Rightarrow> Inl r
                | Inr (states', cs) \<Rightarrow> Inr (states', c # cs)))
      else Inr (states, []))"
  by pat_completeness auto
termination
  by (relation "measure (\<lambda>(h, f, s, i, n). unat n - unat i)") (simp_all add: word_loop_measure)

declare check_mixed.simps [simp del]

text \<open>Lines 1687 to 1709: why the primary packet still does not fit.\<close>

function count_pid :: "packet_history \<Rightarrow> u16 \<Rightarrow> u64 \<Rightarrow> u64 \<Rightarrow> u64 \<Rightarrow> u64 \<Rightarrow> u64" where
  "count_pid h p first_index i n acc =
     (if i < n then
        count_pid h p first_index (i + 1) n
          (case hist_find h (first_index + i) of
             None \<Rightarrow> acc
           | Some c \<Rightarrow> if \<not> is_null c \<and> pid c = p then acc + 1 else acc)
      else acc)"
  by pat_completeness auto
termination
  by (relation "measure (\<lambda>(h, p, f, i, n, acc). unat n - unat i)") (simp_all add: word_loop_measure)

declare count_pid.simps [simp del]

definition mixed_misfit ::
    "'s recovery_engine \<Rightarrow> packet_record \<Rightarrow> u64 \<Rightarrow> u64 \<Rightarrow> recovery_reject_reason \<times> string" where
  "mixed_misfit e primary first_index missing_packets =
     (case Option.bind (previous_output_cc_for_record e primary)
             (\<lambda>previous_cc. infer_missing_from_cc previous_cc primary) of
        Some n \<Rightarrow>
          if n \<le> missing_packets \<and>
             count_pid (history e 1) (pid primary) first_index 0 missing_packets 0 = 0
          then (RECOVERY_REJECT_WRONG_PID, ''wrong_pid'')
          else (RECOVERY_REJECT_WRONG_COUNTER, ''after_anchor_wrong_counter'')
      | None \<Rightarrow> (RECOVERY_REJECT_WRONG_COUNTER, ''after_anchor_wrong_counter''))"

definition validate_mixed_position_candidate ::
    "'s recovery_engine \<Rightarrow> packet_record \<Rightarrow> packet_record option \<Rightarrow> recovery_candidate_validation" where
  "validate_mixed_position_candidate e primary secondary_match =
     (let result = fresh_validation ''not_mixed_position_gap''
      in if \<not> gap_shape e primary secondary_match then result
         else
           let sm = the secondary_match;
               pb = primary_between e primary;
               sb = secondary_between e sm
           in if sb \<le> pb then result
              else
                let missing_packets = sb - pb;
                    result = result\<lparr>val_missing_packets := missing_packets, val_has_missing_count := True\<rparr>;
                    first_index = secondary_index (last_primary_anchor e) + pb + 1
                in if missing_packets = 0 then result
                   else if ucast (max_content_burst_packets (config e)) < missing_packets
                   then reject_with result RECOVERY_REJECT_BURST_TOO_LARGE ''mixed_burst_too_large''
                   else if confidence (alignment e) < min_alignment_confidence (config e)
                   then reject_with result RECOVERY_REJECT_LOW_ALIGNMENT ''low_alignment''
                   else if \<not> before_anchor_holds e
                   then reject_with result RECOVERY_REJECT_AMBIGUOUS ''before_anchor''
                   else if \<not> after_anchor_holds primary sm
                   then reject_with result RECOVERY_REJECT_AMBIGUOUS ''after_anchor''
                   else if \<not> prefix_matches_from e 0 pb
                   then reject_with result RECOVERY_REJECT_AMBIGUOUS ''stale_anchor_prefix''
                   else
                     (case check_mixed (history e 1) first_index (output_pid_state e) 0 missing_packets of
                        Inl (rr, reason, _) \<Rightarrow> reject_with result rr reason
                      | Inr (states, cs) \<Rightarrow>
                          if list_all is_null cs then result
                          else if \<not> record_fits_output_states states primary
                          then (case mixed_misfit e primary first_index missing_packets of
                                  (rr, reason) \<Rightarrow> reject_with result rr reason)
                          else result\<lparr>val_valid := True,
                                 val_reject_reason := RECOVERY_REJECT_MISSING_CANDIDATE,
                                 val_reason := None\<rparr>))"

end
