(* ===== verification/Output_Frame.thy ===== *)
theory Output_Frame
  imports Output_State
begin

text \<open>
  What sending leaves alone: \<open>outputs e e'\<close> says that the two engines differ only in the
  sink, the statistics, the clock readings and the memory of what was sent. Sending a record
  is such a step, and what it does to the output side is stated once here.
\<close>

definition outputs :: "'s recovery_engine \<Rightarrow> 's recovery_engine \<Rightarrow> bool" where
  "outputs e e' \<longleftrightarrow>
     config e' = config e \<and> history e' = history e \<and>
     primary_queue e' = primary_queue e \<and> secondary_queue e' = secondary_queue e \<and>
     pcr_model e' = pcr_model e \<and> next_stream_index e' = next_stream_index e \<and>
     last_input_arrival_ns e' = last_input_arrival_ns e \<and>
     eng_active_output_stream_id e' = eng_active_output_stream_id e \<and>
     primary_return_start_ns e' = primary_return_start_ns e \<and>
     alignment e' = alignment e \<and> last_primary_anchor e' = last_primary_anchor e \<and>
     primary_gap e' = primary_gap e \<and> input_pid_state e' = input_pid_state e \<and>
     decision_candidate_count e' = decision_candidate_count e \<and>
     decision_candidates_truncated e' = decision_candidates_truncated e \<and>
     same_env (world e) (world e') \<and> same_status (stats e) (stats e')"

lemma outputs_refl [simp, intro]: "outputs e e"
  by (simp add: outputs_def)

lemma outputs_trans [trans]: "outputs a b \<Longrightarrow> outputs b c \<Longrightarrow> outputs a c"
  by (auto simp: outputs_def intro: same_env_trans same_status_trans)

lemma quiet_outputs: "quiet a b \<Longrightarrow> outputs a b"
  by (simp add: outputs_def quietD quietD_env)

lemma outputsD:
  assumes "outputs e e'"
  shows "config e' = config e" "history e' = history e"
    "primary_queue e' = primary_queue e" "secondary_queue e' = secondary_queue e"
    "pcr_model e' = pcr_model e" "next_stream_index e' = next_stream_index e"
    "last_input_arrival_ns e' = last_input_arrival_ns e"
    "eng_active_output_stream_id e' = eng_active_output_stream_id e"
    "primary_return_start_ns e' = primary_return_start_ns e"
    "alignment e' = alignment e" "last_primary_anchor e' = last_primary_anchor e"
    "primary_gap e' = primary_gap e" "input_pid_state e' = input_pid_state e"
    "decision_candidate_count e' = decision_candidate_count e"
    "decision_candidates_truncated e' = decision_candidates_truncated e"
    "same_env (world e) (world e')" "same_status (stats e) (stats e')"
  using assms by (simp_all add: outputs_def)

lemma read_now_outputs [simp]: "outputs e (snd (read_now_ns e))"
  by (rule quiet_outputs) simp

lemma read_now_frame [simp]:
  "read_now_ns e = (t, e') \<Longrightarrow> outputs e e'"
  using read_now_outputs [of e] by simp

lemma observe_output_record_outputs: "outputs e (observe_output_record e r)"
  by (simp add: observe_output_record_def Let_def outputs_def)

lemma output_record_outputs:
  assumes "output_record e r = (rc, e')"
  shows "outputs e e'"
proof -
  obtain c snk where send: "packet_sink_send_ts_packet (sink e) (packet r) = (c, snk)" by fastforce
  have obs: "outputs e (observe_output_record x r)" if "outputs e x" for x
    using that observe_output_record_outputs outputs_trans by blast
  have "outputs e (snd (output_record e r))"
    unfolding output_record_def send prod.case Let_def if_distrib [of snd] snd_conv
    by (auto intro!: obs) (simp_all add: outputs_def)
  with assms show ?thesis by simp
qed

lemma set_active_frame [simp]:
  "config (set_active_output_stream e i) = config e"
  "history (set_active_output_stream e i) = history e"
  "primary_queue (set_active_output_stream e i) = primary_queue e"
  "secondary_queue (set_active_output_stream e i) = secondary_queue e"
  "alignment (set_active_output_stream e i) = alignment e"
  "last_primary_anchor (set_active_output_stream e i) = last_primary_anchor e"
  "output_pid_state (set_active_output_stream e i) = output_pid_state e"
  "sink (set_active_output_stream e i) = sink e"
  "world (set_active_output_stream e i) = world e"
  "last_input_arrival_ns (set_active_output_stream e i) = last_input_arrival_ns e"
  "next_stream_index (set_active_output_stream e i) = next_stream_index e"
  "primary_return_start_ns (set_active_output_stream e i) = primary_return_start_ns e"
  "has_output_stream_index (set_active_output_stream e i) = has_output_stream_index e"
  "last_output_stream_index (set_active_output_stream e i) = last_output_stream_index e"
  by (simp_all add: set_active_output_stream_def)

section \<open>What is sent\<close>

text \<open>
  \<open>sends e ps rc e'\<close>: the engine's sink was given the packets \<open>ps\<close>, one after the other up
  to the first failure, and \<open>rc\<close> is 0 or the failure.
\<close>

definition sends :: "'s recovery_engine \<Rightarrow> bytes list \<Rightarrow> int \<Rightarrow> 's recovery_engine \<Rightarrow> bool" where
  "sends e ps rc e' \<longleftrightarrow>
     send_fn (sink e') = send_fn (sink e) \<and> flush_fn (sink e') = flush_fn (sink e) \<and>
     send_list (send_fn (sink e)) (sink_ctx (sink e)) ps = (rc, sink_ctx (sink e'))"

lemma send_list_append:
  "send_list f s (ps @ qs) =
     (case send_list f s ps of (r, s') \<Rightarrow> if r \<noteq> 0 then (-1, s') else send_list f s' qs)"
  by (induction ps arbitrary: s) (auto split: prod.splits)

lemma send_list_result: "send_list f s ps = (r, s') \<Longrightarrow> r = 0 \<or> r = -1"
  by (induction ps arbitrary: s) (auto split: prod.splits if_splits)

lemma sends_nil [simp]: "sends e [] 0 e"
  by (simp add: sends_def)

lemma sends_nilI: "sink e' = sink e \<Longrightarrow> sends e [] 0 e'"
  by (simp add: sends_def)

lemma sends_append: "sends e ps 0 e1 \<Longrightarrow> sends e1 qs rc e2 \<Longrightarrow> sends e (ps @ qs) rc e2"
  by (simp add: sends_def send_list_append)

lemma sends_Cons: "sends e [p] 0 e1 \<Longrightarrow> sends e1 qs rc e2 \<Longrightarrow> sends e (p # qs) rc e2"
  using sends_append by fastforce

lemma sends_failed: "sends e ps (-1) e1 \<Longrightarrow> sends e (ps @ qs) (-1) e1"
  by (simp add: sends_def send_list_append)

lemma sends_sink_eq: "sends e ps rc e1 \<Longrightarrow> sink e0 = sink e \<Longrightarrow> sink e2 = sink e1 \<Longrightarrow> sends e0 ps rc e2"
  by (simp add: sends_def)

lemma sends_result: "sends e ps rc e' \<Longrightarrow> rc = 0 \<or> rc = -1"
  by (auto simp: sends_def dest: send_list_result)

lemma output_record_sends:
  assumes "output_record e r = (rc, e')"
  shows "sends e [packet r] rc e'"
proof -
  have obs: "sink (observe_output_record x r) = sink x" for x :: "'a recovery_engine"
    by (simp add: observe_output_record_def Let_def)
  obtain c s where send: "send_fn (sink e) (sink_ctx (sink e)) (packet r) = (c, s)" by fastforce
  show ?thesis
    using assms
    by (auto simp: output_record_def packet_sink_send_ts_packet_def send sends_def Let_def obs
        split: if_splits)
qed

text \<open>
  A record that fits the output states continues them: sending it counts neither a
  continuity error nor a duplicate on the output.
\<close>

lemma next_cc_differs [simp]: "(x + 1) AND (15 :: u8) \<noteq> x" "x \<noteq> (x + 1) AND (15 :: u8)"
proof -
  have "unat ((x + 1) AND (15 :: u8)) = ((unat x + 1) mod 256) mod 16"
    by (simp add: unat_and_15 unat_word_ariths)
  then have "even (unat ((x + 1) AND (15 :: u8))) \<longleftrightarrow> odd (unat x)"
    by (simp add: dvd_mod_iff)
  then show "(x + 1) AND (15 :: u8) \<noteq> x" "x \<noteq> (x + 1) AND (15 :: u8)" by metis+
qed

definition clean_output :: "'s recovery_engine \<Rightarrow> 's recovery_engine \<Rightarrow> bool" where
  "clean_output e e' \<longleftrightarrow>
     output_continuity_errors (stats e') = output_continuity_errors (stats e) \<and>
     output_duplicate_counters (stats e') = output_duplicate_counters (stats e)"

lemma clean_output_refl [simp]: "clean_output e e"
  by (simp add: clean_output_def)

lemma clean_output_trans [trans]: "clean_output a b \<Longrightarrow> clean_output b c \<Longrightarrow> clean_output a c"
  by (simp add: clean_output_def)

lemma observe_output_record_fit:
  assumes "record_fits_next_output e r"
  shows "output_pid_state (observe_output_record e r) = observe_output_states (output_pid_state e) r"
    and "clean_output e (observe_output_record e r)"
  using assms
  by (auto simp: observe_output_record_def observe_output_states_def record_fits_next_output_def
      record_fits_output_states_def clean_output_def Let_def split: if_splits)

lemma output_record_fit:
  assumes "output_record e r = (rc, e')" and "record_fits_next_output e r"
  shows "clean_output e e'"
    and "rc = 0 \<Longrightarrow> output_pid_state e' = observe_output_states (output_pid_state e) r"
    and "rc \<noteq> 0 \<Longrightarrow> output_pid_state e' = output_pid_state e"
proof -
  obtain c s where send: "packet_sink_send_ts_packet (sink e) (packet r) = (c, s)" by fastforce
  have fit: "record_fits_next_output x r \<Longrightarrow> output_pid_state x = output_pid_state e \<Longrightarrow>
      clean_output e x \<Longrightarrow>
      output_pid_state (observe_output_record x r) = observe_output_states (output_pid_state e) r \<and>
      clean_output e (observe_output_record x r)" for x
    using observe_output_record_fit [of x r] clean_output_trans by metis
  have "rc = (if c = 0 then 0 else - 1) \<and> clean_output e e' \<and>
      output_pid_state e' = (if c = 0 then observe_output_states (output_pid_state e) r else output_pid_state e)"
    using assms(1) fit assms(2)
    by (auto simp: output_record_def send Let_def clean_output_def record_fits_next_output_def
        report_stats_observe_output_datagram_def split: if_splits)
  then show "clean_output e e'"
    and "rc = 0 \<Longrightarrow> output_pid_state e' = observe_output_states (output_pid_state e) r"
    and "rc \<noteq> 0 \<Longrightarrow> output_pid_state e' = output_pid_state e" by (auto split: if_splits)
qed

end
