(* ===== verification/Gap_Recovery.thy ===== *)
theory Gap_Recovery
  imports Gap_Validation Output_Frame
begin

text \<open>
  The recoveries (src/src/recovery_engine.c lines 1144 to 1451 and 1718 to 2019): each checks
  the gap again, logs a rejection or the decision, and sends the missing packets. They return
  0 (nothing to do), 1 (packets inserted), 2 (rejected and logged) or -1 (the sink failed).
\<close>

abbreviation (input) "RECOVERY_DECISION_NONE \<equiv> (0 :: int)"
abbreviation (input) "RECOVERY_DECISION_INSERTED \<equiv> (1 :: int)"
abbreviation (input) "RECOVERY_DECISION_REJECTED \<equiv> (2 :: int)"

section \<open>Shared parts\<close>

text \<open>
  The calls of \<open>recovery_reject_log\<close> and \<open>recovery_decision_log\<close> of this file: the previous
  counter is the one of \<open>previous_output_cc_for_record\<close>, 0 when there is none.
\<close>

definition reject_gap ::
    "'s recovery_engine \<Rightarrow> packet_record \<Rightarrow> u64 \<Rightarrow> bool \<Rightarrow> bool \<Rightarrow> bool \<Rightarrow> recovery_reject_reason \<Rightarrow> string
     \<Rightarrow> int \<times> 's recovery_engine" where
  "reject_gap e primary missing candidate_available before_anchor after_anchor rr reason =
     (let prev = previous_output_cc_for_record e primary
      in (RECOVERY_DECISION_REJECTED,
          recovery_reject_log e primary (case prev of None \<Rightarrow> 0 | Some cc \<Rightarrow> cc) (prev \<noteq> None)
            missing True candidate_available before_anchor after_anchor rr (Some reason)))"

definition log_recovery ::
    "'s recovery_engine \<Rightarrow> packet_record \<Rightarrow> u64 \<Rightarrow> string \<Rightarrow> 's recovery_engine" where
  "log_recovery e primary missing decision_name =
     (let prev = previous_output_cc_for_record e primary
      in recovery_decision_log e 0 primary (case prev of None \<Rightarrow> 0 | Some cc \<Rightarrow> cc) (prev \<noteq> None)
           missing True True True True decision_name None)"

text \<open>One inserted packet: \<open>output_record\<close>, then \<open>report_stats_observe_recovery\<close>.\<close>

definition insert_record ::
    "'s recovery_engine \<Rightarrow> packet_record \<Rightarrow> bool \<Rightarrow> int \<times> 's recovery_engine" where
  "insert_record e r is_null_packet =
     (case output_record e r of (rc, e) \<Rightarrow>
        if rc \<noteq> 0 then (-1, e)
        else
          (case read_wall_time e of (now, e) \<Rightarrow>
             (0, e\<lparr>stats := report_stats_observe_recovery (stats e) is_null_packet now\<rparr>)))"

text \<open>The insertion loop over the collected pointers (lines 1341 to 1346).\<close>

primrec insert_records :: "'s recovery_engine \<Rightarrow> packet_record list \<Rightarrow> int \<times> 's recovery_engine" where
  "insert_records e [] = (0, e)"
| "insert_records e (r # rs) =
     (case insert_record e r False of (rc, e) \<Rightarrow> if rc \<noteq> 0 then (-1, e) else insert_records e rs)"

text \<open>
  The insertion loop that looks each record up again (lines 1883 to 1891 and 2009 to 2017);
  \<open>flag\<close> is the second argument of \<open>report_stats_observe_recovery\<close>.
\<close>

function insert_range ::
    "(packet_record \<Rightarrow> bool) \<Rightarrow> 's recovery_engine \<Rightarrow> u64 \<Rightarrow> u64 \<Rightarrow> u64 \<Rightarrow> int \<times> 's recovery_engine" where
  "insert_range flag e first_index i n =
     (if i < n then
        (case hist_find (history e 1) (first_index + i) of
           None \<Rightarrow> (-1, e)
         | Some c \<Rightarrow>
             (case insert_record e c (flag c) of (rc, e) \<Rightarrow>
                if rc \<noteq> 0 then (-1, e) else insert_range flag e first_index (i + 1) n))
      else (0, e))"
  by pat_completeness auto
termination
  by (relation "measure (\<lambda>(flag, e, f, i, n). unat n - unat i)") (simp_all add: word_loop_measure)

declare insert_range.simps [simp del]

text \<open>The burst counter at the end of a recovery.\<close>

definition count_burst :: "'s recovery_engine \<Rightarrow> u64 \<Rightarrow> 's recovery_engine" where
  "count_burst e missing =
     (if 1 < missing
      then e\<lparr>stats := (stats e)\<lparr>recovered_content_bursts := recovered_content_bursts (stats e) + 1\<rparr>\<rparr>
      else e)"

section \<open>Exact content gaps\<close>

definition try_recover_exact_content_gap ::
    "'s recovery_engine \<Rightarrow> packet_record \<Rightarrow> packet_record option \<Rightarrow> int \<times> 's recovery_engine" where
  "try_recover_exact_content_gap e primary secondary_match =
     (if \<not> gap_shape e primary secondary_match then (RECOVERY_DECISION_NONE, e)
      else
        let sm = the secondary_match;
            pb = primary_between e primary;
            sb = secondary_between e sm
        in if sb < pb then (RECOVERY_DECISION_NONE, e)
           else if record_fits_next_output e primary then (RECOVERY_DECISION_NONE, e)
           else
             (case cc_missing_count e primary (sb - pb) of
                None \<Rightarrow> (RECOVERY_DECISION_NONE, e)
              | Some n \<Rightarrow>
                  let previous_cc = the (previous_output_cc_for_record e primary)
                  in if n = 0 then (RECOVERY_DECISION_NONE, e)
                     else if ucast (max_content_burst_packets (config e)) < n
                     then reject_gap e primary n True True True RECOVERY_REJECT_BURST_TOO_LARGE ''burst_too_large''
                     else if confidence (alignment e) < min_alignment_confidence (config e)
                     then reject_gap e primary n True True True RECOVERY_REJECT_LOW_ALIGNMENT ''low_alignment''
                     else if \<not> before_anchor_holds e
                     then reject_gap e primary n True False True RECOVERY_REJECT_AMBIGUOUS ''before_anchor''
                     else if \<not> after_anchor_holds primary sm
                     then reject_gap e primary n True True False RECOVERY_REJECT_AMBIGUOUS ''after_anchor''
                     else
                       (case pick_exact_candidates e primary sm (sb - pb) previous_cc
                               (exact_first_index e primary sm) 0 n of
                          Inl (rr, reason, found) \<Rightarrow> reject_gap e primary n found True True rr reason
                        | Inr cs \<Rightarrow>
                            (case states_after (output_pid_state e) cs of
                               None \<Rightarrow> reject_gap e primary n True True True
                                         RECOVERY_REJECT_WRONG_COUNTER ''secondary_wrong_counter''
                             | Some states \<Rightarrow>
                                 if \<not> record_fits_output_states states primary
                                 then reject_gap e primary n True True True
                                        RECOVERY_REJECT_WRONG_COUNTER ''after_anchor_wrong_counter''
                                 else
                                   let e = log_recovery e primary n
                                             (if 1 < n then ''recover_content_burst'' else ''recover_content'')
                                   in case insert_records e cs of (rc, e) \<Rightarrow>
                                        if rc \<noteq> 0 then (-1, e) else (1, count_burst e n)))))"

section \<open>A damaged primary packet\<close>

definition try_recover_primary_tei_packet ::
    "'s recovery_engine \<Rightarrow> packet_record \<Rightarrow> int \<times> 's recovery_engine" where
  "try_recover_primary_tei_packet e primary =
     (let av = anchor_valid (last_primary_anchor e)
      in if \<not> transport_error primary then (RECOVERY_DECISION_NONE, e)
         else if is_null primary \<or> \<not> has_payload primary \<or> discontinuity_indicator primary
         then reject_gap e primary 0 False av False
                (if discontinuity_indicator primary then RECOVERY_REJECT_DISCONTINUITY
                 else RECOVERY_REJECT_WRONG_PID)
                (if discontinuity_indicator primary then ''primary_discontinuity'' else ''primary_not_content'')
         else if confidence (alignment e) < min_alignment_confidence (config e)
         then reject_gap e primary 0 False av False RECOVERY_REJECT_LOW_ALIGNMENT ''low_alignment''
         else if \<not> before_anchor_holds e
         then reject_gap e primary 0 False False False RECOVERY_REJECT_AMBIGUOUS ''before_anchor''
         else
           (case find_aligned_secondary_record e primary of
              None \<Rightarrow> reject_gap e primary 0 False True False RECOVERY_REJECT_MISSING_CANDIDATE ''missing_candidate''
            | Some c \<Rightarrow>
                if transport_error c
                then reject_gap e primary 0 True True False RECOVERY_REJECT_TEI ''secondary_tei''
                else if discontinuity_indicator c
                then reject_gap e primary 0 True True False RECOVERY_REJECT_DISCONTINUITY ''secondary_discontinuity''
                else if is_null c \<or> \<not> has_payload c \<or> pid c \<noteq> pid primary
                then reject_gap e primary 0 True True False RECOVERY_REJECT_WRONG_PID ''wrong_pid''
                else if continuity_counter c \<noteq> continuity_counter primary
                then reject_gap e primary 0 True True False RECOVERY_REJECT_WRONG_COUNTER ''wrong_counter''
                else if \<not> records_are_non_null_exact_anchor
                          (hist_find (history e 0) (stream_index primary + 1))
                          (if stream_index c = - 1 then None
                           else hist_find (history e 1) (stream_index c + 1))
                then reject_gap e primary 0 True True False RECOVERY_REJECT_AMBIGUOUS ''no_after_anchor''
                else if \<not> record_fits_next_output e c
                then reject_gap e primary 0 True True True RECOVERY_REJECT_WRONG_COUNTER ''secondary_wrong_counter''
                else
                  (case insert_record (log_recovery e primary 0 ''recover_primary_tei'') c False of
                     (rc, e) \<Rightarrow> if rc \<noteq> 0 then (-1, e) else (1, e))))"

section \<open>Mixed gaps\<close>

text \<open>Lines 1869 to 1874: all missing packets are content of the primary packet's PID.\<close>

definition mixed_decision :: "packet_record \<Rightarrow> packet_record list \<Rightarrow> u64 \<Rightarrow> string" where
  "mixed_decision primary cs missing =
     (if \<not> list_ex is_null cs \<and> list_all (\<lambda>c. pid c = pid (hd cs)) cs \<and> pid primary = pid (hd cs)
      then (if 1 < missing then ''recover_content_burst'' else ''recover_content'')
      else ''recover_mixed_burst'')"

definition try_recover_mixed_position_gap ::
    "'s recovery_engine \<Rightarrow> packet_record \<Rightarrow> packet_record option \<Rightarrow> int \<times> 's recovery_engine" where
  "try_recover_mixed_position_gap e primary secondary_match =
     (if \<not> gap_shape e primary secondary_match then (RECOVERY_DECISION_NONE, e)
      else
        let sm = the secondary_match;
            pb = primary_between e primary;
            sb = secondary_between e sm;
            missing = sb - pb;
            first_index = secondary_index (last_primary_anchor e) + pb + 1
        in if sb \<le> pb \<or> missing = 0 then (RECOVERY_DECISION_NONE, e)
           else if ucast (max_content_burst_packets (config e)) < missing
           then reject_gap e primary missing True True True RECOVERY_REJECT_BURST_TOO_LARGE ''mixed_burst_too_large''
           else if confidence (alignment e) < min_alignment_confidence (config e)
           then reject_gap e primary missing True True True RECOVERY_REJECT_LOW_ALIGNMENT ''low_alignment''
           else if \<not> before_anchor_holds e
           then reject_gap e primary missing True False True RECOVERY_REJECT_AMBIGUOUS ''before_anchor''
           else if \<not> after_anchor_holds primary sm
           then reject_gap e primary missing True True False RECOVERY_REJECT_AMBIGUOUS ''after_anchor''
           else if \<not> prefix_matches_from e 0 pb then (RECOVERY_DECISION_NONE, e)
           else
             (case check_mixed (history e 1) first_index (output_pid_state e) 0 missing of
                Inl (rr, reason, found) \<Rightarrow> reject_gap e primary missing found True True rr reason
              | Inr (states, cs) \<Rightarrow>
                  if list_all is_null cs then (RECOVERY_DECISION_NONE, e)
                  else if \<not> record_fits_output_states states primary
                  then (case mixed_misfit e primary first_index missing of
                          (rr, reason) \<Rightarrow> reject_gap e primary missing True True True rr reason)
                  else
                    let e = log_recovery e primary missing (mixed_decision primary cs missing)
                    in case insert_range is_null e first_index 0 missing of (rc, e) \<Rightarrow>
                         if rc \<noteq> 0 then (-1, e) else (1, count_burst e missing)))"

section \<open>Null gaps\<close>

definition try_recover_null_position_gap ::
    "'s recovery_engine \<Rightarrow> packet_record \<Rightarrow> packet_record option \<Rightarrow> int \<times> 's recovery_engine" where
  "try_recover_null_position_gap e primary secondary_match =
     (if \<not> gap_shape e primary secondary_match then (RECOVERY_DECISION_NONE, e)
      else
        let sm = the secondary_match;
            pb = primary_between e primary;
            sb = secondary_between e sm;
            missing = sb - pb;
            burst = (ucast (max_content_burst_packets (config e)) :: u64);
            first_index = secondary_index (last_primary_anchor e) + 1
        in if sb \<le> pb then (RECOVERY_DECISION_NONE, e)
           else if pb \<noteq> 0 \<or> missing = 0 then (RECOVERY_DECISION_NONE, e)
           else if burst < missing then
             (case scan_nulls (history e 1) first_index 0 (burst + 1) of
                Scan_Missing \<Rightarrow> reject_gap e primary missing False True True
                                  RECOVERY_REJECT_MISSING_CANDIDATE ''missing_candidate''
              | Scan_Content \<Rightarrow> (RECOVERY_DECISION_NONE, e)
              | Scan_All_Null \<Rightarrow> reject_gap e primary missing True True True
                                   RECOVERY_REJECT_BURST_TOO_LARGE ''null_burst_too_large'')
           else if confidence (alignment e) < min_alignment_confidence (config e)
           then reject_gap e primary missing True True True RECOVERY_REJECT_LOW_ALIGNMENT ''low_alignment''
           else if \<not> before_anchor_holds e
           then reject_gap e primary missing True False True RECOVERY_REJECT_AMBIGUOUS ''before_anchor''
           else if \<not> after_anchor_holds primary sm
           then reject_gap e primary missing True True False RECOVERY_REJECT_AMBIGUOUS ''after_anchor''
           else
             (case check_nulls (history e 1) first_index 0 missing of
                Inl None \<Rightarrow> (RECOVERY_DECISION_NONE, e)
              | Inl (Some (rr, reason, found)) \<Rightarrow> reject_gap e primary missing found True True rr reason
              | Inr _ \<Rightarrow>
                  (case insert_range (\<lambda>_. True) (log_recovery e primary missing ''recover_null_region'')
                          first_index 0 missing of
                     (rc, e) \<Rightarrow> if rc \<noteq> 0 then (-1, e) else (RECOVERY_DECISION_INSERTED, e))))"

section \<open>What a recovery may change\<close>

lemma reject_gap_quiet: "reject_gap e p n c b a rr reason = (rc, e') \<Longrightarrow> rc = 2 \<and> quiet e e'"
  by (auto simp: reject_gap_def Let_def)

lemma reject_gap_outputs: "reject_gap e p n c b a rr reason = (rc, e') \<Longrightarrow> rc = 2 \<and> outputs e e'"
  using reject_gap_quiet quiet_outputs by blast

lemma log_recovery_quiet [simp]: "quiet e (log_recovery e p n d)"
  by (auto simp: log_recovery_def Let_def)

lemma log_recovery_outputs [simp]: "outputs e (log_recovery e p n d)"
  by (rule quiet_outputs) simp

lemma count_burst_outputs [simp]: "outputs e (count_burst e n)"
  by (simp add: count_burst_def outputs_def)

lemma read_wall_outputs: "read_wall_time e = (t, e') \<Longrightarrow> outputs e e'"
  using quiet_outputs [OF quiet_reads(2)] by (metis snd_conv)

lemma stats_outputs [simp]: "same_status (stats e) st \<Longrightarrow> outputs e (e\<lparr>stats := st\<rparr>)"
  by (simp add: outputs_def)

lemma insert_record_outputs:
  assumes "insert_record e r f = (rc, e')"
  shows "outputs e e' \<and> (rc = 0 \<or> rc = -1)"
proof -
  obtain c e1 where o: "output_record e r = (c, e1)" by fastforce
  obtain t e2 where w: "read_wall_time e1 = (t, e2)" by fastforce
  show ?thesis
    using assms outputs_trans [OF output_record_outputs [OF o] read_wall_outputs [OF w]]
      output_record_outputs [OF o]
    by (auto simp: insert_record_def o w outputs_def split: if_splits)
qed

lemma insert_records_outputs:
  "insert_records e rs = (rc, e') \<Longrightarrow> outputs e e' \<and> (rc = 0 \<or> rc = -1)"
  by (induction rs arbitrary: e)
    (auto split: prod.splits if_splits dest!: insert_record_outputs intro: outputs_trans)

lemma insert_range_outputs:
  "insert_range flag e f i n = (rc, e') \<Longrightarrow> outputs e e' \<and> (rc = 0 \<or> rc = -1)"
proof (induction flag e f i n arbitrary: rc e' rule: insert_range.induct)
  case (1 flag e f i n)
  show ?case
  proof (cases "i < n")
    case False
    then show ?thesis using "1.prems" by (simp add: insert_range.simps)
  next
    case True
    show ?thesis
    proof (cases "hist_find (history e 1) (f + i)")
      case None
      then show ?thesis using "1.prems" True by (simp add: insert_range.simps)
    next
      case (Some c)
      obtain rc1 e1 where ins: "insert_record e c (flag c) = (rc1, e1)" by fastforce
      note o = insert_record_outputs [OF ins]
      show ?thesis
      proof (cases "rc1 = 0")
        case False
        then show ?thesis using "1.prems" True Some ins o by (simp add: insert_range.simps)
      next
        case zero: True
        then have "insert_range flag e1 f (i + 1) n = (rc, e')"
          using "1.prems" True Some ins
          by (subst (asm) insert_range.simps) simp
        from "1.IH" [OF True Some ins [symmetric] _ this] zero o show ?thesis
          by (auto intro: outputs_trans)
      qed
    qed
  qed
qed

lemma try_recover_exact_outputs:
  assumes "try_recover_exact_content_gap e p sm = (rc, e')"
  shows "outputs e e' \<and> rc \<in> {-1, 0, 1, 2}"
  using assms unfolding try_recover_exact_content_gap_def Let_def
  by (auto split: if_splits option.splits sum.splits prod.splits
      dest!: reject_gap_outputs insert_records_outputs
      intro: outputs_trans [OF log_recovery_outputs] outputs_trans [OF _ count_burst_outputs])

lemma try_recover_tei_outputs:
  assumes "try_recover_primary_tei_packet e p = (rc, e')"
  shows "outputs e e' \<and> rc \<in> {-1, 0, 1, 2}"
  using assms unfolding try_recover_primary_tei_packet_def Let_def
  by (auto split: if_splits option.splits prod.splits
      dest!: reject_gap_outputs insert_record_outputs intro: outputs_trans [OF log_recovery_outputs])

lemma try_recover_mixed_outputs:
  assumes "try_recover_mixed_position_gap e p sm = (rc, e')"
  shows "outputs e e' \<and> rc \<in> {-1, 0, 1, 2}"
  using assms unfolding try_recover_mixed_position_gap_def Let_def
  by (auto split: if_splits option.splits sum.splits prod.splits
      dest!: reject_gap_outputs insert_range_outputs
      intro: outputs_trans [OF log_recovery_outputs] outputs_trans [OF _ count_burst_outputs])

lemma try_recover_null_outputs:
  assumes "try_recover_null_position_gap e p sm = (rc, e')"
  shows "outputs e e' \<and> rc \<in> {-1, 0, 1, 2}"
  using assms unfolding try_recover_null_position_gap_def Let_def
  by (auto split: if_splits option.splits sum.splits prod.splits null_scan.splits
      dest!: reject_gap_outputs insert_range_outputs
      intro: outputs_trans [OF log_recovery_outputs])

end
