(* ===== verification/Gap_Decision.thy ===== *)
theory Gap_Decision
  imports Gap_Recovery
begin

text \<open>
  Deciding between candidates (src/src/recovery_engine.c lines 2021 to 2111): a recovery is
  run only when exactly one candidate passes its validator; and the anchor moves to a primary
  packet that the secondary input confirms.
\<close>

definition validation_reject_is_definitive :: "recovery_candidate_validation \<Rightarrow> bool" where
  "validation_reject_is_definitive v \<longleftrightarrow>
     val_reject_reason v = RECOVERY_REJECT_WRONG_COUNTER \<or>
     val_reject_reason v = RECOVERY_REJECT_TEI \<or>
     val_reject_reason v = RECOVERY_REJECT_DISCONTINUITY \<or>
     val_reject_reason v = RECOVERY_REJECT_BURST_TOO_LARGE \<or>
     val_reject_reason v = RECOVERY_REJECT_LOW_ALIGNMENT"

type_synonym 's validator =
  "'s recovery_engine \<Rightarrow> packet_record \<Rightarrow> packet_record option \<Rightarrow> recovery_candidate_validation"

type_synonym 's recoverer =
  "'s recovery_engine \<Rightarrow> packet_record \<Rightarrow> packet_record option \<Rightarrow> int \<times> 's recovery_engine"

text \<open>
  The loop over the candidates: \<open>Inl v\<close> when a second one is valid (\<open>v\<close> its validation), else
  the winner, if any, and the rejection to report.
\<close>

primrec scan_validations ::
    "(nat \<Rightarrow> recovery_candidate_validation) \<Rightarrow> nat list \<Rightarrow> nat option \<Rightarrow> recovery_candidate_validation
     \<Rightarrow> recovery_candidate_validation + nat option \<times> recovery_candidate_validation" where
  "scan_validations validate [] winner best_reject = Inr (winner, best_reject)"
| "scan_validations validate (s # ss) winner best_reject =
     (let v = validate s
      in if val_valid v
         then (if winner \<noteq> None then Inl v else scan_validations validate ss (Some s) best_reject)
         else scan_validations validate ss winner
                (if val_reason best_reject = None \<or>
                    (val_has_missing_count v \<and> \<not> val_has_missing_count best_reject) \<or>
                    val_reject_reason v \<noteq> RECOVERY_REJECT_MISSING_CANDIDATE
                 then v else best_reject))"

definition reject_candidates ::
    "'s recovery_engine \<Rightarrow> packet_record \<Rightarrow> u64 \<Rightarrow> bool \<Rightarrow> bool \<Rightarrow> bool \<Rightarrow> recovery_reject_reason
     \<Rightarrow> string \<Rightarrow> int \<times> 's recovery_engine" where
  "reject_candidates e primary missing has_missing before_anchor after_anchor rr reason =
     (let prev = previous_output_cc_for_record e primary
      in (RECOVERY_DECISION_REJECTED,
          recovery_reject_log e primary (case prev of None \<Rightarrow> 0 | Some cc \<Rightarrow> cc) (prev \<noteq> None)
            missing has_missing True before_anchor after_anchor rr (Some reason)))"

definition try_unique_candidate_recovery ::
    "'s recovery_engine \<Rightarrow> packet_record \<Rightarrow> secondary_after_anchor_candidates \<Rightarrow> 's validator
     \<Rightarrow> 's recoverer \<Rightarrow> bool \<Rightarrow> int \<times> 's recovery_engine" where
  "try_unique_candidate_recovery e primary candidates validator recover log_no_valid =
     (let av = anchor_valid (last_primary_anchor e)
      in if cand_truncated candidates
         then reject_candidates e primary 0 False av False RECOVERY_REJECT_AMBIGUOUS ''too_many_after_anchors''
         else
           (case scan_validations (\<lambda>s. validator e primary (Some (candidate_record e s)))
                   (cand_slots candidates) None (fresh_validation ''missing_candidate'') of
              Inl v \<Rightarrow> reject_candidates e primary (val_missing_packets v) (val_has_missing_count v)
                         True True RECOVERY_REJECT_AMBIGUOUS ''multiple_valid_after_anchors''
            | Inr (Some winner, best_reject) \<Rightarrow> recover e primary (Some (candidate_record e winner))
            | Inr (None, best_reject) \<Rightarrow>
                if cand_slots candidates \<noteq> [] \<and>
                   (log_no_valid \<or> validation_reject_is_definitive best_reject)
                then reject_candidates e primary (val_missing_packets best_reject)
                       (val_has_missing_count best_reject) av True (val_reject_reason best_reject)
                       (case val_reason best_reject of
                          None \<Rightarrow> ''no_valid_after_anchor'' | Some reason \<Rightarrow> reason)
                else (RECOVERY_DECISION_NONE, e)))"

definition update_primary_anchor ::
    "'s recovery_engine \<Rightarrow> packet_record \<Rightarrow> packet_record option \<Rightarrow> 's recovery_engine" where
  "update_primary_anchor e primary secondary_match =
     (case secondary_match of
        None \<Rightarrow> e
      | Some sm \<Rightarrow>
          if is_null primary \<or> is_null sm \<or> \<not> records_exact_non_error_match primary sm then e
          else e\<lparr>last_primary_anchor :=
                 \<lparr>anchor_valid = True, primary_index = stream_index primary,
                  secondary_index = stream_index sm\<rparr>\<rparr>)"

section \<open>What a decision may change\<close>

lemma reject_candidates_outputs:
  "reject_candidates e p n hn b a rr reason = (rc, e') \<Longrightarrow> rc = 2 \<and> quiet e e' \<and> outputs e e'"
  by (auto simp: reject_candidates_def Let_def intro: quiet_outputs)

text \<open>What every recovery promises: it only sends, and returns one of the four results.\<close>

definition only_sends :: "'s recoverer \<Rightarrow> bool" where
  "only_sends recover \<longleftrightarrow>
     (\<forall>e p sm. outputs e (snd (recover e p sm)) \<and> fst (recover e p sm) \<in> {-1, 0, 1, 2})"

lemma only_sends_recoveries [simp]:
  "only_sends try_recover_null_position_gap"
  "only_sends try_recover_mixed_position_gap"
  "only_sends try_recover_exact_content_gap"
  using try_recover_null_outputs try_recover_mixed_outputs try_recover_exact_outputs
  by (metis only_sends_def prod.collapse)+

lemma try_unique_outputs:
  assumes "only_sends recover" and "try_unique_candidate_recovery e p cs validator recover lnv = (rc, e')"
  shows "outputs e e' \<and> rc \<in> {-1, 0, 1, 2}"
proof -
  have rec: "recover e p sm = (r, x) \<Longrightarrow> outputs e x \<and> r \<in> {-1, 0, 1, 2}" for sm r x
    using assms(1) unfolding only_sends_def by (metis fst_conv snd_conv)
  show ?thesis
    using assms(2) unfolding try_unique_candidate_recovery_def Let_def
    by (auto split: if_splits sum.splits option.splits prod.splits
        dest!: reject_candidates_outputs dest: rec)
qed

lemma update_primary_anchor_frame [simp]:
  "primary_queue (update_primary_anchor e p sm) = primary_queue e"
  "secondary_queue (update_primary_anchor e p sm) = secondary_queue e"
  "history (update_primary_anchor e p sm) = history e"
  "config (update_primary_anchor e p sm) = config e"
  "sink (update_primary_anchor e p sm) = sink e"
  "stats (update_primary_anchor e p sm) = stats e"
  "world (update_primary_anchor e p sm) = world e"
  "alignment (update_primary_anchor e p sm) = alignment e"
  "output_pid_state (update_primary_anchor e p sm) = output_pid_state e"
  "next_stream_index (update_primary_anchor e p sm) = next_stream_index e"
  "eng_active_output_stream_id (update_primary_anchor e p sm) = eng_active_output_stream_id e"
  "last_input_arrival_ns (update_primary_anchor e p sm) = last_input_arrival_ns e"
  "primary_return_start_ns (update_primary_anchor e p sm) = primary_return_start_ns e"
  by (simp_all add: update_primary_anchor_def split: option.splits)

end
