(* ===== verification/Failover.thy ===== *)
theory Failover
  imports Output_Frame
begin

text \<open>
  Changing the active input (src/src/recovery_engine.c lines 779 to 908): when the primary has
  been silent for too long the secondary is sent, when the primary has been back for long
  enough it takes over again, and the packets the other input has already sent are dropped
  from the queues.
\<close>

definition primary_is_silent_beyond_outage :: "'s recovery_engine \<Rightarrow> u64 \<Rightarrow> bool" where
  "primary_is_silent_beyond_outage e now_ns =
     (if primary_outage_ns (config e) = 0 \<or> last_input_arrival_ns e 1 = 0 then False
      else if last_input_arrival_ns e 0 = 0 then False
      else if now_ns < last_input_arrival_ns e 0 then False
      else primary_outage_ns (config e) \<le> now_ns - last_input_arrival_ns e 0)"

text \<open>The popping loop of lines 799 to 806, over the queue itself.\<close>

function discard_while_queue :: "(packet_record \<Rightarrow> bool) \<Rightarrow> delay_queue \<Rightarrow> delay_queue" where
  "discard_while_queue P q =
     (case delay_queue_front q of
        None \<Rightarrow> q
      | Some r \<Rightarrow> if P r then discard_while_queue P (delay_queue_pop q) else q)"
  by pat_completeness auto
termination
  by (relation "measure (\<lambda>(P, q). q_count q)")
    (auto simp: delay_queue_front_def delay_queue_pop_def split: if_splits)

declare discard_while_queue.simps [simp del]

definition discard_secondary_records_through ::
    "'s recovery_engine \<Rightarrow> u64 \<Rightarrow> 's recovery_engine" where
  "discard_secondary_records_through e index =
     e\<lparr>secondary_queue := discard_while_queue (\<lambda>r. \<not> index < stream_index r) (secondary_queue e)\<rparr>"

definition secondary_cutoff :: "'s recovery_engine \<Rightarrow> u64 option" where
  "secondary_cutoff e =
     (let cutoff = (if anchor_valid (last_primary_anchor e)
                    then Some (secondary_index (last_primary_anchor e)) else None)
      in if has_alignment (alignment e) \<and> has_output_stream_index e 0
         then
           let index = sint (last_output_stream_index e 0) + offset_packets (alignment e)
           in if 0 \<le> index \<and> (cutoff = None \<or> the cutoff < word_of_int index)
              then Some (word_of_int index) else cutoff
         else cutoff)"

definition discard_secondary_records_already_output_by_primary ::
    "'s recovery_engine \<Rightarrow> 's recovery_engine" where
  "discard_secondary_records_already_output_by_primary e =
     (case secondary_cutoff e of
        None \<Rightarrow> e
      | Some cutoff \<Rightarrow> discard_secondary_records_through e cutoff)"

definition primary_record_already_output_by_secondary ::
    "'s recovery_engine \<Rightarrow> packet_record \<Rightarrow> bool" where
  "primary_record_already_output_by_secondary e primary =
     (if \<not> has_alignment (alignment e) \<or> \<not> has_output_stream_index e 1 then False
      else
        let index = sint (stream_index primary) + offset_packets (alignment e)
        in 0 \<le> index \<and> (word_of_int index :: u64) \<le> last_output_stream_index e 1)"

definition discard_primary_records_already_output_by_secondary ::
    "'s recovery_engine \<Rightarrow> 's recovery_engine" where
  "discard_primary_records_already_output_by_secondary e =
     e\<lparr>primary_queue := discard_while_queue (primary_record_already_output_by_secondary e)
                          (primary_queue e)\<rparr>"

text \<open>A record whose delay has not passed yet.\<close>

definition still_delayed :: "u64 \<Rightarrow> u64 \<Rightarrow> packet_record \<Rightarrow> bool" where
  "still_delayed delay now_ns r \<longleftrightarrow>
     arrival_time_ns r \<le> now_ns \<and> now_ns - arrival_time_ns r < delay"

text \<open>One round of the loop that sends secondary packets.\<close>

definition drain_secondary_step ::
    "bool \<Rightarrow> 's recovery_engine \<Rightarrow> packet_record \<Rightarrow> bool \<times> int \<times> 's recovery_engine" where
  "drain_secondary_step force e secondary =
     (case read_now_ns e of (now_ns, e) \<Rightarrow>
        if \<not> force \<and> still_delayed (delay_ns (secondary_queue e)) now_ns secondary
        then (False, 0, e)
        else
          (case output_record (set_active_output_stream e 1) secondary of (rc, e) \<Rightarrow>
             if rc \<noteq> 0 then (False, -1, e)
             else (force, 0, e\<lparr>secondary_queue := delay_queue_pop (secondary_queue e)\<rparr>)))"

lemma drain_secondary_step_continue:
  assumes "drain_secondary_step force e r = (True, rc, e')"
  shows "secondary_queue e' = delay_queue_pop (secondary_queue e)"
proof -
  obtain t e1 where rd: "read_now_ns e = (t, e1)" by fastforce
  obtain c e2 where out: "output_record (set_active_output_stream e1 1) r = (c, e2)" by fastforce
  have "secondary_queue e2 = secondary_queue e"
    using outputsD(4) [OF output_record_outputs [OF out]] outputsD(4) [OF read_now_frame [OF rd]] by simp
  then show ?thesis using assms
    by (auto simp: drain_secondary_step_def rd out split: if_splits)
qed

lemma drain_secondary_step_shorter:
  assumes "delay_queue_front (secondary_queue e) = Some r"
    and "drain_secondary_step force e r = (True, rc, e')"
  shows "q_count (secondary_queue e') < q_count (secondary_queue e)"
  using drain_secondary_step_continue [OF assms(2)] assms(1)
  by (auto simp: delay_queue_front_def delay_queue_pop_def split: if_splits)

function drain_secondary_loop ::
    "bool \<Rightarrow> 's recovery_engine \<Rightarrow> int \<times> 's recovery_engine" where
  "drain_secondary_loop force e =
     (case delay_queue_front (secondary_queue e) of
        None \<Rightarrow> (0, e)
      | Some secondary \<Rightarrow>
          (case drain_secondary_step force e secondary of (continue, rc, e') \<Rightarrow>
             if continue then drain_secondary_loop force e' else (rc, e')))"
  by pat_completeness auto
termination
  by (relation "measure (\<lambda>(force, e). q_count (secondary_queue e))")
    (simp, drule sym, drule sym, auto intro: drain_secondary_step_shorter)

declare drain_secondary_loop.simps [simp del]

definition drain_secondary_on_primary_outage ::
    "'s recovery_engine \<Rightarrow> bool \<Rightarrow> u64 \<Rightarrow> int \<times> 's recovery_engine" where
  "drain_secondary_on_primary_outage e force now_ns =
     (if eng_active_output_stream_id e \<noteq> 1 \<and> \<not> primary_is_silent_beyond_outage e now_ns
      then (0, e)
      else drain_secondary_loop force (discard_secondary_records_already_output_by_primary e))"

definition primary_return_holdoff_elapsed ::
    "'s recovery_engine \<Rightarrow> u64 \<Rightarrow> bool \<times> 's recovery_engine" where
  "primary_return_holdoff_elapsed e now_ns =
     (if eng_active_output_stream_id e \<noteq> 1 then (True, e\<lparr>primary_return_start_ns := 0\<rparr>)
      else if primary_is_silent_beyond_outage e now_ns then (False, e\<lparr>primary_return_start_ns := 0\<rparr>)
      else if last_input_arrival_ns e 0 = 0 then (False, e\<lparr>primary_return_start_ns := 0\<rparr>)
      else
        let e = (if primary_return_start_ns e = 0 then e\<lparr>primary_return_start_ns := now_ns\<rparr> else e)
        in (primary_return_ns (config e) \<le> now_ns - primary_return_start_ns e, e))"

end
