(* ===== verification/Drain.thy ===== *)
theory Drain
  imports Alignment Gap_Decision Failover
begin

text \<open>
  The engine's public operations (src/src/recovery_engine.c lines 2113 to 2422): set-up, a
  packet arriving, draining the queues, flush and free. The loop of \<open>recovery_engine_drain\<close>
  is \<open>drain_loop\<close>, its body \<open>drain_step\<close>, whose outcome says how the round ends.
\<close>

section \<open>Set-up\<close>

text \<open>
  \<open>memset(engine, 0, ...)\<close>. The sink, the statistics and the environment are not part of the
  engine's memory: the engine only points to them.
\<close>

definition zero_engine :: "'s packet_sink \<Rightarrow> report_stats \<Rightarrow> world \<Rightarrow> 's recovery_engine" where
  "zero_engine snk st w = \<lparr>
     sink = snk, stats = st,
     config = \<lparr>primary_delay_ns = 0, max_secondary_latency_ns = 0, alignment_window_ns = 0,
       history_ms = 0, primary_outage_ns = 0, primary_return_ns = 0, min_alignment_confidence = 0,
       max_content_burst_packets = 0\<rparr>,
     history = (\<lambda>_. zero_history), primary_queue = zero_queue, secondary_queue = zero_queue,
     pcr_model = (\<lambda>_. \<lparr>pid_models = replicate RECOVERY_ENGINE_MAX_PCR_PIDS zero_pcr_model,
       estimated_delay_ns = 0, timing_confidence = 0\<rparr>),
     next_stream_index = (\<lambda>_. 0), last_input_arrival_ns = (\<lambda>_. 0),
     last_output_stream_index = (\<lambda>_. 0), has_output_stream_index = (\<lambda>_. False),
     eng_active_output_stream_id = 0, primary_return_start_ns = 0,
     primary_switchback_guard = False, primary_switchback_guard_informative = 0,
     alignment = \<lparr>has_alignment = False, offset_packets = 0, confidence = 0,
       consecutive_matches = 0, consecutive_misses = 0\<rparr>,
     last_primary_anchor = \<lparr>anchor_valid = False, primary_index = 0, secondary_index = 0\<rparr>,
     primary_gap = \<lparr>gap_valid = False, gap_arrival_time_ns = 0,
       gap_last_recovered_secondary_arrival_ns = 0, recovered_stream_packets = 0,
       secondary_recovery_index = 0, gap_continuity_errors = 0, gap_duplicate_counters = 0\<rparr>,
     input_pid_state = (\<lambda>_ _. \<lparr>in_valid = False, in_cc = 0\<rparr>),
     output_pid_state = (\<lambda>_. \<lparr>out_valid = False, out_cc = 0, last_arrival_time_ns = 0,
       last_recovered_secondary_arrival_ns = 0, last_primary_continuity_errors = 0\<rparr>),
     decision_candidate_count = 0, decision_candidates_truncated = False,
     world = w \<rparr>"

definition clamp_config :: "recovery_engine_config \<Rightarrow> recovery_engine_config" where
  "clamp_config cfg =
     (let cfg = (if 255 < max_content_burst_packets cfg
                 then cfg\<lparr>max_content_burst_packets := 255\<rparr> else cfg)
      in if 100 < min_alignment_confidence cfg
         then cfg\<lparr>min_alignment_confidence := 100\<rparr> else cfg)"

text \<open>
  \<open>alloc k\<close> tells whether the \<open>k\<close>-th of the four allocations succeeds; when one fails the
  earlier buffers are released, which zeroes their descriptors.
\<close>

definition recovery_engine_init_with_config ::
    "(nat \<Rightarrow> bool) \<Rightarrow> 's packet_sink \<Rightarrow> report_stats \<Rightarrow> world \<Rightarrow> recovery_engine_config
     \<Rightarrow> int \<times> 's recovery_engine" where
  "recovery_engine_init_with_config alloc snk st w cfg =
     (let capacity = history_capacity_from_config cfg;
          e = (zero_engine snk st w)\<lparr>config := clamp_config cfg\<rparr>;
          (r0, h0) = packet_history_init (alloc 0) capacity;
          (r1, h1) = packet_history_init (alloc 1) capacity;
          (r2, q0) = delay_queue_init (alloc 2) capacity (primary_delay_ns (config e));
          (r3, q1) = delay_queue_init (alloc 3) capacity (primary_delay_ns (config e))
      in if r0 \<noteq> 0 then (-1, e)
         else if r1 \<noteq> 0 then (-1, e)
         else if r2 \<noteq> 0 then (-1, e)
         else if r3 \<noteq> 0 then (-1, e)
         else (0, e\<lparr>history := (history e)(0 := h0, 1 := h1), primary_queue := q0,
                    secondary_queue := q1, eng_active_output_stream_id := 0,
                    stats := (stats e)\<lparr>active_output_stream_id := 0\<rparr>\<rparr>))"

definition recovery_engine_init ::
    "(nat \<Rightarrow> bool) \<Rightarrow> 's packet_sink \<Rightarrow> report_stats \<Rightarrow> world \<Rightarrow> int \<times> 's recovery_engine" where
  "recovery_engine_init alloc snk st w =
     recovery_engine_init_with_config alloc snk st w recovery_engine_default_config"

section \<open>One round of the drain loop\<close>

text \<open>
  The local variables that the recovery attempts share: whether a decision has been logged,
  whether packets were inserted, and whether the primary packet fits the output.
\<close>

record attempt =
  logged :: bool
  inserted :: bool
  fits :: bool

text \<open>
  One of the three attempts (lines 2303 to 2351); \<open>need\<close> is the attempt's additional guard.
  \<open>None\<close> when the sink failed and the drain returns -1.
\<close>

definition attempt_recovery ::
    "(attempt \<Rightarrow> bool) \<Rightarrow> 's validator \<Rightarrow> 's recoverer \<Rightarrow> bool \<Rightarrow> packet_record
     \<Rightarrow> secondary_after_anchor_candidates \<Rightarrow> attempt \<Rightarrow> 's recovery_engine
     \<Rightarrow> attempt option \<times> 's recovery_engine" where
  "attempt_recovery need validator recover log_no_valid primary cs a e =
     (if \<not> inserted a \<and> \<not> logged a \<and> need a \<and> anchor_valid (last_primary_anchor e) \<and>
         cand_slots cs \<noteq> []
      then
        (case try_unique_candidate_recovery e primary cs validator recover log_no_valid of
           (recovered, e) \<Rightarrow>
             if recovered < 0 then (None, e)
             else if recovered \<noteq> RECOVERY_DECISION_NONE
             then (Some \<lparr>logged = True, inserted = (recovered = RECOVERY_DECISION_INSERTED),
                         fits = record_fits_next_output e primary\<rparr>, e)
             else (Some a, e))
      else (Some a, e))"

text \<open>The three attempts, one after the other.\<close>

definition attempt_recoveries ::
    "packet_record \<Rightarrow> secondary_after_anchor_candidates \<Rightarrow> attempt \<Rightarrow> 's recovery_engine
     \<Rightarrow> attempt option \<times> 's recovery_engine" where
  "attempt_recoveries primary cs a e =
     (case attempt_recovery (\<lambda>_. True) validate_null_position_candidate
             try_recover_null_position_gap False primary cs a e of
        (None, e) \<Rightarrow> (None, e)
      | (Some a, e) \<Rightarrow>
          (case attempt_recovery (\<lambda>_. True) validate_mixed_position_candidate
                  try_recover_mixed_position_gap False primary cs a e of
             (None, e) \<Rightarrow> (None, e)
           | (Some a, e) \<Rightarrow>
               attempt_recovery (\<lambda>a. \<not> fits a) validate_exact_content_candidate
                 try_recover_exact_content_gap True primary cs a e))"

text \<open>Lines 2352 to 2380: the rejection logged when nothing else was said.\<close>

definition log_unexplained_gap ::
    "packet_record \<Rightarrow> secondary_after_anchor_candidates \<Rightarrow> 's recovery_engine \<Rightarrow> 's recovery_engine" where
  "log_unexplained_gap primary cs e =
     (let prev = previous_output_cc_for_record e primary;
          missing = Option.bind prev (\<lambda>cc. infer_missing_from_cc cc primary);
          before_anchor = anchor_valid (last_primary_anchor e);
          some = (cand_slots cs \<noteq> []);
          (rr, reason) =
            (if confidence (alignment e) < min_alignment_confidence (config e)
             then (RECOVERY_REJECT_LOW_ALIGNMENT, ''low_alignment'')
             else if before_anchor \<and> cand_slots cs = []
             then (RECOVERY_REJECT_AMBIGUOUS, ''no_after_anchor'')
             else if cand_truncated cs
             then (RECOVERY_REJECT_AMBIGUOUS, ''too_many_after_anchors'')
             else (RECOVERY_REJECT_MISSING_CANDIDATE, ''missing_anchor_or_candidate''))
      in recovery_reject_log e primary (case prev of None \<Rightarrow> 0 | Some cc \<Rightarrow> cc) (prev \<noteq> None)
           (case missing of None \<Rightarrow> 0 | Some m \<Rightarrow> m) (missing \<noteq> None) some before_anchor some
           rr (Some reason))"

text \<open>The end of a round: send the primary packet, move the anchor, pop the queue.\<close>

definition send_primary ::
    "packet_record \<Rightarrow> packet_record option \<Rightarrow> 's recovery_engine \<Rightarrow> int \<times> 's recovery_engine" where
  "send_primary primary anchor_secondary_match e =
     (case output_record e primary of (rc, e) \<Rightarrow>
        if rc \<noteq> 0 then (-1, e)
        else
          let e = update_primary_anchor e primary anchor_secondary_match;
              e = e\<lparr>primary_gap := (primary_gap e)\<lparr>gap_valid := True,
                     gap_arrival_time_ns := arrival_time_ns primary,
                     gap_continuity_errors := stream_continuity_errors primary,
                     gap_duplicate_counters := stream_duplicate_counters primary\<rparr>\<rparr>
          in (0, e\<lparr>primary_queue := delay_queue_pop (primary_queue e)\<rparr>))"

text \<open>The rest of a round once it is known what the candidates are (lines 2303 to 2389).\<close>

definition primary_rest ::
    "packet_record \<Rightarrow> secondary_after_anchor_candidates \<Rightarrow> packet_record option \<Rightarrow> attempt
     \<Rightarrow> 's recovery_engine \<Rightarrow> int \<times> 's recovery_engine" where
  "primary_rest primary cs anchor_secondary_match a e =
     (case attempt_recoveries primary cs a e of
        (None, e) \<Rightarrow> (-1, e)
      | (Some a, e) \<Rightarrow>
          send_primary primary anchor_secondary_match
            (if \<not> fits a \<and> \<not> logged a then log_unexplained_gap primary cs e else e))"

text \<open>Lines 2282 to 2289: the secondary packet the anchor may move to.\<close>

definition anchor_match_for ::
    "'s recovery_engine \<Rightarrow> packet_record \<Rightarrow> secondary_after_anchor_candidates \<Rightarrow> packet_record option" where
  "anchor_match_for e primary cs =
     (let single_match = (if length (cand_slots cs) = 1 \<and> \<not> cand_truncated cs
                          then Some (candidate_record e (hd (cand_slots cs))) else None)
      in if single_match = None \<and> has_alignment (alignment e)
         then find_aligned_secondary_record e primary else single_match)"

definition note_candidates ::
    "'s recovery_engine \<Rightarrow> secondary_after_anchor_candidates \<Rightarrow> 's recovery_engine" where
  "note_candidates e cs =
     e\<lparr>decision_candidate_count := length (cand_slots cs),
       decision_candidates_truncated := cand_truncated cs\<rparr>"

definition drain_packet :: "'s recovery_engine \<Rightarrow> packet_record \<Rightarrow> int \<times> 's recovery_engine" where
  "drain_packet e primary =
     (let cs = find_secondary_boundary_matches e primary;
          e = note_candidates e cs;
          anchor_match = anchor_match_for e primary cs;
          a = \<lparr>logged = False, inserted = False, fits = record_fits_next_output e primary\<rparr>
      in if transport_error primary
         then
           (case try_recover_primary_tei_packet e primary of (recovered, e) \<Rightarrow>
              if recovered < 0 then (-1, e)
              else if recovered = RECOVERY_DECISION_INSERTED
              then (0, e\<lparr>primary_queue := delay_queue_pop (primary_queue e)\<rparr>)
              else primary_rest primary cs anchor_match
                     (a\<lparr>logged := (recovered \<noteq> RECOVERY_DECISION_NONE)\<rparr>) e)
         else primary_rest primary cs anchor_match a e)"

datatype 's drain_outcome =
    Next "'s recovery_engine"
  | Leave "'s recovery_engine"
  | Return int "'s recovery_engine"

definition drain_step :: "bool \<Rightarrow> 's recovery_engine \<Rightarrow> packet_record \<Rightarrow> 's drain_outcome" where
  "drain_step force e primary =
     (case read_now_ns e of (now_ns, e) \<Rightarrow>
        case (if eng_active_output_stream_id e = 1 then primary_return_holdoff_elapsed e now_ns
              else (True, e)) of
          (False, e) \<Rightarrow> (case drain_secondary_on_primary_outage e force now_ns of (rc, e) \<Rightarrow> Return rc e)
        | (True, e) \<Rightarrow>
            let e = set_active_output_stream e 0
            in if \<not> force \<and> still_delayed (delay_ns (primary_queue e)) now_ns primary then Leave e
               else (case drain_packet e primary of (rc, e) \<Rightarrow> if rc \<noteq> 0 then Return (-1) e else Next e))"

section \<open>The loop\<close>

lemma attempt_recovery_outputs:
  assumes "only_sends r" and "attempt_recovery need v r l p cs a e = (a', e')"
  shows "outputs e e'"
proof -
  obtain rc e1 where u: "try_unique_candidate_recovery e p cs v r l = (rc, e1)" by fastforce
  from try_unique_outputs [OF assms(1) u] assms(2) show ?thesis
    by (auto simp: attempt_recovery_def u split: if_splits)
qed

lemma attempt_recoveries_outputs:
  assumes "attempt_recoveries p cs a e = (a', e')"
  shows "outputs e e'"
proof -
  obtain a1 e1 where n: "attempt_recovery (\<lambda>_. True) validate_null_position_candidate
      try_recover_null_position_gap False p cs a e = (a1, e1)" by fastforce
  have o1: "outputs e e1" by (rule attempt_recovery_outputs [OF _ n]) simp
  show ?thesis
  proof (cases a1)
    case None
    then show ?thesis using assms o1 by (simp add: attempt_recoveries_def n)
  next
    case (Some b)
    obtain a2 e2 where m: "attempt_recovery (\<lambda>_. True) validate_mixed_position_candidate
        try_recover_mixed_position_gap False p cs b e1 = (a2, e2)" by fastforce
    have o2: "outputs e1 e2" by (rule attempt_recovery_outputs [OF _ m]) simp
    show ?thesis
    proof (cases a2)
      case None
      then show ?thesis using assms outputs_trans [OF o1 o2] Some
        by (simp add: attempt_recoveries_def n m)
    next
      case (Some c)
      with \<open>a1 = Some b\<close> have "attempt_recovery (\<lambda>a. \<not> fits a) validate_exact_content_candidate
          try_recover_exact_content_gap True p cs c e2 = (a', e')"
        using assms by (simp add: attempt_recoveries_def n m)
      from attempt_recovery_outputs [OF _ this] outputs_trans [OF o1 o2] show ?thesis
        by (auto intro: outputs_trans)
    qed
  qed
qed

lemma log_unexplained_quiet [simp]: "quiet e (log_unexplained_gap p cs e)"
  by (simp add: log_unexplained_gap_def Let_def split: prod.splits)

text \<open>The fields that a whole round may change besides those of \<open>outputs\<close>.\<close>

lemma send_primary_pop:
  assumes "send_primary p sm e = (rc, e')"
  shows "primary_queue e' = (if rc = 0 then delay_queue_pop (primary_queue e) else primary_queue e)"
  using assms
  by (auto simp: send_primary_def Let_def outputsD split: prod.splits if_splits
      dest!: output_record_outputs)

lemma primary_rest_pop:
  assumes "primary_rest p cs sm a e = (0, e')"
  shows "primary_queue e' = delay_queue_pop (primary_queue e)"
  using assms unfolding primary_rest_def
  by (auto simp: outputsD quietD(4) [OF log_unexplained_quiet] split: prod.splits option.splits if_splits
      dest!: attempt_recoveries_outputs send_primary_pop)

lemma note_candidates_frame [simp]:
  "primary_queue (note_candidates e cs) = primary_queue e"
  "secondary_queue (note_candidates e cs) = secondary_queue e"
  "history (note_candidates e cs) = history e"
  "config (note_candidates e cs) = config e"
  "sink (note_candidates e cs) = sink e"
  "stats (note_candidates e cs) = stats e"
  "world (note_candidates e cs) = world e"
  "alignment (note_candidates e cs) = alignment e"
  "last_primary_anchor (note_candidates e cs) = last_primary_anchor e"
  "output_pid_state (note_candidates e cs) = output_pid_state e"
  "eng_active_output_stream_id (note_candidates e cs) = eng_active_output_stream_id e"
  by (simp_all add: note_candidates_def)

lemma drain_packet_pop:
  assumes "drain_packet e p = (0, e')"
  shows "primary_queue e' = delay_queue_pop (primary_queue e)"
proof -
  let ?e = "note_candidates e (find_secondary_boundary_matches e p)"
  obtain rc e1 where t: "try_recover_primary_tei_packet ?e p = (rc, e1)" by fastforce
  have q1: "primary_queue e1 = primary_queue e"
    using outputsD(3) [OF conjunct1 [OF try_recover_tei_outputs [OF t]]] by simp
  show ?thesis
  proof (cases "transport_error p \<and> rc = 1")
    case True
    then show ?thesis using assms q1 by (auto simp: drain_packet_def Let_def t)
  next
    case False
    then obtain cs sm a e2 where "primary_rest p cs sm a e2 = (0, e')" "e2 = ?e \<or> e2 = e1"
      using assms by (auto simp: drain_packet_def Let_def t split: if_splits)
    from primary_rest_pop [OF this(1)] this(2) q1 show ?thesis by auto
  qed
qed

lemma holdoff_frame:
  assumes "primary_return_holdoff_elapsed e t = (b, e')"
  shows "\<exists>x. e' = e\<lparr>primary_return_start_ns := x\<rparr>"
proof -
  have "e = e\<lparr>primary_return_start_ns := primary_return_start_ns e\<rparr>" by simp
  then have same: "\<exists>x. e = e\<lparr>primary_return_start_ns := x\<rparr>" by (rule exI)
  have "e' = e \<or> e' = e\<lparr>primary_return_start_ns := 0\<rparr> \<or> e' = e\<lparr>primary_return_start_ns := t\<rparr>"
    using assms unfolding primary_return_holdoff_elapsed_def Let_def
    by (simp split: if_splits)
  then show ?thesis using same by blast
qed

lemma drain_step_pop:
  assumes "drain_step force e p = Next e'"
  shows "primary_queue e' = delay_queue_pop (primary_queue e)"
proof -
  obtain t e1 where rd: "read_now_ns e = (t, e1)" by fastforce
  obtain b e2 where h: "(if eng_active_output_stream_id e1 = 1 then primary_return_holdoff_elapsed e1 t
              else (True, e1)) = (b, e2)" by fastforce
  have q1: "primary_queue e1 = primary_queue e" by (rule outputsD(3) [OF read_now_frame [OF rd]])
  have q: "primary_queue e2 = primary_queue e"
  proof (cases "eng_active_output_stream_id e1 = 1")
    case True
    with h have "primary_return_holdoff_elapsed e1 t = (b, e2)" by simp
    from holdoff_frame [OF this] q1 show ?thesis by auto
  next
    case False
    with h q1 show ?thesis by simp
  qed
  obtain rc e3 where d: "drain_packet (set_active_output_stream e2 0) p = (rc, e3)" by fastforce
  from assms have "rc = 0" "e' = e3"
    by (auto simp: drain_step_def rd h d Let_def split: prod.splits if_splits bool.splits)
  with drain_packet_pop d q show ?thesis by fastforce
qed

lemma drain_step_shorter:
  assumes "delay_queue_front (primary_queue e) = Some p" and "drain_step force e p = Next e'"
  shows "q_count (primary_queue e') < q_count (primary_queue e)"
  using drain_step_pop [OF assms(2)] assms(1)
  by (auto simp: delay_queue_front_def delay_queue_pop_def split: if_splits)

text \<open>
  The while loop and what follows it: \<open>Inl\<close> of a result when the loop body returns,
  \<open>Inr\<close> of the engine when the loop ends.
\<close>

function drain_loop ::
    "bool \<Rightarrow> 's recovery_engine \<Rightarrow> (int \<times> 's recovery_engine) + 's recovery_engine" where
  "drain_loop force e =
     (case delay_queue_front (primary_queue e) of
        None \<Rightarrow> Inr e
      | Some primary \<Rightarrow>
          (case drain_step force e primary of
             Next e' \<Rightarrow> drain_loop force e'
           | Leave e' \<Rightarrow> Inr e'
           | Return rc e' \<Rightarrow> Inl (rc, e')))"
  by pat_completeness auto
termination
  by (relation "measure (\<lambda>(force, e). q_count (primary_queue e))") (auto intro: drain_step_shorter)

declare drain_loop.simps [simp del]

definition recovery_engine_drain :: "'s recovery_engine \<Rightarrow> bool \<Rightarrow> int \<times> 's recovery_engine" where
  "recovery_engine_drain e force =
     (let (now_ns, e) = read_now_ns e;
          (primary_return_ready, e) = primary_return_holdoff_elapsed e now_ns
      in if q_count (primary_queue e) = 0
         then (if eng_active_output_stream_id e = 1 \<and> primary_return_ready then (0, e)
               else drain_secondary_on_primary_outage e force now_ns)
         else if \<not> primary_return_ready then drain_secondary_on_primary_outage e force now_ns
         else
           let e = discard_primary_records_already_output_by_secondary e
           in if q_count (primary_queue e) = 0
              then (if eng_active_output_stream_id e = 1 then (0, e)
                    else drain_secondary_on_primary_outage e force now_ns)
              else
                (case drain_loop force (set_active_output_stream e 0) of
                   Inl result \<Rightarrow> result
                 | Inr e \<Rightarrow>
                     if q_count (primary_queue e) = 0
                     then (case read_now_ns e of (now_ns, e) \<Rightarrow>
                             drain_secondary_on_primary_outage e force now_ns)
                     else (0, e)))"

section \<open>A packet arrives\<close>

text \<open>Lines 2186 to 2202: the record of a packet, with the two clock readings.\<close>

definition record_of ::
    "'s recovery_engine \<Rightarrow> int \<Rightarrow> bytes \<Rightarrow> ts_packet_info \<Rightarrow> packet_record \<times> 's recovery_engine" where
  "record_of e stream_id pkt info =
     (let index = next_stream_index e stream_id;
          e = e\<lparr>next_stream_index := (next_stream_index e)(stream_id := index + 1)\<rparr>;
          (tod, e) = read_time_of_day e;
          (now_ns, e) = read_now_ns e
      in (\<lparr> source_stream_id = stream_id, stream_index = index, arrival_time = tod,
            arrival_time_ns = now_ns, pid = info_pid info,
            continuity_counter = info_continuity_counter info, has_payload = info_has_payload info,
            has_pcr = info_has_pcr info, is_null = info_is_null info,
            transport_error = info_transport_error info,
            discontinuity_indicator = info_discontinuity_indicator info,
            stream_continuity_errors = continuity_errors (stats e) stream_id,
            stream_duplicate_counters = duplicate_counters (stats e) stream_id,
            pcr_value = (if info_has_pcr info then pcr_base info else 0),
            hash = hash_packet pkt, packet = take TS_PACKET_SIZE pkt \<rparr>, e))"

text \<open>Lines 2185 and 2203 to 2208: the packet is stored, and packets that are too old are dropped.\<close>

definition store_record :: "'s recovery_engine \<Rightarrow> int \<Rightarrow> packet_record \<Rightarrow> 's recovery_engine" where
  "store_record e stream_id r =
     (let (slot, h) = packet_history_push (history e stream_id);
          h = hist_store h slot r;
          retention = history_ms (config e) * 1000000;
          h = (if 0 < retention \<and> retention < arrival_time_ns r
               then packet_history_prune_older_than h (arrival_time_ns r - retention) else h)
      in e\<lparr>history := (history e)(stream_id := h),
           last_input_arrival_ns := (last_input_arrival_ns e)(stream_id := arrival_time_ns r)\<rparr>)"

text \<open>Lines 2216 to 2229: queue the packet, making room by dropping the oldest.\<close>

definition enqueue_record ::
    "'s recovery_engine \<Rightarrow> int \<Rightarrow> packet_record \<Rightarrow> int \<times> 's recovery_engine" where
  "enqueue_record e stream_id r =
     (if stream_id = 0 then
        (case delay_queue_push (primary_queue e) r of (rc, q) \<Rightarrow>
           if rc \<noteq> 0 then
             let e = e\<lparr>stats := (stats e)\<lparr>primary_delay_overflows := primary_delay_overflows (stats e) + 1\<rparr>\<rparr>;
                 (rc, q) = delay_queue_push (delay_queue_pop q) r
             in (if rc \<noteq> 0 then -1 else 0, e\<lparr>primary_queue := q\<rparr>)
           else (0, e\<lparr>primary_queue := q\<rparr>))
      else
        (case delay_queue_push (secondary_queue e) r of (rc, q) \<Rightarrow>
           if rc \<noteq> 0 then
             let (rc, q) = delay_queue_push (delay_queue_pop q) r
             in (if rc \<noteq> 0 then -1 else 0, e\<lparr>secondary_queue := q\<rparr>)
           else (0, e\<lparr>secondary_queue := q\<rparr>)))"

text \<open>Lines 2185 to 2229: everything a packet's arrival does before the queues are drained.\<close>

definition accept_packet ::
    "'s recovery_engine \<Rightarrow> int \<Rightarrow> bytes \<Rightarrow> ts_packet_info \<Rightarrow> int \<times> 's recovery_engine" where
  "accept_packet e stream_id pkt info =
     (let (r, e) = record_of e stream_id pkt info;
          e = store_record e stream_id r;
          e = e\<lparr>decision_candidate_count := 0, decision_candidates_truncated := False\<rparr>;
          e = update_pcr_timing e r;
          e = observe_input_path_gap e stream_id r;
          e = update_alignment e stream_id r
      in enqueue_record e stream_id r)"

definition recovery_engine_push_packet ::
    "'s recovery_engine \<Rightarrow> int \<Rightarrow> bytes \<Rightarrow> ts_packet_info \<Rightarrow> int \<times> 's recovery_engine" where
  "recovery_engine_push_packet e stream_id pkt info =
     (if stream_id < 0 \<or> 1 < stream_id then (-1, e)
      else
        (case accept_packet e stream_id pkt info of (rc, e) \<Rightarrow>
           if rc \<noteq> 0 then (-1, e) else recovery_engine_drain e False))"

definition recovery_engine_flush :: "'s recovery_engine \<Rightarrow> int \<times> 's recovery_engine" where
  "recovery_engine_flush e =
     (case recovery_engine_drain e True of (rc, e) \<Rightarrow>
        if rc \<noteq> 0 then (-1, e)
        else (case packet_sink_flush (sink e) of (rc, snk) \<Rightarrow> (rc, e\<lparr>sink := snk\<rparr>)))"

text \<open>The buffers are released and the engine is cleared; what it pointed to stays.\<close>

definition recovery_engine_free :: "'s recovery_engine \<Rightarrow> 's recovery_engine" where
  "recovery_engine_free e = zero_engine (sink e) (stats e) (world e)"

end
