(* ===== verification/Datagram.thy ===== *)
theory Datagram
  imports Drain
begin

text \<open>
  A received datagram (src/src/main.c lines 28 to 93): cutting it into packets of 188 bytes,
  finding the packets again when the sync byte is missing, and handing the packets to the
  engine. Offsets are 64-bit words, as \<open>size_t\<close> is; a packet at an offset is the rest of the
  buffer from there. The loop of \<open>process_datagram\<close> is a partial function: that it ends is
  proved in \<open>Datagram_Theorems\<close> for every datagram that fits the receive buffer.
\<close>

definition INPUT_BUFFER_SIZE :: nat where "INPUT_BUFFER_SIZE = TS_PACKET_SIZE * 64"

section \<open>Resynchronisation\<close>

definition has_sync_run :: "bytes \<Rightarrow> u64 \<Rightarrow> bool" where
  "has_sync_run buffer offset =
     list_all (\<lambda>i. let sync_offset = offset + of_nat (i * TS_PACKET_SIZE)
                   in sync_offset < of_nat (length buffer) \<and>
                      buffer ! unat sync_offset = TS_SYNC_BYTE)
       [0, 1, 2, 3]"

text \<open>The search loop of \<open>find_resync_offset\<close>, from its first offset.\<close>

function find_resync_from :: "bytes \<Rightarrow> u64 \<Rightarrow> u64 option" where
  "find_resync_from buffer offset =
     (if offset < of_nat (length buffer)
      then (if has_sync_run buffer offset then Some offset
            else find_resync_from buffer (offset + 1))
      else None)"
  by pat_completeness auto
termination
  by (relation "measure (\<lambda>(b, i). unat (of_nat (length b) :: u64) - unat i)")
    (simp_all add: word_loop_measure)

declare find_resync_from.simps [simp del]

definition find_resync_offset :: "bytes \<Rightarrow> u64 \<Rightarrow> u64 option" where
  "find_resync_offset buffer start_offset = find_resync_from buffer (start_offset + 1)"

section \<open>The counters of a datagram\<close>

text \<open>Line 62; the engine and \<open>process_datagram\<close> share the statistics.\<close>

definition observe_datagram :: "int \<Rightarrow> bytes \<Rightarrow> 's recovery_engine \<Rightarrow> 's recovery_engine" where
  "observe_datagram stream_id buffer e =
     e\<lparr>stats := report_stats_observe_datagram (stats e) stream_id (length buffer)\<rparr>"

text \<open>Lines 71 to 74: a packet that is refused, with or without a place to go on.\<close>

definition count_malformed :: "int \<Rightarrow> bool \<Rightarrow> 's recovery_engine \<Rightarrow> 's recovery_engine" where
  "count_malformed stream_id resync e =
     e\<lparr>stats := (stats e)\<lparr>
         sync_errors := bump (sync_errors (stats e)) stream_id,
         malformed_datagrams := bump (malformed_datagrams (stats e)) stream_id,
         resync_events := (if resync then bump (resync_events (stats e)) stream_id
                           else resync_events (stats e))\<rparr>\<rparr>"

text \<open>Lines 87 to 90: bytes are left over at the end.\<close>

definition count_partial :: "int \<Rightarrow> 's recovery_engine \<Rightarrow> 's recovery_engine" where
  "count_partial stream_id e =
     e\<lparr>stats := (stats e)\<lparr>
         sync_errors := bump (sync_errors (stats e)) stream_id,
         partial_datagrams := bump (partial_datagrams (stats e)) stream_id\<rparr>\<rparr>"

section \<open>Packets\<close>

text \<open>Lines 81 to 84: count the packet, then let the engine have it.\<close>

definition take_packet ::
    "int \<Rightarrow> bytes \<Rightarrow> ts_packet_info \<Rightarrow> 's recovery_engine \<Rightarrow> int \<times> 's recovery_engine" where
  "take_packet stream_id pkt info e =
     (let (now_ns, e) = read_now_ns e;
          e = e\<lparr>stats := report_stats_observe_packet (stats e) stream_id info now_ns\<rparr>
      in recovery_engine_push_packet e stream_id pkt info)"

text \<open>
  The loop of lines 64 to 85; the result is the return value -1 of a failing push, or 0 with the
  final offset. \<open>continue\<close> runs the increment of the loop as well, so the offset goes through
  \<open>resync_offset - 188\<close>, which wraps when the sync run starts before byte 188.
\<close>

partial_function (option) datagram_loop ::
    "int \<Rightarrow> bytes \<Rightarrow> u64 \<Rightarrow> 's recovery_engine \<Rightarrow> (int \<times> u64 \<times> 's recovery_engine) option" where
  "datagram_loop stream_id buffer offset e =
     (if offset + of_nat TS_PACKET_SIZE \<le> of_nat (length buffer) then
        (if \<not> fst (ts_packet_parse (drop (unat offset) buffer) zero_info) then
           (case find_resync_offset buffer offset of
              Some resync_offset \<Rightarrow>
                datagram_loop stream_id buffer
                  ((resync_offset - of_nat TS_PACKET_SIZE) + of_nat TS_PACKET_SIZE)
                  (count_malformed stream_id True e)
            | None \<Rightarrow>
                datagram_loop stream_id buffer (offset + of_nat TS_PACKET_SIZE)
                  (count_malformed stream_id False e))
         else
           (case take_packet stream_id (drop (unat offset) buffer)
                   (snd (ts_packet_parse (drop (unat offset) buffer) zero_info)) e of
              (rc, e) \<Rightarrow>
                if rc \<noteq> 0 then Some (-1, offset, e)
                else datagram_loop stream_id buffer (offset + of_nat TS_PACKET_SIZE) e))
      else Some (0, offset, e))"

definition process_datagram ::
    "'s recovery_engine \<Rightarrow> int \<Rightarrow> bytes \<Rightarrow> (int \<times> 's recovery_engine) option" where
  "process_datagram e stream_id buffer =
     map_option
       (\<lambda>(rc, offset, e).
          if rc \<noteq> 0 then (-1, e)
          else (0, if offset \<noteq> of_nat (length buffer) then count_partial stream_id e else e))
       (datagram_loop stream_id buffer 0 (observe_datagram stream_id buffer e))"

end
