(* ===== verification/C_Strings.thy ===== *)
theory C_Strings
  imports Prelude
begin

text \<open>
  The C library functions on strings that the program uses, on character lists: a
  NUL-terminated string is the list of its characters before the NUL. \<open>strncmp\<close> with the
  length of a prefix, \<open>strrchr\<close>, \<open>strchr\<close> and \<open>strstr\<close> as searches, \<open>strtoul\<close> and
  \<open>strtoull\<close> in base 10 with 64-bit results, and the \<open>%u\<close> and \<open>%x\<close> conversions of
  \<open>printf\<close>.
\<close>

section \<open>Searching\<close>

fun starts_with :: "string \<Rightarrow> string \<Rightarrow> bool" where
  "starts_with [] s = True"
| "starts_with (p # ps) [] = False"
| "starts_with (p # ps) (c # cs) = (p = c \<and> starts_with ps cs)"

lemma starts_with_append [simp]: "starts_with p (p @ s)"
  by (induction p) simp_all

lemma starts_with_iff: "starts_with p s \<longleftrightarrow> (\<exists>r. s = p @ r)"
  by (induction p s rule: starts_with.induct) auto

text \<open>\<open>strchr\<close>: what precedes the first occurrence, and what follows it.\<close>

fun split_first :: "char \<Rightarrow> string \<Rightarrow> (string \<times> string) option" where
  "split_first c [] = None"
| "split_first c (x # xs) =
     (if x = c then Some ([], xs)
      else map_option (\<lambda>(before, after). (x # before, after)) (split_first c xs))"

text \<open>\<open>strrchr\<close>: what precedes the last occurrence, and what follows it.\<close>

fun split_last :: "char \<Rightarrow> string \<Rightarrow> (string \<times> string) option" where
  "split_last c [] = None"
| "split_last c (x # xs) =
     (case split_last c xs of
        Some (before, after) \<Rightarrow> Some (x # before, after)
      | None \<Rightarrow> if x = c then Some ([], xs) else None)"

lemma split_last_None: "split_last c s = None \<longleftrightarrow> c \<notin> set s"
  by (induction s) (auto split: option.splits)

lemma split_last_sound: "split_last c s = Some (b, a) \<Longrightarrow> s = b @ c # a \<and> c \<notin> set a"
  by (induction s arbitrary: b) (auto simp: split_last_None split: option.splits if_splits)

lemma split_last_complete: "c \<notin> set a \<Longrightarrow> split_last c (b @ c # a) = Some (b, a)"
  by (induction b) (auto simp: split_last_None [THEN iffD2])

lemma split_last_Some: "split_last c s = Some (b, a) \<longleftrightarrow> s = b @ c # a \<and> c \<notin> set a"
  using split_last_sound split_last_complete by blast

fun strstr :: "string \<Rightarrow> string \<Rightarrow> bool" where
  "strstr [] p = (p = [])"
| "strstr (c # cs) p = (starts_with p (c # cs) \<or> strstr cs p)"

lemma strstr_iff: "strstr s p \<longleftrightarrow> (\<exists>a b. s = a @ p @ b)"
proof (induction s)
  case Nil
  then show ?case by auto
next
  case (Cons c cs)
  have "(\<exists>a b. c # cs = a @ p @ b) \<longleftrightarrow> (\<exists>b. c # cs = p @ b) \<or> (\<exists>a b. cs = a @ p @ b)"
    by (metis append_Cons append_Nil list.exhaust list.inject)
  with Cons show ?case by (simp add: starts_with_iff)
qed

section \<open>Numbers\<close>

text \<open>The characters for which \<open>isspace\<close> holds in the C locale.\<close>

definition is_space :: "char \<Rightarrow> bool" where
  "is_space c \<longleftrightarrow> c \<in> {CHR '' '', CHR 0x09, CHR 0x0A, CHR 0x0B, CHR 0x0C, CHR 0x0D}"

definition is_digit :: "char \<Rightarrow> bool" where
  "is_digit c \<longleftrightarrow> 48 \<le> (of_char c :: nat) \<and> (of_char c :: nat) \<le> 57"

definition digit_value :: "char \<Rightarrow> nat" where
  "digit_value c = of_char c - 48"

definition digits_value :: "string \<Rightarrow> nat" where
  "digits_value ds = foldl (\<lambda>n d. 10 * n + digit_value d) 0 ds"

text \<open>
  \<open>strtoul(s, &end, 10)\<close>: the value, whether \<open>errno\<close> is set, and the string at \<open>end\<close>, which
  is all of \<open>s\<close> when there are no digits. A minus sign negates the value in the unsigned type;
  a value that does not fit gives the largest one and \<open>ERANGE\<close>.
\<close>

definition strtoul :: "string \<Rightarrow> u64 \<times> bool \<times> string" where
  "strtoul s =
     (let t = dropWhile is_space s;
          (negative, t) = (case t of
              c # cs \<Rightarrow> if c = CHR ''-'' then (True, cs) else if c = CHR ''+'' then (False, cs)
                        else (False, t)
            | [] \<Rightarrow> (False, []));
          ds = takeWhile is_digit t;
          n = digits_value ds
      in if ds = [] then (0, False, s)
         else if 2 ^ 64 \<le> n then (- 1, True, dropWhile is_digit t)
         else (if negative then - of_nat n else of_nat n, False, dropWhile is_digit t))"

text \<open>\<open>%u\<close>, \<open>%llu\<close> and \<open>%zu\<close>.\<close>

fun decimal :: "nat \<Rightarrow> string" where
  "decimal n = (if n < 10 then [char_of (48 + n)] else decimal (n div 10) @ [char_of (48 + n mod 10)])"

declare decimal.simps [simp del]

lemma digit_char: "(d :: nat) < 10 \<Longrightarrow> (of_char (char_of (48 + d) :: char) :: nat) = 48 + d"
  by (simp add: of_char_of take_bit_eq_mod)

lemma digits_value_snoc: "digits_value (ds @ [d]) = 10 * digits_value ds + digit_value d"
  by (simp add: digits_value_def)

lemma digits_value_decimal: "digits_value (decimal n) = n"
proof (induction n rule: decimal.induct)
  case (1 n)
  then show ?case
    by (subst decimal.simps) (auto simp: digits_value_snoc digits_value_def digit_value_def digit_char)
qed

lemma decimal_digits: "\<forall>c \<in> set (decimal n). is_digit c"
proof (induction n rule: decimal.induct)
  case (1 n)
  then show ?case by (subst decimal.simps) (auto simp: is_digit_def digit_char)
qed

lemma decimal_not_empty [simp]: "decimal n \<noteq> []"
  by (subst decimal.simps) simp

lemma digit_not_special: "is_digit c \<Longrightarrow> \<not> is_space c \<and> c \<noteq> CHR ''-'' \<and> c \<noteq> CHR ''+'' \<and> c \<noteq> CHR '':''"
  by (auto simp: is_digit_def is_space_def)

text \<open>What \<open>strtoul\<close> reads back from a printed number.\<close>

lemma strtoul_decimal:
  assumes "n < 2 ^ 64"
  shows "strtoul (decimal n) = (of_nat n, False, [])"
proof -
  obtain c cs where d: "decimal n = c # cs" by (cases "decimal n") simp_all
  have c: "is_digit c" using decimal_digits [of n] d by simp
  have all: "takeWhile is_digit (decimal n) = decimal n" "dropWhile is_digit (decimal n) = []"
    using decimal_digits [of n] by (simp_all add: takeWhile_eq_all_conv dropWhile_eq_Nil_conv)
  have t: "dropWhile is_space (decimal n) = decimal n"
    using digit_not_special [OF c] by (simp add: d)
  have sign: "(case decimal n of
              c # cs \<Rightarrow> if c = CHR ''-'' then (True, cs) else if c = CHR ''+'' then (False, cs)
                        else (False, decimal n)
            | [] \<Rightarrow> (False, [])) = (False, decimal n)"
    using digit_not_special [OF c] by (simp add: d)
  show ?thesis
    unfolding strtoul_def t Let_def sign using assms by (simp add: all digits_value_decimal)
qed

lemma unat_of_nat_u64: "n < 2 ^ 64 \<Longrightarrow> unat (of_nat n :: u64) = n"
  by (simp add: unat_of_nat)

lemma unat_minus_of_nat:
  assumes "n < 2 ^ 64"
  shows "unat (- of_nat n :: u64) = (2 ^ 64 - n) mod 2 ^ 64"
proof -
  have "(of_nat (2 ^ 64 - n) :: u64) = of_nat (2 ^ 64) - of_nat n"
    by (rule of_nat_diff) (use assms in simp)
  also have "\<dots> = - of_nat n" by simp
  finally have "unat (- of_nat n :: u64) = unat (of_nat (2 ^ 64 - n) :: u64)" by (rule arg_cong [OF sym])
  then show ?thesis by (simp only: unat_of_nat) simp
qed

text \<open>The text that \<open>strtoul\<close> reads to the end without an error.\<close>

lemma strtoul_all:
  assumes "strtoul s = (v, False, [])"
  shows "\<exists>blanks sign digits. s = blanks @ sign @ digits \<and> list_all is_space blanks \<and>
     sign \<in> {[], ''+'', ''-''} \<and> (digits \<noteq> [] \<and> list_all is_digit digits \<or> s = []) \<and>
     digits_value digits < 2 ^ 64 \<and>
     v = (if sign = ''-'' then - of_nat (digits_value digits) else of_nat (digits_value digits))"
proof -
  define t where "t = dropWhile is_space s"
  define sign where "sign = (case t of c # cs \<Rightarrow> if c = CHR ''-'' \<or> c = CHR ''+'' then [c] else [] | [] \<Rightarrow> [])"
  define d where "d = drop (length sign) t"
  have t: "t = sign @ d" by (simp add: d_def sign_def split: list.split)
  have st: "(case t of
              c # cs \<Rightarrow> if c = CHR ''-'' then (True, cs) else if c = CHR ''+'' then (False, cs)
                        else (False, t)
            | [] \<Rightarrow> (False, [])) = (sign = ''-'', d)"
    by (auto simp: d_def sign_def split: list.split)
  have eq: "strtoul s = (if takeWhile is_digit d = [] then (0, False, s)
       else if 2 ^ 64 \<le> digits_value (takeWhile is_digit d) then (- 1, True, dropWhile is_digit d)
       else (if sign = ''-'' then - of_nat (digits_value (takeWhile is_digit d))
             else of_nat (digits_value (takeWhile is_digit d)), False, dropWhile is_digit d))"
    unfolding strtoul_def t_def [symmetric] Let_def st by simp
  have s: "s = takeWhile is_space s @ sign @ d"
    using takeWhile_dropWhile_id [of is_space s] t by (simp add: t_def [symmetric])
  show ?thesis
  proof (cases "takeWhile is_digit d = []")
    case True
    with eq assms have "s = []" "v = 0" by simp_all
    then show ?thesis by (intro exI [of _ "[]"]) (simp add: digits_value_def)
  next
    case False
    define R where "R = dropWhile is_digit d"
    define N where "N = digits_value (takeWhile is_digit d)"
    have "(if 2 ^ 64 \<le> N then (- 1, True, R)
        else (if sign = ''-'' then - of_nat N else of_nat N, False, R)) = (v, False, [])"
      using eq assms False by (simp only: R_def N_def if_False)
    then have r: "N < 2 ^ 64" "R = []" "v = (if sign = ''-'' then - of_nat N else of_nat N)"
      by (cases "2 ^ 64 \<le> N"; simp)+
    from r(2) have d: "takeWhile is_digit d = d" "list_all is_digit d"
      by (simp_all add: R_def dropWhile_eq_Nil_conv takeWhile_eq_all_conv list_all_iff)
    have "list_all is_space (takeWhile is_space s)"
      by (auto simp: list_all_iff dest: set_takeWhileD)
    moreover have "sign \<in> {[], ''+'', ''-''}" by (auto simp: sign_def split: list.split)
    ultimately show ?thesis using r False d s unfolding N_def d(1)
      by (intro exI [of _ "takeWhile is_space s"] exI [of _ sign] exI [of _ d]) auto
  qed
qed

end
