(* ===== verification/Udp_Url.thy ===== *)
theory Udp_Url
  imports C_Strings
begin

text \<open>
  The addresses the program takes: \<open>input_udp_parse_url\<close> and \<open>output_udp_parse_url\<close>
  (src/src/input_udp.c lines 13 to 45, src/src/output_udp.c lines 14 to 46) are the same code;
  so are the multicast test and the choice of the interface. \<open>inet_pton\<close> is not under src/:
  it is the argument \<open>pton\<close>, from the text to an address in host order.
\<close>

section \<open>The code\<close>

text \<open>
  \<open>None\<close> where the function returns -1 (the host buffer is not read then), else host and port.
  The comparison \<open>end == colon + 1\<close> of the pointers is the comparison of the strings there.
\<close>

definition url_address :: "string \<Rightarrow> string" where
  "url_address url = (if starts_with ''udp://'' url then drop 6 url else url)"

definition parse_udp_url :: "string \<Rightarrow> nat \<Rightarrow> (string \<times> u16) option" where
  "parse_udp_url url host_size =
     (case split_last CHR '':'' (url_address url) of
        None \<Rightarrow> None
      | Some (host, port_text) \<Rightarrow>
          if host = [] \<or> port_text = [] then None
          else if host_size \<le> length host then None
          else
            (case strtoul port_text of (parsed_port, range_error, rest) \<Rightarrow>
               if range_error \<or> rest = port_text \<or> rest \<noteq> [] \<or> 65535 < parsed_port then None
               else Some (host, ucast parsed_port)))"

definition input_udp_parse_url :: "string \<Rightarrow> nat \<Rightarrow> (string \<times> u16) option" where
  "input_udp_parse_url url host_size = parse_udp_url url host_size"

definition output_udp_parse_url :: "string \<Rightarrow> nat \<Rightarrow> (string \<times> u16) option" where
  "output_udp_parse_url url host_size = parse_udp_url url host_size"

definition is_multicast_address :: "u32 \<Rightarrow> bool" where
  "is_multicast_address host_order \<longleftrightarrow> 0xe0000000 \<le> host_order \<and> host_order \<le> 0xefffffff"

definition input_udp_is_multicast_host :: "(string \<Rightarrow> u32 option) \<Rightarrow> string \<Rightarrow> bool" where
  "input_udp_is_multicast_host pton host =
     (case pton host of None \<Rightarrow> False | Some address \<Rightarrow> is_multicast_address address)"

definition INADDR_ANY :: u32 where "INADDR_ANY = 0"

definition parse_interface_address :: "(string \<Rightarrow> u32 option) \<Rightarrow> string option \<Rightarrow> u32 option" where
  "parse_interface_address pton interface_address =
     (case interface_address of
        None \<Rightarrow> Some INADDR_ANY
      | Some i \<Rightarrow> if i = [] \<or> i = ''0.0.0.0'' \<or> i = ''*'' then Some INADDR_ANY else pton i)"

section \<open>Properties\<close>

text \<open>
  C34. Addresses are read back as they are written: from host and port, with or without the
  \<open>udp://\<close> in front, the parser returns exactly this host and this port, whatever characters
  the host has (colons included), as long as the host fits the buffer and, without the prefix,
  does not itself start with it. Both parsers do.
\<close>

theorem udp_url_roundtrip:
  assumes "host \<noteq> []" and "length host < host_size" and "port < 65536"
    and "prefix = ''udp://'' \<or> prefix = [] \<and> \<not> starts_with ''udp://'' (host @ '':'' @ decimal port)"
  shows "input_udp_parse_url (prefix @ host @ '':'' @ decimal port) host_size = Some (host, of_nat port) \<and>
         output_udp_parse_url (prefix @ host @ '':'' @ decimal port) host_size = Some (host, of_nat port)"
proof -
  have a: "url_address (prefix @ host @ '':'' @ decimal port) = host @ CHR '':'' # decimal port"
    using assms(4) by (auto simp: url_address_def)
  have "CHR '':'' \<notin> set (decimal port)"
    using decimal_digits [of port] digit_not_special by blast
  then have s: "split_last CHR '':'' (host @ CHR '':'' # decimal port) = Some (host, decimal port)"
    by (simp add: split_last_Some)
  have p: "unat (of_nat port :: u64) = port" using assms(3) by (simp add: unat_of_nat)
  have c: "ucast (of_nat port :: u64) = (of_nat port :: u16)"
    using assms(3) by (simp add: unsigned_of_nat take_bit_nat_eq_self)
  have "parse_udp_url (prefix @ host @ '':'' @ decimal port) host_size = Some (host, of_nat port)"
    using assms(1-3) strtoul_decimal [of port]
    by (simp add: parse_udp_url_def a [simplified] s c p word_less_nat_alt
        decimal_not_empty [symmetric])
  then show ?thesis by (simp_all add: input_udp_parse_url_def output_udp_parse_url_def)
qed


lemma udp_url_roundtrip_witness:
  "input_udp_parse_url ''udp://239.1.1.1:4500'' 128 = Some (''239.1.1.1'', 4500) \<and>
   output_udp_parse_url ''[::1]:80'' 128 = Some (''[::1]'', 80)"
proof -
  have d: "decimal 4500 = ''4500''" "decimal 80 = ''80''" by (simp_all add: decimal.simps char_of_def bit_0)
  show ?thesis
    using udp_url_roundtrip [of "''239.1.1.1''" 128 4500 "''udp://''"]
      udp_url_roundtrip [of "''[::1]''" 128 80 "[]"]
    by (simp add: d)
qed

text \<open>
  What the parser accepts: a text with a colon that has something on both sides; the host
  is all before the last colon and fits the buffer; and the port text is blanks, at most one
  sign and at least one digit. With no minus sign the port is the value of the digits, which is
  at most 65535; with one, the digits must stand for a number just below 2^64, which then counts
  as a small port (\<open>udp://h:-18446744073709551615\<close> is port 1).
\<close>

lemma udp_url_accepted:
  assumes "parse_udp_url url host_size = Some (host, port)"
  shows "host \<noteq> [] \<and> length host < host_size \<and>
     (\<exists>blanks sign digits. url_address url = host @ '':'' @ blanks @ sign @ digits \<and>
        list_all is_space blanks \<and> sign \<in> {[], ''+'', ''-''} \<and>
        digits \<noteq> [] \<and> list_all is_digit digits \<and>
        (if sign = ''-'' then unat port = (2 ^ 64 - digits_value digits) mod 2 ^ 64
         else unat port = digits_value digits))"
proof -
  obtain pt where sp: "url_address url = host @ CHR '':'' # pt"
      and host: "host \<noteq> []" "length host < host_size" and pt: "pt \<noteq> []"
      and ok: "\<exists>v. strtoul pt = (v, False, []) \<and> v \<le> 65535 \<and> port = ucast v"
    using assms by (auto simp: parse_udp_url_def split_last_Some not_less not_le
        split: option.splits prod.splits if_splits)
  then obtain v where v: "strtoul pt = (v, False, [])" "v \<le> 65535" "port = ucast v" by blast
  have small: "unat port = unat v" using v(2,3)
    by (simp add: unsigned_ucast_eq unsigned_take_bit_eq take_bit_nat_eq_self word_le_nat_alt)
  obtain blanks sign digits where
    t: "pt = blanks @ sign @ digits" "list_all is_space blanks" "sign \<in> {[], ''+'', ''-''}"
      "digits \<noteq> [] \<and> list_all is_digit digits \<or> pt = []" "digits_value digits < 2 ^ 64"
      "v = (if sign = ''-'' then - of_nat (digits_value digits) else of_nat (digits_value digits))"
    using strtoul_all [OF v(1)] by (elim exE conjE) (rule that)
  have "if sign = ''-'' then unat v = (2 ^ 64 - digits_value digits) mod 2 ^ 64
         else unat v = digits_value digits"
    unfolding t(6) using unat_minus_of_nat [OF t(5)] unat_of_nat_u64 [OF t(5)]
    by (cases "sign = ''-''") (simp_all only: if_True if_False refl simp_thms)
  with small have "if sign = ''-'' then unat port = (2 ^ 64 - digits_value digits) mod 2 ^ 64
         else unat port = digits_value digits" by (simp only:)
  moreover have "url_address url = host @ '':'' @ blanks @ sign @ digits" using sp t(1) by simp
  moreover have "digits \<noteq> []" "list_all is_digit digits" using t(4) pt by blast+
  ultimately show ?thesis using host t(2,3)
    by (intro conjI exI [of _ blanks] exI [of _ sign] exI [of _ digits])
qed

lemma udp_url_accepted_witness:
  "parse_udp_url ''udp://h:-18446744073709551615'' 128 = Some (''h'', 1) \<and>
   (\<exists>blanks sign digits. ''h:-18446744073709551615'' = ''h'' @ '':'' @ blanks @ sign @ digits \<and>
      digits \<noteq> [])"
proof -
  have p: "parse_udp_url ''udp://h:-18446744073709551615'' 128 = Some (''h'', 1)"
    by (simp add: parse_udp_url_def url_address_def strtoul_def is_space_def is_digit_def
        digits_value_def digit_value_def)
  have a: "url_address ''udp://h:-18446744073709551615'' = ''h:-18446744073709551615''"
    by (simp add: url_address_def)
  show ?thesis using udp_url_accepted [OF p] p unfolding a by (elim conjE exE) (intro conjI exI)
qed

end
