(* ===== verification/Os_Calls.thy ===== *)
theory Os_Calls
  imports Prelude
begin

text \<open>
  The system calls by which the program gets and releases its sockets (src/src/input_udp.c,
  src/src/output_udp.c, src/src/web_server.c). What a call returns is the environment's choice:
  \<open>os_reply n\<close> for the \<open>n\<close>-th call. The trace of calls and results tells which descriptors
  are open and whether a call was given one that is not.
\<close>

datatype socket_option =
    Reuse_Addr | Reuse_Port | Add_Membership u32 u32 | Drop_Membership u32 u32

datatype os_call =
    Sys_socket_dgram
  | Sys_socket_stream
  | Sys_accept int
  | Sys_setsockopt int socket_option
  | Sys_bind int u32 u16
  | Sys_listen int nat
  | Sys_getfl int
  | Sys_setfl_nonblock int
  | Sys_select_readable int
  | Sys_close int

type_synonym os_trace = "(os_call \<times> int) list"

record os =
  os_reply :: "nat \<Rightarrow> int"
  os_trace :: os_trace

definition os_do :: "os_call \<Rightarrow> os \<Rightarrow> int \<times> os" where
  "os_do c s =
     (let r = os_reply s (length (os_trace s))
      in (r, s\<lparr>os_trace := os_trace s @ [(c, r)]\<rparr>))"

section \<open>Descriptors\<close>

text \<open>The open descriptors after a call; a descriptor that is returned twice counts twice.\<close>

fun descriptors_step :: "os_call \<times> int \<Rightarrow> int list \<Rightarrow> int list" where
  "descriptors_step (Sys_socket_dgram, r) fds = (if 0 \<le> r then r # fds else fds)"
| "descriptors_step (Sys_socket_stream, r) fds = (if 0 \<le> r then r # fds else fds)"
| "descriptors_step (Sys_accept fd, r) fds = (if 0 \<le> r then r # fds else fds)"
| "descriptors_step (Sys_close fd, r) fds = remove1 fd fds"
| "descriptors_step (c, r) fds = fds"

fun call_descriptor :: "os_call \<Rightarrow> int option" where
  "call_descriptor Sys_socket_dgram = None"
| "call_descriptor Sys_socket_stream = None"
| "call_descriptor (Sys_accept fd) = Some fd"
| "call_descriptor (Sys_setsockopt fd opt) = Some fd"
| "call_descriptor (Sys_bind fd addr port) = Some fd"
| "call_descriptor (Sys_listen fd backlog) = Some fd"
| "call_descriptor (Sys_getfl fd) = Some fd"
| "call_descriptor (Sys_setfl_nonblock fd) = Some fd"
| "call_descriptor (Sys_select_readable fd) = Some fd"
| "call_descriptor (Sys_close fd) = Some fd"

definition descriptors :: "os_trace \<Rightarrow> int list \<Rightarrow> int list" where
  "descriptors t fds = fold descriptors_step t fds"

text \<open>Every call of the trace is given a descriptor that is open at that moment.\<close>

fun uses_open :: "os_trace \<Rightarrow> int list \<Rightarrow> bool" where
  "uses_open [] fds = True"
| "uses_open ((c, r) # t) fds =
     ((case call_descriptor c of None \<Rightarrow> True | Some fd \<Rightarrow> fd \<in> set fds) \<and>
      uses_open t (descriptors_step (c, r) fds))"

lemma descriptors_simps [simp]:
  "descriptors [] fds = fds"
  "descriptors (cr # t) fds = descriptors t (descriptors_step cr fds)"
  "descriptors (t @ u) fds = descriptors u (descriptors t fds)"
  by (simp_all add: descriptors_def)

lemma uses_open_append [simp]:
  "uses_open (t @ u) fds \<longleftrightarrow> uses_open t fds \<and> uses_open u (descriptors t fds)"
  by (induction t fds rule: uses_open.induct) auto

section \<open>What an operation does with descriptors\<close>

text \<open>
  \<open>acquires s s' opened\<close>: from \<open>s\<close> to \<open>s'\<close> only open descriptors were used, and at the end the
  descriptors \<open>opened\<close> are open in addition to those before, whichever these were;
  \<open>releases s s' fd\<close>: \<open>fd\<close>, open before, is closed.
\<close>

definition acquires :: "os \<Rightarrow> os \<Rightarrow> int list \<Rightarrow> bool" where
  "acquires s s' opened \<longleftrightarrow>
     (\<exists>t. os_trace s' = os_trace s @ t \<and> os_reply s' = os_reply s \<and>
        (\<forall>fds. uses_open t fds \<and> descriptors t fds = opened @ fds))"

definition runs_on :: "int \<Rightarrow> os \<Rightarrow> os \<Rightarrow> int list \<Rightarrow> bool" where
  "runs_on fd s s' opened \<longleftrightarrow>
     (\<exists>t. os_trace s' = os_trace s @ t \<and> os_reply s' = os_reply s \<and>
        (\<forall>fds. uses_open t (fd # fds) \<and> descriptors t (fd # fds) = opened @ fds))"

lemma acquires_refl: "acquires s s []"
  by (auto simp: acquires_def)

lemma runs_on_refl: "runs_on fd s s [fd]"
  by (auto simp: runs_on_def)

lemma runs_on_step:
  assumes "os_do c s = (r, s')" and "call_descriptor c = Some fd"
    and "\<And>fds. descriptors_step (c, r) (fd # fds) = opened @ fds"
  shows "runs_on fd s s' opened"
  using assms unfolding runs_on_def
  by (intro exI [of _ "[(c, r)]"]) (auto simp: os_do_def Let_def)

lemma runs_on_trans:
  assumes "runs_on fd s s' [fd]" and "runs_on fd s' s'' opened"
  shows "runs_on fd s s'' opened"
  using assms unfolding runs_on_def by fastforce

lemma acquires_then:
  assumes "acquires s s' [fd]" and "runs_on fd s' s'' opened"
  shows "acquires s s'' opened"
  using assms unfolding acquires_def runs_on_def by fastforce

lemma acquires_trans:
  assumes "acquires s s' a" and "acquires s' s'' b"
  shows "acquires s s'' (b @ a)"
  using assms unfolding acquires_def by fastforce

end
