(* ===== verification/Output_Udp.thy ===== *)
theory Output_Udp
  imports Packet_Sink
begin

text \<open>
  The UDP output (src/src/output_udp.c, src/src/output_udp.h): seven transport packets are
  collected in \<open>pending\<close> and sent as one datagram of 1316 bytes.

  The socket descriptor and the destination (host order) are \<open>out_fd\<close> and \<open>out_addr\<close>, which is
  \<open>None\<close> for a null pointer. The system is the environment: \<open>sendto_result n\<close> is what the \<open>n\<close>-th call of
  \<open>sendto\<close> returns, and the model records every datagram the system took in full. The
  properties: the datagrams are always 1316 bytes and together with the pending packets are
  exactly the packets sent, in order; a flush never emits a short datagram; and a failed
  datagram blocks the output.
\<close>

definition OUTPUT_TS_PACKETS_PER_DATAGRAM :: nat where "OUTPUT_TS_PACKETS_PER_DATAGRAM = 7"

definition OUTPUT_UDP_PAYLOAD_BYTES :: nat where
  "OUTPUT_UDP_PAYLOAD_BYTES = TS_PACKET_SIZE * OUTPUT_TS_PACKETS_PER_DATAGRAM"

record output_udp =
  out_fd :: int
  out_addr :: "(u32 \<times> u16) option"
  pending :: bytes
  pending_packets :: nat
  sendto_result :: "nat \<Rightarrow> int"
  sendto_calls :: nat
  datagrams :: "bytes list"

lemmas output_sizes = OUTPUT_TS_PACKETS_PER_DATAGRAM_def OUTPUT_UDP_PAYLOAD_BYTES_def TS_PACKET_SIZE_def

text \<open>The system call: one result is used up; a full result means the datagram is out.\<close>

definition sendto :: "output_udp \<Rightarrow> bytes \<Rightarrow> int \<times> output_udp" where
  "sendto out payload =
     (let sent = sendto_result out (sendto_calls out)
      in (sent, out\<lparr>sendto_calls := Suc (sendto_calls out),
                    datagrams := (if sent = int (length payload) then datagrams out @ [payload]
                                  else datagrams out)\<rparr>))"

definition output_udp_flush :: "output_udp \<Rightarrow> int \<times> output_udp" where
  "output_udp_flush out =
     (if pending_packets out = 0 then (0, out)
      else if pending_packets out \<noteq> OUTPUT_TS_PACKETS_PER_DATAGRAM
      then (0, out\<lparr>pending_packets := 0\<rparr>)
      else
        (case sendto out (take OUTPUT_UDP_PAYLOAD_BYTES (pending out)) of (sent, out) \<Rightarrow>
           if sent < 0 \<or> sent \<noteq> int OUTPUT_UDP_PAYLOAD_BYTES then (-1, out)
           else (0, out\<lparr>pending_packets := 0\<rparr>)))"

text \<open>\<open>memcpy(pending + k * 188, packet, 188)\<close>\<close>

definition write_at :: "bytes \<Rightarrow> nat \<Rightarrow> bytes \<Rightarrow> bytes" where
  "write_at buf off src = take off buf @ src @ drop (off + length src) buf"

definition output_udp_send_ts_packet :: "output_udp \<Rightarrow> bytes \<Rightarrow> int \<times> output_udp" where
  "output_udp_send_ts_packet out packet =
     (if OUTPUT_TS_PACKETS_PER_DATAGRAM \<le> pending_packets out then (-1, out)
      else
        let out = out\<lparr>pending := write_at (pending out) (pending_packets out * TS_PACKET_SIZE)
                                  (take TS_PACKET_SIZE packet),
                      pending_packets := Suc (pending_packets out)\<rparr>
        in if pending_packets out = OUTPUT_TS_PACKETS_PER_DATAGRAM then output_udp_flush out
           else (0, out))"

definition output_udp_as_packet_sink :: "output_udp \<Rightarrow> output_udp packet_sink" where
  "output_udp_as_packet_sink out =
     \<lparr>sink_ctx = out, send_fn = output_udp_send_ts_packet, flush_fn = Some output_udp_flush\<rparr>"

text \<open>
  What \<open>output_udp_open\<close> leaves when it succeeds: everything but the socket and the
  destination zeroed.
\<close>

definition output_udp_opened :: "int \<Rightarrow> (u32 \<times> u16) option \<Rightarrow> (nat \<Rightarrow> int) \<Rightarrow> output_udp" where
  "output_udp_opened fd addr results =
     \<lparr>out_fd = fd, out_addr = addr, pending = replicate OUTPUT_UDP_PAYLOAD_BYTES 0, pending_packets = 0,
      sendto_result = results, sendto_calls = 0, datagrams = []\<rparr>"

section \<open>The stream of packets the output has accepted\<close>

text \<open>
  \<open>out_sane\<close>: the buffer has its size, at most six packets wait unless a send has
  failed, and every datagram has seven packets. \<open>out_bytes\<close> is what the receiver got,
  followed by what still waits; \<open>out_accepted\<close> cuts it into packets.
\<close>

definition out_sane :: "output_udp \<Rightarrow> bool" where
  "out_sane out \<longleftrightarrow> length (pending out) = OUTPUT_UDP_PAYLOAD_BYTES \<and> pending_packets out \<le> 7 \<and>
     (\<forall>d \<in> set (datagrams out). length d = OUTPUT_UDP_PAYLOAD_BYTES)"

definition out_bytes :: "output_udp \<Rightarrow> bytes" where
  "out_bytes out = concat (datagrams out) @ take (pending_packets out * TS_PACKET_SIZE) (pending out)"

fun chop :: "bytes \<Rightarrow> bytes list" where
  "chop bs = (if length bs < 188 then [] else take 188 bs # chop (drop 188 bs))"

declare chop.simps [simp del]

definition out_accepted :: "output_udp \<Rightarrow> bytes list" where
  "out_accepted out = chop (out_bytes out)"

lemma chop_append:
  "188 dvd length bs \<Longrightarrow> length p = 188 \<Longrightarrow> chop (bs @ p) = chop bs @ [p]"
proof (induction bs rule: chop.induct)
  case (1 bs)
  show ?case
  proof (cases "length bs < 188")
    case True
    with "1.prems" have "bs = []" by (auto dest: nat_dvd_not_less)
    with "1.prems" show ?thesis by (simp add: chop.simps [of p] chop.simps [of "[]"])
  next
    case False
    with 1 have "chop (drop 188 bs @ p) = chop (drop 188 bs) @ [p]" by simp
    with False show ?thesis
      by (simp add: chop.simps [of "bs @ p"] chop.simps [of bs])
  qed
qed

lemma concat_chop: "188 dvd length bs \<Longrightarrow> concat (chop bs) = bs"
proof (induction bs rule: chop.induct)
  case (1 bs)
  show ?case
  proof (cases "length bs < 188")
    case True
    with "1.prems" have "bs = []" by (auto dest: nat_dvd_not_less)
    then show ?thesis by (simp add: chop.simps)
  next
    case False
    with 1 show ?thesis by (simp add: chop.simps [of bs])
  qed
qed

lemma length_concat_same:
  "\<forall>d \<in> set ds. length d = n \<Longrightarrow> length (concat ds) = n * length ds"
  by (induction ds) auto

lemma out_bytes_length: "out_sane out \<Longrightarrow> 188 dvd length (out_bytes out)"
  using length_concat_same [of "datagrams out" 1316]
  by (auto simp: out_sane_def out_bytes_def output_sizes min_def dvd_add_left_iff)

lemma take_write_at:
  assumes "off + length src \<le> length buf"
  shows "take (off + length src) (write_at buf off src) = take off buf @ src"
    and "length (write_at buf off src) = length buf"
  using assms by (simp_all add: write_at_def)

text \<open>
  One send: on success the byte stream grows by exactly the packet, whether the packet
  waits in the buffer or completes a datagram.
\<close>

lemma output_udp_send_bytes:
  assumes "out_sane out" and "length p = 188" and "output_udp_send_ts_packet out p = (0, out')"
  shows "out_bytes out' = out_bytes out @ p"
proof -
  let ?k = "pending_packets out"
  have k: "?k < 7" using assms(3)
    by (auto simp: output_udp_send_ts_packet_def output_sizes split: if_splits)
  have len: "length (pending out) = 1316" using assms(1) by (simp add: out_sane_def output_sizes)
  then have fits: "?k * 188 + length p \<le> length (pending out)" using k assms(2) by simp
  note w = take_write_at [OF fits]
  show ?thesis
  proof (cases "?k = 6")
    case True
    have "take 1316 (write_at (pending out) 1128 p) = take 1128 (pending out) @ p"
      using w True assms(2) by simp
    then show ?thesis using assms(2,3) True len
      by (auto simp: output_udp_send_ts_packet_def output_udp_flush_def sendto_def out_bytes_def
          output_sizes Let_def split: if_splits)
  next
    case False
    have "take ((?k + 1) * 188) (write_at (pending out) (?k * 188) p) = take (?k * 188) (pending out) @ p"
      using w(1) assms(2) by (simp add: algebra_simps)
    then show ?thesis using assms(2,3) False k
      by (auto simp: output_udp_send_ts_packet_def out_bytes_def output_sizes Let_def
          algebra_simps split: if_splits)
  qed
qed

lemma output_udp_send_sane:
  assumes "out_sane out" and "length p = 188" and "output_udp_send_ts_packet out p = (r, out')"
  shows "out_sane out' \<and> (r = 0 \<longrightarrow> pending_packets out' < 7)"
proof (cases "7 \<le> pending_packets out")
  case True
  then show ?thesis using assms by (auto simp: output_udp_send_ts_packet_def output_sizes)
next
  case False
  have "length (write_at (pending out) (pending_packets out * 188) p) = 1316"
    using False assms by (subst take_write_at(2)) (auto simp: out_sane_def output_sizes)
  then show ?thesis using False assms
    by (auto simp: output_udp_send_ts_packet_def output_udp_flush_def sendto_def out_sane_def
        output_sizes Let_def split: if_splits)
qed

text \<open>The output keeps the promise the recovery engine relies on.\<close>

interpretation udp_sink: ts_sink output_udp_send_ts_packet out_accepted out_sane
proof
  fix s s' :: output_udp and p :: bytes and r :: int
  assume sane: "out_sane s" and len: "length p = TS_PACKET_SIZE"
  have len': "length p = 188" using len by (simp add: output_sizes)
  {
    assume "output_udp_send_ts_packet s p = (0, s')"
    then show "out_accepted s' = out_accepted s @ [p]"
      using output_udp_send_bytes [OF sane len'] chop_append [OF out_bytes_length [OF sane] len']
      by (simp add: out_accepted_def)
  next
    assume "output_udp_send_ts_packet s p = (r, s')"
    then show "out_sane s'" using output_udp_send_sane [OF sane len'] by blast
  }
qed

text \<open>A datagram that the system refuses stays in the buffer with its last packet.\<close>

lemma output_udp_send_stream:
  assumes "out_sane out" and "length p = 188" and "output_udp_send_ts_packet out p = (r, out')"
  shows "out_bytes out' = out_bytes out \<or> out_bytes out' = out_bytes out @ p"
proof (cases "r = 0")
  case True
  then show ?thesis using output_udp_send_bytes assms by blast
next
  case False
  show ?thesis
  proof (cases "pending_packets out = 6")
    case True
    have len: "length (pending out) = 1316" using assms(1) by (simp add: out_sane_def output_sizes)
    have "take 1316 (write_at (pending out) 1128 p) = take 1128 (pending out) @ p"
      "length (write_at (pending out) 1128 p) = 1316"
      using take_write_at [of 1128 p "pending out"] assms(2) len by simp_all
    then show ?thesis using assms(2,3) True False len
      by (auto simp: output_udp_send_ts_packet_def output_udp_flush_def sendto_def out_bytes_def
          output_sizes Let_def split: if_splits)
  next
    case other: False
    then show ?thesis using assms(3) False
      by (auto simp: output_udp_send_ts_packet_def output_sizes Let_def split: if_splits)
  qed
qed

lemma chop_prefix: "188 dvd length bs \<Longrightarrow> set (chop bs) \<subseteq> set (chop (bs @ cs))"
proof (induction bs rule: chop.induct)
  case (1 bs)
  show ?case
  proof (cases "length bs < 188")
    case True
    with "1.prems" have "bs = []" by (auto dest: nat_dvd_not_less)
    then show ?thesis by (simp add: chop.simps [of "[]"])
  next
    case False
    with 1 have "set (chop (drop 188 bs)) \<subseteq> set (chop (drop 188 bs @ cs))" by simp
    with False show ?thesis
      by (auto simp: chop.simps [of "bs @ cs"] chop.simps [of bs])
  qed
qed

lemma output_udp_flush_stream:
  assumes "out_sane out" and "output_udp_flush out = (r, out')"
  shows "out_sane out' \<and> (out_bytes out' = out_bytes out \<or> out_bytes out' = concat (datagrams out))"
  using assms
  by (auto simp: output_udp_flush_def sendto_def out_sane_def out_bytes_def output_sizes Let_def
      split: if_splits)

interpretation udp_faithful: ts_sink_faithful output_udp_send_ts_packet out_accepted out_sane output_udp_flush
proof
  fix s s' :: output_udp and p :: bytes and r :: int
  assume sane: "out_sane s"
  show "set (out_accepted s') \<subseteq> insert p (set (out_accepted s))"
    if len: "length p = TS_PACKET_SIZE" and send: "output_udp_send_ts_packet s p = (r, s')"
  proof -
    from len have len': "length p = 188" by (simp add: output_sizes)
    from output_udp_send_stream [OF sane len' send] chop_append [OF out_bytes_length [OF sane] len']
    show ?thesis by (auto simp: out_accepted_def)
  qed
  show "out_sane s'" if "output_udp_flush s = (r, s')"
    using output_udp_flush_stream [OF sane that] by blast
  show "set (out_accepted s') \<subseteq> set (out_accepted s)" if f: "output_udp_flush s = (r, s')"
  proof -
    have "188 dvd length (concat (datagrams s))"
      using sane length_concat_same [of "datagrams s" 1316] by (simp add: out_sane_def output_sizes)
    from chop_prefix [OF this, of "take (pending_packets s * TS_PACKET_SIZE) (pending s)"]
    have "set (chop (concat (datagrams s))) \<subseteq> set (chop (out_bytes s))" by (simp add: out_bytes_def)
    with output_udp_flush_stream [OF sane f] show ?thesis by (auto simp: out_accepted_def)
  qed
qed

lemma send_list_pending:
  assumes "send_list output_udp_send_ts_packet out ps = (0, out')"
    and "out_sane out" and "\<forall>p \<in> set ps. length p = 188" and "pending_packets out < 7"
  shows "pending_packets out' < 7"
  using assms
proof (induction ps arbitrary: out)
  case Nil
  then show ?case by simp
next
  case (Cons p ps)
  obtain r t where t: "output_udp_send_ts_packet out p = (r, t)" by fastforce
  with Cons.prems(1) have "r = 0" and rest: "send_list output_udp_send_ts_packet t ps = (0, out')"
    by (auto split: if_splits)
  with output_udp_send_sane [OF Cons.prems(2) _ t] Cons.prems(3)
  have "out_sane t" "pending_packets t < 7" by auto
  with Cons.IH [OF rest] Cons.prems(3) show ?case by simp
qed

lemma output_udp_opened_sane: "out_sane (output_udp_opened fd addr results)"
  by (simp add: out_sane_def output_udp_opened_def output_sizes)

text \<open>
  C23. Whatever packets are sent through a freshly opened output, as long as every send
  succeeds: each datagram that left has exactly 1316 bytes, there are as many as whole
  groups of seven packets, and the datagrams followed by the packets still waiting are
  the packets sent, in order.
\<close>

theorem output_udp_stream:
  assumes "send_list output_udp_send_ts_packet (output_udp_opened fd addr results) ps = (0, out)"
    and "\<forall>p \<in> set ps. length p = 188"
  shows "(\<forall>d \<in> set (datagrams out). length d = 1316) \<and>
         length (datagrams out) = length ps div 7 \<and>
         concat (datagrams out) @ take (pending_packets out * 188) (pending out) = concat ps"
proof -
  have "out_accepted (output_udp_opened fd addr results) = []"
    by (simp add: out_accepted_def out_bytes_def output_udp_opened_def chop.simps)
  then have acc: "out_accepted out = ps" and sane: "out_sane out"
    using udp_sink.send_list_accepts [OF output_udp_opened_sane _ assms(1)] assms(2)
    by (auto simp: output_sizes)
  have bytes: "out_bytes out = concat ps"
    using acc concat_chop [OF out_bytes_length [OF sane]] by (simp add: out_accepted_def)
  have pend: "pending_packets out < 7"
    by (rule send_list_pending [OF assms(1) output_udp_opened_sane assms(2)])
      (simp add: output_udp_opened_def)
  have dlen: "\<forall>d \<in> set (datagrams out). length d = 1316"
    using sane by (simp add: out_sane_def output_sizes)
  have "1316 * length (datagrams out) + 188 * pending_packets out = 188 * length ps"
    using arg_cong [OF bytes, of length] pend sane length_concat_same [OF dlen]
      length_concat_same [OF assms(2)]
    by (simp add: out_bytes_def out_sane_def output_sizes)
  then have "length ps = 7 * length (datagrams out) + pending_packets out" by simp
  with pend have "length ps div 7 = length (datagrams out)" by simp
  with dlen bytes show ?thesis by (simp add: out_bytes_def output_sizes)
qed

lemma output_udp_stream_witness:
  "\<exists>out. send_list output_udp_send_ts_packet (output_udp_opened 3 (Some (0x7f000001, 4500)) (\<lambda>_. 1316))
            (replicate 8 (replicate 188 0)) = (0, out) \<and> length (datagrams out) = 1"
proof -
  have run: "fst (send_list output_udp_send_ts_packet (output_udp_opened 3 (Some (0x7f000001, 4500)) (\<lambda>_. 1316))
            (replicate 8 (replicate 188 0))) = 0"
    by (simp add: output_udp_send_ts_packet_def output_udp_flush_def sendto_def output_udp_opened_def
        output_sizes Let_def numeral_eq_Suc write_at_def)
  then show ?thesis
    using output_udp_stream [of 3 "Some (0x7f000001, 4500)" "\<lambda>_. 1316" "replicate 8 (replicate 188 0)"]
    by (cases "send_list output_udp_send_ts_packet (output_udp_opened 3 (Some (0x7f000001, 4500)) (\<lambda>_. 1316))
            (replicate 8 (replicate 188 0))") auto
qed



end
