(* ===== verification/Udp_Sockets.thy ===== *)
theory Udp_Sockets
  imports Udp_Url Os_Calls Output_Udp
begin

text \<open>
  Opening and closing the UDP sockets (src/src/input_udp.c lines 81 to 202, src/src/output_udp.c
  lines 48 to 85 and 146 to 154). The messages on stderr are left out. The flags of
  \<open>fcntl\<close> are only passed through, so \<open>Sys_setfl_nonblock\<close> does not mention them.
\<close>

section \<open>The input\<close>

record input_udp =
  in_fd :: int
  joined_multicast :: bool
  multicast_request :: "u32 \<times> u32"
  in_url :: string
  in_interface_address :: string

definition fresh_input :: input_udp where
  "fresh_input = \<lparr>in_fd = -1, joined_multicast = False, multicast_request = (0, 0),
                  in_url = [], in_interface_address = []\<rparr>"

definition input_udp_close :: "input_udp \<Rightarrow> os \<Rightarrow> input_udp \<times> os" where
  "input_udp_close input s =
     (if 0 \<le> in_fd input then
        let (input, s) =
              (if joined_multicast input
               then (input\<lparr>joined_multicast := False\<rparr>,
                     snd (os_do (Sys_setsockopt (in_fd input)
                            (Drop_Membership (fst (multicast_request input))
                                             (snd (multicast_request input)))) s))
               else (input, s));
            (_, s) = os_do (Sys_close (in_fd input)) s
        in (input\<lparr>in_fd := -1\<rparr>, s)
      else (input, s))"

text \<open>The repeated \<open>input_udp_close(input); return -1;\<close>\<close>

definition abandon_input :: "input_udp \<Rightarrow> os \<Rightarrow> int \<times> input_udp \<times> os" where
  "abandon_input input s = (-1, input_udp_close input s)"

text \<open>Lines 168 to 179: the last step.\<close>

definition finish_input ::
    "string \<Rightarrow> string option \<Rightarrow> input_udp \<Rightarrow> os \<Rightarrow> int \<times> input_udp \<times> os" where
  "finish_input url interface_address input s =
     (case os_do (Sys_getfl (in_fd input)) s of (flags, s) \<Rightarrow>
        if flags < 0 then abandon_input input s
        else
          (case os_do (Sys_setfl_nonblock (in_fd input)) s of (r, s) \<Rightarrow>
             if r \<noteq> 0 then abandon_input input s
             else (0, input\<lparr>in_url := take 255 url,
                            in_interface_address :=
                              (case interface_address of None \<Rightarrow> in_interface_address input
                               | Some i \<Rightarrow> take 63 i)\<rparr>, s)))"

text \<open>Lines 150 to 166: joining a multicast group.\<close>

definition join_input ::
    "(string \<Rightarrow> u32 option) \<Rightarrow> string option \<Rightarrow> u32 \<Rightarrow> input_udp \<Rightarrow> os \<Rightarrow> int \<times> input_udp \<times> os" where
  "join_input pton interface_address input_address input s =
     (case parse_interface_address pton interface_address of
        None \<Rightarrow> abandon_input input s
      | Some multicast_interface \<Rightarrow>
          let input = input\<lparr>multicast_request := (input_address, multicast_interface)\<rparr>
          in (case os_do (Sys_setsockopt (in_fd input)
                            (Add_Membership input_address multicast_interface)) s of (r, s) \<Rightarrow>
                if r \<noteq> 0 then abandon_input input s
                else (0, input\<lparr>joined_multicast := True\<rparr>, s)))"

text \<open>Lines 121 to 179: the socket exists.\<close>

definition set_up_input ::
    "(string \<Rightarrow> u32 option) \<Rightarrow> string \<Rightarrow> string option \<Rightarrow> string \<Rightarrow> u16 \<Rightarrow> u32 \<Rightarrow> input_udp \<Rightarrow> os
     \<Rightarrow> int \<times> input_udp \<times> os" where
  "set_up_input pton url interface_address host port input_address input s =
     (let is_multicast_input = is_multicast_address input_address in
      case os_do (Sys_setsockopt (in_fd input) Reuse_Addr) s of (r, s) \<Rightarrow>
        if r \<noteq> 0 then abandon_input input s
        else
      case os_do (Sys_setsockopt (in_fd input) Reuse_Port) s of (r, s) \<Rightarrow>
        if r \<noteq> 0 then abandon_input input s
        else
      case os_do (Sys_bind (in_fd input)
                   (if is_multicast_input \<or> host = ''0.0.0.0'' \<or> host = ''*'' then INADDR_ANY
                    else input_address) port) s of (r, s) \<Rightarrow>
        if r \<noteq> 0 then abandon_input input s
        else
      case (if is_multicast_input then join_input pton interface_address input_address input s
            else (0, input, s)) of (rc, input, s) \<Rightarrow>
        if rc \<noteq> 0 then (-1, input, s)
        else finish_input url interface_address input s)"

definition input_udp_open_with_interface ::
    "(string \<Rightarrow> u32 option) \<Rightarrow> string \<Rightarrow> string option \<Rightarrow> os \<Rightarrow> int \<times> input_udp \<times> os" where
  "input_udp_open_with_interface pton url interface_address s =
     (case input_udp_parse_url url 128 of
        None \<Rightarrow> (-1, fresh_input, s)
      | Some (host, port) \<Rightarrow>
          (case (if host = ''0.0.0.0'' \<or> host = ''*'' then Some INADDR_ANY else pton host) of
             None \<Rightarrow> (-1, fresh_input, s)
           | Some input_address \<Rightarrow>
               (case os_do Sys_socket_dgram s of (fd, s) \<Rightarrow>
                  let input = fresh_input\<lparr>in_fd := fd\<rparr>
                  in if fd < 0 then (-1, input, s)
                     else set_up_input pton url interface_address host port input_address input s)))"

definition input_udp_open :: "(string \<Rightarrow> u32 option) \<Rightarrow> string \<Rightarrow> os \<Rightarrow> int \<times> input_udp \<times> os" where
  "input_udp_open pton url s = input_udp_open_with_interface pton url None s"

text \<open>
  \<open>recv\<close> with a result of its own: the datagram, cut to the size of the buffer by the system,
  the \<open>EAGAIN\<close> or \<open>EWOULDBLOCK\<close> of a socket with nothing to read, or another error.
\<close>

datatype recv_result = Received bytes | Would_Block | Recv_Error

definition input_udp_receive :: "recv_result \<Rightarrow> nat \<Rightarrow> int \<times> bytes" where
  "input_udp_receive r buffer_size =
     (case r of
        Received d \<Rightarrow> (int (length (take buffer_size d)), take buffer_size d)
      | Would_Block \<Rightarrow> (0, [])
      | Recv_Error \<Rightarrow> (-1, []))"

section \<open>The output\<close>

text \<open>The zeroed struct; the results of \<open>sendto\<close> come from the environment.\<close>

definition fresh_output :: "(nat \<Rightarrow> int) \<Rightarrow> output_udp" where
  "fresh_output results = output_udp_opened (-1) None results"

definition output_udp_close :: "output_udp \<Rightarrow> os \<Rightarrow> output_udp \<times> os" where
  "output_udp_close out s =
     (let (out, s) = (if 0 \<le> out_fd out
                      then (out\<lparr>out_fd := -1\<rparr>, snd (os_do (Sys_close (out_fd out)) s))
                      else (out, s))
      in (out\<lparr>out_addr := None\<rparr>, s))"

text \<open>\<open>alloc_ok\<close> tells whether \<open>calloc\<close> succeeds.\<close>

definition output_udp_open ::
    "(string \<Rightarrow> u32 option) \<Rightarrow> bool \<Rightarrow> (nat \<Rightarrow> int) \<Rightarrow> string \<Rightarrow> os \<Rightarrow> int \<times> output_udp \<times> os" where
  "output_udp_open pton alloc_ok results url s =
     (let out = fresh_output results in
      if \<not> alloc_ok then (-1, out, s)
      else
        let out = out\<lparr>out_addr := Some (0, 0)\<rparr> in
        (case output_udp_parse_url url 128 of
           None \<Rightarrow> (-1, output_udp_close out s)
         | Some (host, port) \<Rightarrow>
             (case os_do Sys_socket_dgram s of (fd, s) \<Rightarrow>
                let out = out\<lparr>out_fd := fd\<rparr>
                in if fd < 0 then (-1, output_udp_close out s)
                   else
                     (case pton host of
                        None \<Rightarrow> (-1, output_udp_close (out\<lparr>out_addr := Some (0, port)\<rparr>) s)
                      | Some address \<Rightarrow> (0, out\<lparr>out_addr := Some (address, port)\<rparr>, s)))))"

section \<open>No descriptor is lost\<close>

lemma input_close_runs:
  assumes "input_udp_close input s = (input', s')" and "0 \<le> in_fd input"
  shows "runs_on (in_fd input) s s' [] \<and> in_fd input' = -1"
proof -
  obtain r1 s1 where leave: "os_do (Sys_setsockopt (in_fd input)
      (Drop_Membership (fst (multicast_request input)) (snd (multicast_request input)))) s = (r1, s1)"
    by fastforce
  obtain r2 s2 where c2: "os_do (Sys_close (in_fd input)) s = (r2, s2)" by fastforce
  obtain r3 s3 where c3: "os_do (Sys_close (in_fd input)) s1 = (r3, s3)" by fastforce
  have "runs_on (in_fd input) s s1 [in_fd input]" by (rule runs_on_step [OF leave]) simp_all
  moreover have "runs_on (in_fd input) s1 s3 []" by (rule runs_on_step [OF c3]) simp_all
  ultimately have "runs_on (in_fd input) s s3 []" by (rule runs_on_trans)
  moreover have "runs_on (in_fd input) s s2 []" by (rule runs_on_step [OF c2]) simp_all
  ultimately show ?thesis
    using assms by (auto simp: input_udp_close_def leave c2 c3 split: if_splits)
qed

text \<open>An operation on an open input keeps the descriptor, or fails and has closed it.\<close>

definition keeps_or_closes :: "input_udp \<Rightarrow> os \<Rightarrow> int \<times> input_udp \<times> os \<Rightarrow> bool" where
  "keeps_or_closes input s result \<longleftrightarrow>
     (case result of (rc, input', s') \<Rightarrow>
        rc = 0 \<and> in_fd input' = in_fd input \<and> runs_on (in_fd input) s s' [in_fd input] \<or>
        rc = -1 \<and> in_fd input' = -1 \<and> runs_on (in_fd input) s s' [])"

lemma keeps_or_closes_done: "in_fd input' = in_fd input \<Longrightarrow> keeps_or_closes input s (0, input', s)"
  by (simp add: keeps_or_closes_def runs_on_refl)

lemma keeps_or_closes_abandon: "0 \<le> in_fd input \<Longrightarrow> keeps_or_closes input s (abandon_input input s)"
  using input_close_runs [of input s "fst (input_udp_close input s)" "snd (input_udp_close input s)"]
  by (auto simp: keeps_or_closes_def abandon_input_def split: prod.split)

lemma keeps_or_closes_then:
  assumes "runs_on (in_fd input) s s1 [in_fd input]" and "in_fd input1 = in_fd input"
    and "keeps_or_closes input1 s1 result"
  shows "keeps_or_closes input s result"
  using assms runs_on_trans [OF assms(1)] by (auto simp: keeps_or_closes_def)

text \<open>A call on the descriptor that neither opens nor closes one.\<close>

fun plain_call :: "os_call \<Rightarrow> bool" where
  "plain_call (Sys_setsockopt fd opt) = True"
| "plain_call (Sys_bind fd addr port) = True"
| "plain_call (Sys_listen fd backlog) = True"
| "plain_call (Sys_getfl fd) = True"
| "plain_call (Sys_setfl_nonblock fd) = True"
| "plain_call (Sys_select_readable fd) = True"
| "plain_call c = False"

lemma runs_on_plain:
  assumes "os_do c s = (r, s')" and "call_descriptor c = Some fd" and "plain_call c"
  shows "runs_on fd s s' [fd]"
  using assms(3) by (intro runs_on_step [OF assms(1,2)]) (cases c; simp)

lemma keeps_or_closes_call:
  assumes "plain_call c" and "call_descriptor c = Some (in_fd input)"
    and "\<And>r s'. os_do c s = (r, s') \<Longrightarrow> keeps_or_closes input s' (k r s')"
  shows "keeps_or_closes input s (case os_do c s of (r, s') \<Rightarrow> k r s')"
proof -
  obtain r s' where c: "os_do c s = (r, s')" by fastforce
  show ?thesis
    using keeps_or_closes_then [OF runs_on_plain [OF c assms(2,1)] refl assms(3) [OF c]] by (simp add: c)
qed

lemma keeps_or_closes_if:
  "keeps_or_closes input s x \<Longrightarrow> keeps_or_closes input s y \<Longrightarrow> keeps_or_closes input s (if b then x else y)"
  by simp

lemma finish_input_keeps:
  assumes "0 \<le> in_fd input"
  shows "keeps_or_closes input s (finish_input url i input s)"
  unfolding finish_input_def using assms
  by (intro keeps_or_closes_call) (auto intro!: keeps_or_closes_call keeps_or_closes_abandon keeps_or_closes_done)

lemma join_input_keeps:
  assumes "0 \<le> in_fd input"
  shows "keeps_or_closes input s (join_input pton i a input s)"
proof (cases "parse_interface_address pton i")
  case None
  then show ?thesis using assms by (simp add: join_input_def keeps_or_closes_abandon)
next
  case (Some m)
  let ?in = "input\<lparr>multicast_request := (a, m)\<rparr>"
  have "keeps_or_closes ?in s
      (case os_do (Sys_setsockopt (in_fd ?in) (Add_Membership a m)) s of (r, s) \<Rightarrow>
        if r \<noteq> 0 then abandon_input ?in s else (0, ?in\<lparr>joined_multicast := True\<rparr>, s))"
    using assms by (intro keeps_or_closes_call) (auto intro: keeps_or_closes_abandon keeps_or_closes_done)
  then have "keeps_or_closes input s
      (case os_do (Sys_setsockopt (in_fd ?in) (Add_Membership a m)) s of (r, s) \<Rightarrow>
        if r \<noteq> 0 then abandon_input ?in s else (0, ?in\<lparr>joined_multicast := True\<rparr>, s))"
    by (rule keeps_or_closes_then [OF runs_on_refl, rotated]) simp
  then show ?thesis by (simp add: join_input_def Some Let_def)
qed

lemma set_up_input_keeps:
  assumes "0 \<le> in_fd input"
  shows "keeps_or_closes input s (set_up_input pton url i host port a input s)"
proof -
  have last: "keeps_or_closes input s
      (case (if mc then join_input pton i a input s else (0, input, s)) of (rc, input, s) \<Rightarrow>
         if rc \<noteq> 0 then (-1, input, s) else finish_input url i input s)" for mc s
  proof -
    have "keeps_or_closes input s (if mc then join_input pton i a input s else (0, input, s))"
      using assms by (simp add: join_input_keeps keeps_or_closes_done)
    then obtain rc input' s' where j: "(if mc then join_input pton i a input s else (0, input, s)) =
        (rc, input', s')" and k: "keeps_or_closes input s (rc, input', s')"
      by (metis prod_cases3)
    have "keeps_or_closes input s (finish_input url i input' s')" if "rc = 0"
      using k that assms by (intro keeps_or_closes_then [OF _ _ finish_input_keeps])
        (auto simp: keeps_or_closes_def)
    with k show ?thesis by (auto simp: j keeps_or_closes_def)
  qed
  show ?thesis
    unfolding set_up_input_def Let_def using assms
    by (intro keeps_or_closes_call keeps_or_closes_if keeps_or_closes_abandon last) simp_all
qed

text \<open>
  C35. Opening an input either succeeds with an open socket or fails without leaving one: in
  every outcome of the system calls the result is 0 or -1, every call was given a descriptor that
  was open at that moment, and afterwards exactly the input's own socket is open in addition to
  what was open before, or nothing. Closing an opened input gives the descriptor back.
\<close>

theorem input_open_keeps_descriptors:
  assumes "input_udp_open_with_interface pton url i s = (rc, input, s')"
  shows "(rc = 0 \<and> 0 \<le> in_fd input \<and> acquires s s' [in_fd input] \<and>
            acquires s (snd (input_udp_close input s')) [] \<or>
          rc = -1 \<and> in_fd input < 0 \<and> acquires s s' [])"
proof -
  have early: ?thesis if "(rc, input, s') = (-1, fresh_input, s)"
    using that by (simp add: fresh_input_def acquires_refl)
  show ?thesis
  proof (cases "input_udp_parse_url url 128")
    case None
    with assms show ?thesis by (intro early) (simp add: input_udp_open_with_interface_def)
  next
    case (Some hp)
    obtain host port where hp: "hp = (host, port)" by fastforce
    show ?thesis
    proof (cases "if host = ''0.0.0.0'' \<or> host = ''*'' then Some INADDR_ANY else pton host")
      case None
      with assms Some hp show ?thesis by (intro early) (simp add: input_udp_open_with_interface_def)
    next
      case (Some a)
      obtain fd s1 where c: "os_do Sys_socket_dgram s = (fd, s1)" by fastforce
      let ?in = "fresh_input\<lparr>in_fd := fd\<rparr>"
      have r: "(rc, input, s') = (if fd < 0 then (-1, ?in, s1)
          else set_up_input pton url i host port a ?in s1)"
        using assms Some hp \<open>input_udp_parse_url url 128 = Some hp\<close> c
        by (auto simp: input_udp_open_with_interface_def Let_def split: if_splits)
      show ?thesis
      proof (cases "fd < 0")
        case True
        have "acquires s s1 []" using c True unfolding acquires_def
          by (intro exI [of _ "[(Sys_socket_dgram, fd)]"]) (auto simp: os_do_def Let_def)
        with r True show ?thesis by simp
      next
        case False
        have got: "acquires s s1 [fd]" using c False unfolding acquires_def
          by (intro exI [of _ "[(Sys_socket_dgram, fd)]"]) (auto simp: os_do_def Let_def)
        from False have "keeps_or_closes ?in s1 (rc, input, s')"
          using set_up_input_keeps [of ?in s1] r by simp
        then have k: "rc = 0 \<and> in_fd input = fd \<and> runs_on fd s1 s' [fd] \<or>
            rc = -1 \<and> in_fd input = -1 \<and> runs_on fd s1 s' []"
          by (simp add: keeps_or_closes_def)
        have "acquires s (snd (input_udp_close input s')) []" if "acquires s s' [fd]" "in_fd input = fd"
          using acquires_then [OF that(1)] that(2) False
            input_close_runs [of input s' "fst (input_udp_close input s')" "snd (input_udp_close input s')"]
          by simp
        with k False acquires_then [OF got] show ?thesis by auto
      qed
    qed
  qed
qed

lemma input_open_keeps_descriptors_witness:
  "\<exists>rc input s'. input_udp_open_with_interface (\<lambda>_. Some 0xef010101) ''udp://239.1.1.1:5000'' None
       \<lparr>os_reply = (\<lambda>k. if k = 0 then 7 else 0), os_trace = []\<rparr> = (rc, input, s') \<and>
     (0 \<le> in_fd input \<longleftrightarrow> rc = 0)"
proof -
  let ?s = "\<lparr>os_reply = (\<lambda>k. if k = 0 then 7 else 0), os_trace = []\<rparr> :: os"
  obtain rc input s' where o: "input_udp_open_with_interface (\<lambda>_. Some 0xef010101)
      ''udp://239.1.1.1:5000'' None ?s = (rc, input, s')" by (metis prod_cases3)
  from input_open_keeps_descriptors [OF o] have "0 \<le> in_fd input \<longleftrightarrow> rc = 0" by auto
  with o show ?thesis by blast
qed

section \<open>The output opens and closes cleanly\<close>

text \<open>
  The same for the output: it fails with -1, no socket and no address left, or succeeds with
  a socket, an empty buffer and the address of the URL as destination; closing it then
  releases the socket.
\<close>

lemma output_open_keeps_descriptors:
  assumes "output_udp_open pton alloc_ok results url s = (rc, out, s')"
  shows "(rc = 0 \<and> 0 \<le> out_fd out \<and> acquires s s' [out_fd out] \<and>
            acquires s (snd (output_udp_close out s')) [] \<and>
            (\<exists>host port a. output_udp_parse_url url 128 = Some (host, port) \<and> pton host = Some a \<and>
               out = output_udp_opened (out_fd out) (Some (a, port)) results)) \<or>
         (rc = -1 \<and> out_fd out < 0 \<and> out_addr out = None \<and> acquires s s' [])"
proof -
  have close: "acquires s0 (snd (os_do (Sys_close fd) s1)) []" if "acquires s0 s1 [fd]" for s0 s1 fd
  proof -
    obtain r s2 where c: "os_do (Sys_close fd) s1 = (r, s2)" by fastforce
    have "runs_on fd s1 s2 []" by (rule runs_on_step [OF c]) simp_all
    with that have "acquires s0 s2 []" by (rule acquires_then)
    with c show ?thesis by simp
  qed
  obtain fd s1 where c: "os_do Sys_socket_dgram s = (fd, s1)" by fastforce
  have got: "acquires s s1 (if fd < 0 then [] else [fd])" using c unfolding acquires_def
    by (intro exI [of _ "[(Sys_socket_dgram, fd)]"]) (auto simp: os_do_def Let_def)
  show ?thesis
    using assms c got close [of s s1 fd]
    by (auto simp: output_udp_open_def output_udp_close_def fresh_output_def output_udp_opened_def
        Let_def acquires_refl split: option.splits if_splits)
qed

lemma output_open_keeps_descriptors_witness:
  "\<exists>rc out s'. output_udp_open (\<lambda>_. None) True (\<lambda>_. 1316) ''udp://127.0.0.1:4500''
       \<lparr>os_reply = (\<lambda>_. 4), os_trace = []\<rparr> = (rc, out, s') \<and> rc = -1 \<and> out_addr out = None"
proof -
  let ?s = "\<lparr>os_reply = (\<lambda>_. 4), os_trace = []\<rparr> :: os"
  obtain rc out s' where o: "output_udp_open (\<lambda>_. None) True (\<lambda>_. 1316) ''udp://127.0.0.1:4500'' ?s =
      (rc, out, s')" by (metis prod_cases3)
  from output_open_keeps_descriptors [OF o] have "rc = -1 \<and> out_addr out = None" by auto
  with o show ?thesis by blast
qed

end
