(* ===== verification/Command_Line.thy ===== *)
theory Command_Line
  imports Drain C_Strings
begin

text \<open>
  The command line (src/src/command_line.c, src/src/command_line.h). A pointer to a string is
  the string, the null pointer \<open>None\<close>; the five pointers into the options of the C loop are
  values of \<open>option_target\<close>. What is printed on stderr is a list of messages, empty when errors
  are not printed; the result is -1 for an error, 1 for help and 0 otherwise.
\<close>

section \<open>Data\<close>

definition DEFAULT_OUTPUT_URL :: string where
  "DEFAULT_OUTPUT_URL = ''udp://127.0.0.1:4500''"

record command_line_options =
  input_primary_url :: "string option"
  input_secondary_url :: "string option"
  input_primary_interface :: "string option"
  input_secondary_interface :: "string option"
  output_url :: string
  http_port :: u16
  console_report :: bool
  recovery_config :: recovery_engine_config

datatype message =
    Unknown_Option string
  | Duplicate_Option string
  | Missing_Value string
  | Invalid_Milliseconds string string
  | Invalid_Integer string string
  | Invalid_Bounded_Integer string string
  | Invalid_Port string string
  | Urls_Required
  | Usage

datatype text_target =
    Primary_Url | Secondary_Url | Primary_Interface | Secondary_Interface | Output_Url

datatype ms_target =
    Primary_Delay | Max_Secondary_Latency | Alignment_Window | Primary_Outage | Primary_Return

datatype u32_target = Max_Content_Burst | Min_Alignment_Confidence

datatype option_target =
    Text text_target | Http_Port | Console_Report | Millis ms_target | History_Ms
  | Bounded u32_target u32 | Help | Unknown

section \<open>Values\<close>

definition parse_u64_ms_option :: "string \<Rightarrow> string \<Rightarrow> message list + u64" where
  "parse_u64_ms_option name v =
     (case strtoul v of (parsed, range_error, rest) \<Rightarrow>
        if range_error \<or> rest = v \<or> rest \<noteq> [] \<or> - 1 div 1000000 < parsed
        then Inl [Invalid_Milliseconds name v]
        else Inr (parsed * 1000000))"

definition parse_u64_option :: "string \<Rightarrow> string \<Rightarrow> message list + u64" where
  "parse_u64_option name v =
     (case strtoul v of (parsed, range_error, rest) \<Rightarrow>
        if range_error \<or> rest = v \<or> rest \<noteq> [] then Inl [Invalid_Integer name v]
        else Inr parsed)"

definition parse_u32_option :: "string \<Rightarrow> string \<Rightarrow> u32 \<Rightarrow> message list + u32" where
  "parse_u32_option name v max_value =
     (case parse_u64_option name v of
        Inl m \<Rightarrow> Inl (m @ [Invalid_Bounded_Integer name v])
      | Inr parsed \<Rightarrow>
          if ucast max_value < parsed then Inl [Invalid_Bounded_Integer name v]
          else Inr (ucast parsed))"

section \<open>Options\<close>

definition classify_option :: "string \<Rightarrow> option_target" where
  "classify_option name =
     (if name = ''--input-primary-url'' then Text Primary_Url
      else if name = ''--input-secondary-url'' then Text Secondary_Url
      else if name = ''--input-primary-interface'' then Text Primary_Interface
      else if name = ''--input-secondary-interface'' then Text Secondary_Interface
      else if name = ''--output-url'' then Text Output_Url
      else if name = ''--http-port'' then Http_Port
      else if name = ''--console-report'' then Console_Report
      else if name = ''--primary-delay-ms'' then Millis Primary_Delay
      else if name = ''--max-secondary-latency-ms'' then Millis Max_Secondary_Latency
      else if name = ''--alignment-window-ms'' then Millis Alignment_Window
      else if name = ''--history-ms'' then History_Ms
      else if name = ''--primary-outage-ms'' then Millis Primary_Outage
      else if name = ''--primary-return-ms'' then Millis Primary_Return
      else if name = ''--max-content-burst-packets'' then Bounded Max_Content_Burst 255
      else if name = ''--min-alignment-confidence'' then Bounded Min_Alignment_Confidence 100
      else if name = ''--help'' \<or> name = ''-h'' then Help
      else Unknown)"

text \<open>\<open>*target\<close>, as far as the test for a repeated option looks at it.\<close>

primrec text_given :: "text_target \<Rightarrow> command_line_options \<Rightarrow> bool" where
  "text_given Primary_Url opts = (input_primary_url opts \<noteq> None)"
| "text_given Secondary_Url opts = (input_secondary_url opts \<noteq> None)"
| "text_given Primary_Interface opts = (input_primary_interface opts \<noteq> None)"
| "text_given Secondary_Interface opts = (input_secondary_interface opts \<noteq> None)"
| "text_given Output_Url opts = False"

primrec set_text :: "text_target \<Rightarrow> string \<Rightarrow> command_line_options \<Rightarrow> command_line_options" where
  "set_text Primary_Url v opts = opts\<lparr>input_primary_url := Some v\<rparr>"
| "set_text Secondary_Url v opts = opts\<lparr>input_secondary_url := Some v\<rparr>"
| "set_text Primary_Interface v opts = opts\<lparr>input_primary_interface := Some v\<rparr>"
| "set_text Secondary_Interface v opts = opts\<lparr>input_secondary_interface := Some v\<rparr>"
| "set_text Output_Url v opts = opts\<lparr>output_url := v\<rparr>"

primrec set_ms :: "ms_target \<Rightarrow> u64 \<Rightarrow> recovery_engine_config \<Rightarrow> recovery_engine_config" where
  "set_ms Primary_Delay v cfg = cfg\<lparr>primary_delay_ns := v\<rparr>"
| "set_ms Max_Secondary_Latency v cfg = cfg\<lparr>max_secondary_latency_ns := v\<rparr>"
| "set_ms Alignment_Window v cfg = cfg\<lparr>alignment_window_ns := v\<rparr>"
| "set_ms Primary_Outage v cfg = cfg\<lparr>primary_outage_ns := v\<rparr>"
| "set_ms Primary_Return v cfg = cfg\<lparr>primary_return_ns := v\<rparr>"

primrec set_u32 :: "u32_target \<Rightarrow> u32 \<Rightarrow> recovery_engine_config \<Rightarrow> recovery_engine_config" where
  "set_u32 Max_Content_Burst v cfg = cfg\<lparr>max_content_burst_packets := v\<rparr>"
| "set_u32 Min_Alignment_Confidence v cfg = cfg\<lparr>min_alignment_confidence := v\<rparr>"

text \<open>
  Lines 235 to 281: an option with its value; the new options, or the messages of a failure
  (without the final usage).
\<close>

definition apply_option ::
    "option_target \<Rightarrow> string \<Rightarrow> string \<Rightarrow> command_line_options \<Rightarrow> message list + command_line_options" where
  "apply_option t name v opts =
     (case t of
        Millis ms \<Rightarrow>
          (case parse_u64_ms_option name v of
             Inl m \<Rightarrow> Inl m
           | Inr ns \<Rightarrow> Inr (opts\<lparr>recovery_config := set_ms ms ns (recovery_config opts)\<rparr>))
      | History_Ms \<Rightarrow>
          (case parse_u64_option name v of
             Inl m \<Rightarrow> Inl m
           | Inr n \<Rightarrow> Inr (opts\<lparr>recovery_config := (recovery_config opts)\<lparr>history_ms := n\<rparr>\<rparr>))
      | Bounded u max_value \<Rightarrow>
          (case parse_u32_option name v max_value of
             Inl m \<Rightarrow> Inl m
           | Inr n \<Rightarrow> Inr (opts\<lparr>recovery_config := set_u32 u n (recovery_config opts)\<rparr>))
      | Http_Port \<Rightarrow>
          (case parse_u32_option name v 65535 of
             Inl m \<Rightarrow> Inl (m @ [Invalid_Port name v])
           | Inr n \<Rightarrow> if n = 0 then Inl [Invalid_Port name v] else Inr (opts\<lparr>http_port := ucast n\<rparr>))
      | Text x \<Rightarrow>
          if text_given x opts then Inl [Duplicate_Option name] else Inr (set_text x v opts)
      | _ \<Rightarrow> Inr opts)"

text \<open>The loop over the arguments after the program name, and the final test.\<close>

fun parse_options :: "string list \<Rightarrow> command_line_options \<Rightarrow> int \<times> command_line_options \<times> message list" where
  "parse_options [] opts =
     (if input_primary_url opts = None \<or> input_secondary_url opts = None
      then (-1, opts, [Urls_Required, Usage]) else (0, opts, []))"
| "parse_options (name # rest) opts =
     (let t = classify_option name in
      if t = Http_Port \<and> http_port opts \<noteq> 0 then (-1, opts, [Duplicate_Option name, Usage])
      else if t = Console_Report then
        (if console_report opts then (-1, opts, [Duplicate_Option name, Usage])
         else parse_options rest (opts\<lparr>console_report := True\<rparr>))
      else if t = Help then (1, opts, [Usage])
      else if t = Unknown then (-1, opts, [Unknown_Option name, Usage])
      else
        (case rest of
           [] \<Rightarrow> (-1, opts, [Missing_Value name, Usage])
         | v # rest \<Rightarrow>
             (case apply_option t name v opts of
                Inl m \<Rightarrow> (-1, opts, m @ [Usage])
              | Inr opts \<Rightarrow> parse_options rest opts)))"

declare parse_options.simps(2) [simp del]

definition initial_options :: command_line_options where
  "initial_options =
     \<lparr>input_primary_url = None, input_secondary_url = None, input_primary_interface = None,
      input_secondary_interface = None, output_url = DEFAULT_OUTPUT_URL, http_port = 0,
      console_report = False, recovery_config = recovery_engine_default_config\<rparr>"

text \<open>\<open>argv\<close> starts with the program name.\<close>

definition command_line_parse_internal ::
    "string list \<Rightarrow> bool \<Rightarrow> int \<times> command_line_options \<times> message list" where
  "command_line_parse_internal argv print_errors =
     (case parse_options (drop 1 argv) initial_options of (rc, opts, m) \<Rightarrow>
        (rc, opts, if print_errors then m else []))"

definition command_line_parse :: "string list \<Rightarrow> int \<times> command_line_options \<times> message list" where
  "command_line_parse argv = command_line_parse_internal argv True"

definition command_line_parse_silent :: "string list \<Rightarrow> int \<times> command_line_options \<times> message list" where
  "command_line_parse_silent argv = command_line_parse_internal argv False"

end
