(* ===== verification/Stream_Health.thy ===== *)
theory Stream_Health
  imports Report_Stats
begin

text \<open>
  Health of the inputs and of the output (src/src/report_stats.c lines 190 to 206, 263 to 376
  and 433 to 461): the problems counted since an old sample decide, and the figures of the last
  minute that the reports show.
\<close>

section \<open>The code\<close>

text \<open>The final \<open>unknown\<close> of the C function is for values outside the enumeration.\<close>

fun stream_health_name :: "stream_health \<Rightarrow> string" where
  "stream_health_name STREAM_HEALTH_HEALTHY = ''healthy''"
| "stream_health_name STREAM_HEALTH_DEGRADED = ''degraded''"
| "stream_health_name STREAM_HEALTH_LOSSY = ''lossy''"
| "stream_health_name STREAM_HEALTH_UNTRUSTED = ''untrusted''"
| "stream_health_name STREAM_HEALTH_OFFLINE = ''offline''"

text \<open>The ubiquitous \<open>sample == NULL ? x : x - sample->x\<close>.\<close>

definition since ::
    "report_stats_sample option \<Rightarrow> (report_stats_sample \<Rightarrow> u64) \<Rightarrow> u64 \<Rightarrow> u64" where
  "since sample field now = (case sample of None \<Rightarrow> now | Some s \<Rightarrow> now - field s)"

definition stream_problem_delta :: "report_stats \<Rightarrow> report_stats_sample option \<Rightarrow> int \<Rightarrow> u64" where
  "stream_problem_delta st sample stream_id =
     (let d = since sample;
          problems = d (\<lambda>s. s_sync_errors s stream_id) (sync_errors st stream_id);
          problems = problems + d (\<lambda>s. s_transport_errors s stream_id) (transport_errors st stream_id);
          problems = problems + d (\<lambda>s. s_continuity_errors s stream_id) (continuity_errors st stream_id);
          problems = problems + d (\<lambda>s. s_duplicate_counters s stream_id) (duplicate_counters st stream_id);
          problems =
            (if stream_id = 0 then
               problems + d s_recovered_packets (recovered_packets st)
                 + d s_unrecoverable_loss (unrecoverable_loss st)
                 + d s_primary_delay_insufficient (primary_delay_insufficient st)
                 + d s_recovery_exact_cc_gap (recovery_exact_cc_gap st)
             else
               problems + d s_secondary_loss_events (secondary_loss_events st)
                 + d s_secondary_missing_packets (secondary_missing_packets st)
                 + d s_secondary_missing_anchors (secondary_missing_anchors st)
                 + d s_secondary_packets_too_late (secondary_packets_too_late st))
      in problems + d s_stream_disagreements (stream_disagreements st))"

definition output_problem_delta :: "report_stats \<Rightarrow> report_stats_sample option \<Rightarrow> u64" where
  "output_problem_delta st sample =
     since sample s_output_continuity_errors (output_continuity_errors st)
     + since sample s_output_duplicate_counters (output_duplicate_counters st)
     + since sample s_unrecoverable_loss (unrecoverable_loss st)"

definition health_from_recent :: "u64 \<Rightarrow> u64 \<Rightarrow> u64 \<Rightarrow> stream_health" where
  "health_from_recent packets problems quiet_problems =
     (if packets = 0 then STREAM_HEALTH_DEGRADED
      else if problems = 0 \<and> quiet_problems = 0 then STREAM_HEALTH_HEALTHY
      else if packets * 50 \<le> problems * 1000 then STREAM_HEALTH_UNTRUSTED
      else if packets * 10 \<le> problems * 1000 then STREAM_HEALTH_LOSSY
      else STREAM_HEALTH_DEGRADED)"

text \<open>One round of the loop over the inputs (lines 354 to 369).\<close>

definition health_of_stream ::
    "report_stats \<Rightarrow> report_stats_sample option \<Rightarrow> report_stats_sample option \<Rightarrow> u64 \<Rightarrow> int \<Rightarrow> stream_health" where
  "health_of_stream st window_sample quiet_sample now_ns stream_id =
     (if now_ns \<noteq> 0 \<and> last_packet_ns st stream_id \<noteq> 0 \<and>
         REPORT_STATS_OFFLINE_NS \<le> now_ns - last_packet_ns st stream_id
      then STREAM_HEALTH_OFFLINE
      else health_from_recent
             (since window_sample (\<lambda>s. s_packets_received s stream_id) (packets_received st stream_id))
             (stream_problem_delta st window_sample stream_id)
             (stream_problem_delta st quiet_sample stream_id))"

definition update_stream_health :: "report_stats \<Rightarrow> u64 \<Rightarrow> report_stats" where
  "update_stream_health st now_ns =
     (let window_sample = oldest_rolling_sample st;
          quiet_sample = rolling_sample_ago st REPORT_STATS_QUIET_SECONDS
      in if now_ns \<noteq> 0 \<and> last_health_update_ns st \<noteq> 0 \<and>
            now_ns - last_health_update_ns st < REPORT_STATS_HEALTH_INTERVAL_NS
         then st
         else
           let st = st\<lparr>last_health_update_ns := now_ns\<rparr>;
               st = st\<lparr>stream_health :=
                 (stream_health st)(0 := health_of_stream st window_sample quiet_sample now_ns 0)\<rparr>;
               st = st\<lparr>stream_health :=
                 (stream_health st)(1 := health_of_stream st window_sample quiet_sample now_ns 1)\<rparr>
           in st\<lparr>output_health := health_from_recent
                    (since window_sample s_output_packets (output_packets st))
                    (output_problem_delta st window_sample) (output_problem_delta st quiet_sample)\<rparr>)"

text \<open>The seven out parameters of \<open>compute_rolling_window\<close>.\<close>

record rolling_window =
  win_packets :: "int \<Rightarrow> u64"
  win_cc_errors :: "int \<Rightarrow> u64"
  win_recovered :: u64
  win_unrecoverable :: u64
  win_output :: u64

definition compute_rolling_window :: "report_stats \<Rightarrow> rolling_window" where
  "compute_rolling_window st =
     (case oldest_rolling_sample st of
        None \<Rightarrow> \<lparr>win_packets = (\<lambda>_. 0), win_cc_errors = (\<lambda>_. 0), win_recovered = 0,
                 win_unrecoverable = 0, win_output = 0\<rparr>
      | Some oldest \<Rightarrow>
          \<lparr>win_packets = (\<lambda>i. packets_received st i - s_packets_received oldest i),
           win_cc_errors = (\<lambda>i. continuity_errors st i - s_continuity_errors oldest i),
           win_recovered = recovered_packets st - s_recovered_packets oldest,
           win_unrecoverable = unrecoverable_loss st - s_unrecoverable_loss oldest,
           win_output = output_packets st - s_output_packets oldest\<rparr>)"

section \<open>The thresholds\<close>

lemma unat_scaled:
  fixes x c :: u64
  assumes "unat x * unat c < 2 ^ 64"
  shows "unat (x * c) = unat x * unat c"
  using assms unat_mult_lem [of x c] by simp

text \<open>
  C32. The health levels are percentages of the received packets: with fewer than 10^16 packets and
  problems in the window, an input is healthy exactly when packets arrived and no problem was
  counted, untrusted from 5 percent of problems on, lossy from 1 percent on and degraded below;
  without packets it is degraded. Within the limit the multiplications do not wrap.
\<close>

theorem health_levels:
  assumes "unat packets < 10 ^ 16" and "unat problems < 10 ^ 16"
  shows "(health_from_recent packets problems quiet = STREAM_HEALTH_HEALTHY \<longleftrightarrow>
            0 < packets \<and> problems = 0 \<and> quiet = 0) \<and>
     (health_from_recent packets problems quiet = STREAM_HEALTH_UNTRUSTED \<longleftrightarrow>
            0 < packets \<and> unat packets \<le> 20 * unat problems) \<and>
     (health_from_recent packets problems quiet = STREAM_HEALTH_LOSSY \<longleftrightarrow>
            20 * unat problems < unat packets \<and> unat packets \<le> 100 * unat problems) \<and>
     (health_from_recent packets problems quiet = STREAM_HEALTH_DEGRADED \<longleftrightarrow>
            packets = 0 \<or> 100 * unat problems < unat packets \<and> (0 < problems \<or> 0 < quiet)) \<and>
     health_from_recent packets problems quiet \<noteq> STREAM_HEALTH_OFFLINE"
proof -
  have pr: "unat (problems * 1000) = unat problems * 1000"
    using assms(2) by (subst unat_scaled) simp_all
  have p50: "unat (packets * 50) = unat packets * 50"
    using assms(1) by (subst unat_scaled) simp_all
  have p10: "unat (packets * 10) = unat packets * 10"
    using assms(1) by (subst unat_scaled) simp_all
  have "packets * 50 \<le> problems * 1000 \<longleftrightarrow> unat packets \<le> 20 * unat problems"
    and "packets * 10 \<le> problems * 1000 \<longleftrightarrow> unat packets \<le> 100 * unat problems"
    unfolding word_le_nat_alt pr p50 p10 by auto
  moreover have "packets \<noteq> 0 \<longleftrightarrow> 0 < unat packets" "problems \<noteq> 0 \<longleftrightarrow> 0 < unat problems"
    by (simp_all add: unat_gt_0)
  ultimately show ?thesis
    by (auto simp: health_from_recent_def word_neq_0_conv [symmetric])
qed

lemma health_levels_witness:
  "health_from_recent 1000 49 5 = STREAM_HEALTH_LOSSY \<and>
   health_from_recent 1000 0 0 = STREAM_HEALTH_HEALTHY"
  using health_levels [of 1000 49 5] health_levels [of 1000 0 0] by simp

text \<open>The levels in the order of the enumeration, from the best to the worst.\<close>

instantiation stream_health :: linorder
begin

fun severity :: "stream_health \<Rightarrow> nat" where
  "severity STREAM_HEALTH_HEALTHY = 0"
| "severity STREAM_HEALTH_DEGRADED = 1"
| "severity STREAM_HEALTH_LOSSY = 2"
| "severity STREAM_HEALTH_UNTRUSTED = 3"
| "severity STREAM_HEALTH_OFFLINE = 4"

definition less_eq_stream_health :: "stream_health \<Rightarrow> stream_health \<Rightarrow> bool" where
  "less_eq_stream_health a b \<longleftrightarrow> severity a \<le> severity b"

definition less_stream_health :: "stream_health \<Rightarrow> stream_health \<Rightarrow> bool" where
  "less_stream_health a b \<longleftrightarrow> severity a < severity b"

instance
proof
  fix x y z :: stream_health
  show "x < y \<longleftrightarrow> x \<le> y \<and> \<not> y \<le> x" by (auto simp: less_eq_stream_health_def less_stream_health_def)
  show "x \<le> x" by (simp add: less_eq_stream_health_def)
  show "x \<le> y \<Longrightarrow> y \<le> z \<Longrightarrow> x \<le> z" by (simp add: less_eq_stream_health_def)
  show "x \<le> y \<Longrightarrow> y \<le> x \<Longrightarrow> x = y" by (cases x; cases y; simp add: less_eq_stream_health_def)
  show "x \<le> y \<or> y \<le> x" by (auto simp: less_eq_stream_health_def)
qed

end

text \<open>More problems never make the level better, as long as the products do not wrap.\<close>

lemma health_worsens:
  fixes packets p q quiet :: u64
  assumes "unat q < 10 ^ 16" and "p \<le> q"
  shows "health_from_recent packets p quiet \<le> health_from_recent packets q quiet"
proof -
  have "unat p \<le> unat q" using assms(2) by (simp add: word_le_nat_alt)
  then have "unat (p * 1000) \<le> unat (q * 1000)"
    using assms(1) by (subst (1 2) unat_scaled) simp_all
  then have m: "x \<le> p * 1000 \<Longrightarrow> x \<le> q * 1000" for x :: u64
    by (auto simp: word_le_nat_alt)
  have "q = 0 \<Longrightarrow> p = 0" using assms(2) by simp
  then show ?thesis using m [of "packets * 50"] m [of "packets * 10"]
    by (auto simp: health_from_recent_def less_eq_stream_health_def)
qed

section \<open>A healthy input\<close>

text \<open>The counters that \<open>stream_problem_delta\<close> adds up, now and in a sample.\<close>

definition problem_counters :: "report_stats \<Rightarrow> int \<Rightarrow> u64 list" where
  "problem_counters st i =
     [sync_errors st i, transport_errors st i, continuity_errors st i, duplicate_counters st i] @
     (if i = 0 then [recovered_packets st, unrecoverable_loss st, primary_delay_insufficient st,
                     recovery_exact_cc_gap st]
      else [secondary_loss_events st, secondary_missing_packets st, secondary_missing_anchors st,
            secondary_packets_too_late st]) @ [stream_disagreements st]"

definition sample_counters :: "report_stats_sample option \<Rightarrow> int \<Rightarrow> u64 list" where
  "sample_counters sample i =
     (case sample of None \<Rightarrow> replicate 9 0 | Some s \<Rightarrow>
        [s_sync_errors s i, s_transport_errors s i, s_continuity_errors s i, s_duplicate_counters s i] @
        (if i = 0 then [s_recovered_packets s, s_unrecoverable_loss s, s_primary_delay_insufficient s,
                        s_recovery_exact_cc_gap s]
         else [s_secondary_loss_events s, s_secondary_missing_packets s, s_secondary_missing_anchors s,
               s_secondary_packets_too_late s]) @ [s_stream_disagreements s])"

lemma stream_problem_delta_sum:
  "stream_problem_delta st sample i = sum_list (map2 (-) (problem_counters st i) (sample_counters sample i))"
  by (simp add: stream_problem_delta_def problem_counters_def sample_counters_def since_def Let_def
      numeral_eq_Suc algebra_simps split: option.split)

lemma unat_sum_diff:
  fixes xs ys :: "u64 list"
  assumes "list_all2 (\<le>) ys xs" and "sum_list (map unat xs) < 2 ^ 64"
  shows "unat (sum_list (map2 (-) xs ys)) = sum_list (map unat xs) - sum_list (map unat ys)
    \<and> sum_list (map unat ys) \<le> sum_list (map unat xs)"
  using assms
proof (induction rule: list_all2_induct)
  case Nil
  then show ?case by simp
next
  case (Cons y ys x xs)
  then have IH: "unat (sum_list (map2 (-) xs ys)) = sum_list (map unat xs) - sum_list (map unat ys)"
      "sum_list (map unat ys) \<le> sum_list (map unat xs)" by simp_all
  have d: "unat (x - y) = unat x - unat y" "unat y \<le> unat x"
    using Cons.hyps(1) by (simp_all add: unat_sub word_le_nat_alt)
  have "unat (x - y) + unat (sum_list (map2 (-) xs ys)) < 2 ^ 64"
    using Cons.prems IH d by simp
  then have "unat ((x - y) + sum_list (map2 (-) xs ys)) =
      unat (x - y) + unat (sum_list (map2 (-) xs ys))"
    using unat_add_lem [of "x - y" "sum_list (map2 (-) xs ys)"] by simp
  then show ?case using IH d by simp
qed

lemma sum_unat_mono:
  fixes xs ys :: "u64 list"
  shows "list_all2 (\<le>) ys xs \<Longrightarrow> sum_list (map unat ys) \<le> sum_list (map unat xs)"
  by (induction rule: list_all2_induct) (simp_all add: word_le_nat_alt add_mono)

lemma sum_unat_le_eq:
  fixes xs ys :: "u64 list"
  assumes "list_all2 (\<le>) ys xs" and "sum_list (map unat xs) \<le> sum_list (map unat ys)"
  shows "xs = ys"
  using assms
proof (induction rule: list_all2_induct)
  case Nil
  then show ?case by simp
next
  case (Cons y ys x xs)
  have le: "unat y \<le> unat x" "sum_list (map unat ys) \<le> sum_list (map unat xs)"
    using Cons.hyps sum_unat_mono by (simp_all add: word_le_nat_alt)
  with Cons show ?case by (simp add: word_unat_eq_iff)
qed

text \<open>
  C33. An input that the update reports as healthy really is: packets have arrived on it since
  the oldest sample of the last minute, the last one less than five seconds ago, and none of
  its nine problem counters has moved since then. The counters are assumed not to have gone
  back nor to add up to 2^64.
\<close>

theorem healthy_input_has_no_problems:
  assumes "i = 0 \<or> i = 1"
    and "last_health_update_ns st = 0 \<or>
         REPORT_STATS_HEALTH_INTERVAL_NS \<le> now_ns - last_health_update_ns st"
    and "list_all2 (\<le>) (sample_counters (oldest_rolling_sample st) i) (problem_counters st i)"
    and "sum_list (map unat (problem_counters st i)) < 2 ^ 64"
    and "stream_health (update_stream_health st now_ns) i = STREAM_HEALTH_HEALTHY"
  shows "problem_counters st i = sample_counters (oldest_rolling_sample st) i \<and>
     packets_received st i \<noteq>
       (case oldest_rolling_sample st of None \<Rightarrow> 0 | Some s \<Rightarrow> s_packets_received s i) \<and>
     (now_ns \<noteq> 0 \<and> last_packet_ns st i \<noteq> 0 \<longrightarrow> now_ns - last_packet_ns st i < REPORT_STATS_OFFLINE_NS)"
proof -
  let ?w = "oldest_rolling_sample st"
  have upd: "\<not> (now_ns \<noteq> 0 \<and> last_health_update_ns st \<noteq> 0 \<and>
      now_ns - last_health_update_ns st < REPORT_STATS_HEALTH_INTERVAL_NS)"
    using assms(2) by auto
  have later: "last_packet_ns (st\<lparr>last_health_update_ns := n, stream_health := h\<rparr>) i = last_packet_ns st i"
    for n h by simp
  have h: "health_of_stream st ?w (rolling_sample_ago st REPORT_STATS_QUIET_SECONDS) now_ns i =
      STREAM_HEALTH_HEALTHY"
    using assms(1,5) upd
    by (auto simp: update_stream_health_def Let_def health_of_stream_def stream_problem_delta_def
        split: if_splits)
  then have recent: "health_from_recent (since ?w (\<lambda>s. s_packets_received s i) (packets_received st i))
      (stream_problem_delta st ?w i) (stream_problem_delta st
         (rolling_sample_ago st REPORT_STATS_QUIET_SECONDS) i) = STREAM_HEALTH_HEALTHY"
    and on: "\<not> (now_ns \<noteq> 0 \<and> last_packet_ns st i \<noteq> 0 \<and>
         REPORT_STATS_OFFLINE_NS \<le> now_ns - last_packet_ns st i)"
    by (simp_all add: health_of_stream_def split: if_splits)
  from recent have "stream_problem_delta st ?w i = 0"
      and p: "since ?w (\<lambda>s. s_packets_received s i) (packets_received st i) \<noteq> 0"
    by (auto simp: health_from_recent_def split: if_splits)
  then have "problem_counters st i = sample_counters ?w i"
    using unat_sum_diff [OF assms(3,4)] sum_unat_le_eq [OF assms(3)]
    by (simp add: stream_problem_delta_sum)
  with p on show ?thesis by (auto simp: since_def split: option.splits)
qed

lemma healthy_input_has_no_problems_witness:
  "problem_counters (zero_stats\<lparr>packets_received := (\<lambda>_. 9)\<rparr>) 1 = sample_counters None 1"
proof -
  let ?st = "zero_stats\<lparr>packets_received := (\<lambda>_. 9)\<rparr>"
  have o: "oldest_rolling_sample ?st = None"
    by (simp add: oldest_rolling_sample_def zero_stats_def)
  have a: "list_all2 (\<le>) (sample_counters (oldest_rolling_sample ?st) 1) (problem_counters ?st 1)"
    unfolding o by (simp add: problem_counters_def sample_counters_def zero_stats_def numeral_eq_Suc)
  have b: "sum_list (map unat (problem_counters ?st 1)) < 2 ^ 64"
    by (simp add: problem_counters_def zero_stats_def)
  have c: "stream_health (update_stream_health ?st 7) 1 = STREAM_HEALTH_HEALTHY"
    by code_simp
  have "problem_counters ?st 1 = sample_counters (oldest_rolling_sample ?st) 1"
    using healthy_input_has_no_problems [OF _ _ a b c] by (simp add: zero_stats_def)
  then show ?thesis by (simp only: o)
qed

end
