(* ===== verification/Stats_Report.thy ===== *)
theory Stats_Report
  imports Stream_Health C_Strings
begin

text \<open>
  The reports of the statistics (src/src/report_stats.c lines 208 to 229 and 463 to 700): the JSON
  document of the web interface and the line on the console. The text of the JSON report is the
  rendering of a JSON value, field by field in the order of the format string.

  The calendar is not under src/: \<open>time_text\<close> is the text \<open>localtime_r\<close> and \<open>strftime\<close> make of a
  time. A double is a rational number here, so a negative zero prints as \<open>0\<close>.
\<close>

section \<open>Numbers as text\<close>

definition fmt_u64 :: "u64 \<Rightarrow> string" where "fmt_u64 w = decimal (unat w)"
definition fmt_u32 :: "u32 \<Rightarrow> string" where "fmt_u32 w = decimal (unat w)"

definition fmt_int :: "int \<Rightarrow> string" where
  "fmt_int i = (if i < 0 then CHR ''-'' # decimal (nat (- i)) else decimal (nat i))"

text \<open>\<open>%.kf\<close>: rounded half to even at the \<open>k\<close>-th decimal place.\<close>

definition fmt_fixed :: "nat \<Rightarrow> double \<Rightarrow> string" where
  "fmt_fixed k x =
     (let n = nat (round_half_even (abs x * 10 ^ k));
          fraction = decimal (n mod 10 ^ k)
      in (if x < 0 then ''-'' else []) @ decimal (n div 10 ^ k) @
         (if k = 0 then [] else ''.'' @ replicate (k - length fraction) (CHR ''0'') @ fraction))"

section \<open>JSON\<close>

datatype json = J_Number string | J_String string | J_Array "json list" | J_Object "(string \<times> json) list"

definition quoted :: "string \<Rightarrow> string" where
  "quoted s = [CHR 0x22] @ s @ [CHR 0x22]"

fun joined :: "string list \<Rightarrow> string" where
  "joined [] = []"
| "joined [s] = s"
| "joined (s # ss) = s @ '','' @ joined ss"

fun render :: "json \<Rightarrow> string" where
  "render (J_Number n) = n"
| "render (J_String s) = quoted s"
| "render (J_Array vs) = ''['' @ joined (map render vs) @ '']''"
| "render (J_Object fs) = ''{'' @ joined (map (\<lambda>(k, v). quoted k @ '':'' @ render v) fs) @ ''}''"

definition j_u64 :: "u64 \<Rightarrow> json" where "j_u64 w = J_Number (fmt_u64 w)"
definition j_both :: "(int \<Rightarrow> json) \<Rightarrow> json" where "j_both f = J_Array [f 0, f 1]"

definition report_stats_wall_time :: "(int \<Rightarrow> string) \<Rightarrow> int \<Rightarrow> string" where
  "report_stats_wall_time time_text t = (if t = 0 then ''Never'' else time_text t)"

text \<open>A time in nanoseconds, divided and printed as milliseconds.\<close>

definition fmt_ms :: "double \<Rightarrow> string" where
  "fmt_ms x = fmt_fixed 3 (f64_div x 1000000)"

definition stats_json :: "(int \<Rightarrow> string) \<Rightarrow> int \<Rightarrow> report_stats \<Rightarrow> json" where
  "stats_json time_text now st =
     (let win = compute_rolling_window st;
          rejects = recovery_rejects st
      in J_Object
       [(''timestamp'', J_String (time_text now)),
        (''packets_received'', j_both (\<lambda>i. j_u64 (packets_received st i))),
        (''win60_packets'', j_both (\<lambda>i. j_u64 (win_packets win i))),
        (''input_datagrams'', j_both (\<lambda>i. j_u64 (input_datagrams st i))),
        (''malformed_datagrams'', j_both (\<lambda>i. j_u64 (malformed_datagrams st i))),
        (''partial_datagrams'', j_both (\<lambda>i. j_u64 (partial_datagrams st i))),
        (''resync_events'', j_both (\<lambda>i. j_u64 (resync_events st i))),
        (''sync_errors'', j_both (\<lambda>i. j_u64 (sync_errors st i))),
        (''transport_errors'', j_both (\<lambda>i. j_u64 (transport_errors st i))),
        (''continuity_errors'', j_both (\<lambda>i. j_u64 (continuity_errors st i))),
        (''win60_continuity_errors'', j_both (\<lambda>i. j_u64 (win_cc_errors win i))),
        (''health'', j_both (\<lambda>i. J_String (stream_health_name (stream_health st i)))),
        (''output_health'', J_String (stream_health_name (output_health st))),
        (''duplicate_counters'', j_both (\<lambda>i. j_u64 (duplicate_counters st i))),
        (''null_packets'', j_both (\<lambda>i. j_u64 (null_packets st i))),
        (''pcr_packets'', j_both (\<lambda>i. j_u64 (pcr_packets st i))),
        (''alignment_offset_packets'', J_Number (fmt_int (alignment_offset_packets st))),
        (''alignment_confidence'', J_Number (fmt_u32 (alignment_confidence st))),
        (''pcr_timing_confidence'', j_both (\<lambda>i. J_Number (fmt_u32 (pcr_timing_confidence st i)))),
        (''pcr_bitrate_bps'', j_both (\<lambda>i. J_Number (fmt_fixed 0 (pcr_bitrate_bps st i)))),
        (''pcr_delay_ns'', J_Number (fmt_fixed 0 (pcr_delay_ns st))),
        (''pcr_delay_samples'', j_u64 (pcr_delay_samples st)),
        (''latency_ms'', J_Object
           [(''min'', J_Number (fmt_ms (observed_secondary_latency_min_ns st))),
            (''avg'', J_Number (fmt_ms (observed_secondary_latency_avg_ns st))),
            (''max'', J_Number (fmt_ms (observed_secondary_latency_max_ns st))),
            (''jitter'', J_Number (fmt_ms (observed_secondary_latency_jitter_ns st))),
            (''samples'', j_u64 (observed_secondary_latency_samples st))]),
        (''stream_disagreements'', j_u64 (stream_disagreements st)),
        (''primary_delay_overflows'', j_u64 (primary_delay_overflows st)),
        (''last_recovery_event'', J_String (report_stats_wall_time time_text (last_recovery_event_time st))),
        (''recovered_null_packets'', j_u64 (recovered_null_packets st)),
        (''recovered_content_packets'', j_u64 (recovered_content_packets st)),
        (''recovered_content_bursts'', j_u64 (recovered_content_bursts st)),
        (''unrecoverable_null_regions'', j_u64 (unrecoverable_null_regions st)),
        (''secondary_loss_events'', j_u64 (secondary_loss_events st)),
        (''secondary_missing_packets'', j_u64 (secondary_missing_packets st)),
        (''secondary_missing_anchors'', j_u64 (secondary_missing_anchors st)),
        (''secondary_packets_too_late'', j_u64 (secondary_packets_too_late st)),
        (''primary_delay_insufficient'', j_u64 (primary_delay_insufficient st)),
        (''recovery_rejects'', J_Object
           [(''low_alignment'', j_u64 (rejects RECOVERY_REJECT_LOW_ALIGNMENT)),
            (''secondary_late'', j_u64 (rejects RECOVERY_REJECT_SECONDARY_LATE)),
            (''tei'', j_u64 (rejects RECOVERY_REJECT_TEI)),
            (''discontinuity'', j_u64 (rejects RECOVERY_REJECT_DISCONTINUITY)),
            (''wrong_pid'', j_u64 (rejects RECOVERY_REJECT_WRONG_PID)),
            (''wrong_counter'', j_u64 (rejects RECOVERY_REJECT_WRONG_COUNTER)),
            (''ambiguous'', j_u64 (rejects RECOVERY_REJECT_AMBIGUOUS)),
            (''burst_too_large'', j_u64 (rejects RECOVERY_REJECT_BURST_TOO_LARGE)),
            (''missing_candidate'', j_u64 (rejects RECOVERY_REJECT_MISSING_CANDIDATE))]),
        (''recovery_exact_cc_gap'', j_u64 (recovery_exact_cc_gap st)),
        (''recovered_packets'', j_u64 (recovered_packets st)),
        (''unrecoverable_loss'', j_u64 (unrecoverable_loss st)),
        (''win60_recovered'', j_u64 (win_recovered win)),
        (''win60_unrecoverable'', j_u64 (win_unrecoverable win)),
        (''output_packets'', j_u64 (output_packets st)),
        (''win60_output'', j_u64 (win_output win)),
        (''output_continuity_errors'', j_u64 (output_continuity_errors st)),
        (''output_duplicate_counters'', j_u64 (output_duplicate_counters st)),
        (''active_output_stream_id'', J_Number (fmt_int (active_output_stream_id st))),
        (''source_switches'', j_both (\<lambda>i. j_u64 (source_switches st i))),
        (''output_datagrams'', j_u64 (output_datagrams st)),
        (''output_short_flushes'', j_u64 (output_short_flushes st))])"

text \<open>
  The readings of the monotonic clock by \<open>report_stats_tick\<close> and \<open>update_stream_health\<close> and of the
  wall clock are arguments. The result is the return value, the text \<open>snprintf\<close> leaves in the
  buffer and the statistics.
\<close>

definition report_stats_format_json ::
    "(int \<Rightarrow> string) \<Rightarrow> u64 \<Rightarrow> u64 \<Rightarrow> int \<Rightarrow> report_stats \<Rightarrow> nat \<Rightarrow> int \<times> string \<times> report_stats" where
  "report_stats_format_json time_text tick_ns health_ns now st buffer_size =
     (let st = report_stats_tick st tick_ns;
          st = update_stream_health st health_ns;
          text = render (stats_json time_text now st)
      in (if buffer_size \<le> length text then -1 else int (length text),
          take (buffer_size - 1) text, st))"

section \<open>The console line\<close>

definition c_pair :: "string \<Rightarrow> (int \<Rightarrow> string) \<Rightarrow> string" where
  "c_pair name f = name @ ''=['' @ f 0 @ '','' @ f 1 @ '']''"

definition c_item :: "string \<Rightarrow> string \<Rightarrow> string" where
  "c_item name v = name @ ''='' @ v"

definition c_list :: "string \<Rightarrow> string list \<Rightarrow> string" where
  "c_list name items = name @ ''=['' @ joined items @ '']''"

fun spaced :: "string list \<Rightarrow> string" where
  "spaced [] = []"
| "spaced [s] = s"
| "spaced (s # ss) = s @ '' '' @ spaced ss"

definition console_line :: "string \<Rightarrow> report_stats \<Rightarrow> string" where
  "console_line timestamp st =
     (let win = compute_rolling_window st;
          rejects = recovery_rejects st
      in spaced
       [timestamp,
        c_pair ''packets_rx'' (\<lambda>i. fmt_u64 (packets_received st i)),
        c_pair ''win60_packets'' (\<lambda>i. fmt_u64 (win_packets win i)),
        c_pair ''input_datagrams'' (\<lambda>i. fmt_u64 (input_datagrams st i)),
        c_pair ''malformed_datagrams'' (\<lambda>i. fmt_u64 (malformed_datagrams st i)),
        c_pair ''partial_datagrams'' (\<lambda>i. fmt_u64 (partial_datagrams st i)),
        c_pair ''resync_events'' (\<lambda>i. fmt_u64 (resync_events st i)),
        c_pair ''sync_errors'' (\<lambda>i. fmt_u64 (sync_errors st i)),
        c_pair ''tei'' (\<lambda>i. fmt_u64 (transport_errors st i)),
        c_pair ''cc_errors'' (\<lambda>i. fmt_u64 (continuity_errors st i)),
        c_pair ''win60_cc_errors'' (\<lambda>i. fmt_u64 (win_cc_errors win i)),
        c_pair ''health'' (\<lambda>i. stream_health_name (stream_health st i)),
        c_pair ''duplicate_cc'' (\<lambda>i. fmt_u64 (duplicate_counters st i)),
        c_pair ''null'' (\<lambda>i. fmt_u64 (null_packets st i)),
        c_pair ''pcr'' (\<lambda>i. fmt_u64 (pcr_packets st i)),
        c_item ''align_offset'' (fmt_int (alignment_offset_packets st)),
        c_item ''align_confidence'' (fmt_u32 (alignment_confidence st)),
        c_pair ''pcr_confidence'' (\<lambda>i. fmt_u32 (pcr_timing_confidence st i)),
        c_pair ''pcr_bitrate_bps'' (\<lambda>i. fmt_fixed 0 (pcr_bitrate_bps st i)),
        c_item ''pcr_delay_ns'' (fmt_fixed 0 (pcr_delay_ns st)),
        c_list ''latency_ms''
          [c_item ''min'' (fmt_ms (observed_secondary_latency_min_ns st)),
           c_item ''avg'' (fmt_ms (observed_secondary_latency_avg_ns st)),
           c_item ''max'' (fmt_ms (observed_secondary_latency_max_ns st)),
           c_item ''jitter'' (fmt_ms (observed_secondary_latency_jitter_ns st)),
           c_item ''samples'' (fmt_u64 (observed_secondary_latency_samples st))],
        c_item ''disagreements'' (fmt_u64 (stream_disagreements st)),
        c_item ''delay_overflows'' (fmt_u64 (primary_delay_overflows st)),
        c_item ''recovered_null'' (fmt_u64 (recovered_null_packets st)),
        c_item ''recovered_content'' (fmt_u64 (recovered_content_packets st)),
        c_item ''recovered_bursts'' (fmt_u64 (recovered_content_bursts st)),
        c_item ''unrecoverable_null_regions'' (fmt_u64 (unrecoverable_null_regions st)),
        c_item ''secondary_loss_events'' (fmt_u64 (secondary_loss_events st)),
        c_item ''secondary_missing_packets'' (fmt_u64 (secondary_missing_packets st)),
        c_item ''secondary_missing_anchors'' (fmt_u64 (secondary_missing_anchors st)),
        c_item ''secondary_late'' (fmt_u64 (secondary_packets_too_late st)),
        c_item ''primary_delay_insufficient'' (fmt_u64 (primary_delay_insufficient st)),
        c_list ''recovery_rejects''
          [c_item ''low_align'' (fmt_u64 (rejects RECOVERY_REJECT_LOW_ALIGNMENT)),
           c_item ''late'' (fmt_u64 (rejects RECOVERY_REJECT_SECONDARY_LATE)),
           c_item ''tei'' (fmt_u64 (rejects RECOVERY_REJECT_TEI)),
           c_item ''discontinuity'' (fmt_u64 (rejects RECOVERY_REJECT_DISCONTINUITY)),
           c_item ''pid'' (fmt_u64 (rejects RECOVERY_REJECT_WRONG_PID)),
           c_item ''cc'' (fmt_u64 (rejects RECOVERY_REJECT_WRONG_COUNTER)),
           c_item ''ambiguous'' (fmt_u64 (rejects RECOVERY_REJECT_AMBIGUOUS)),
           c_item ''burst'' (fmt_u64 (rejects RECOVERY_REJECT_BURST_TOO_LARGE)),
           c_item ''missing'' (fmt_u64 (rejects RECOVERY_REJECT_MISSING_CANDIDATE))],
        c_item ''exact_cc_gap'' (fmt_u64 (recovery_exact_cc_gap st)),
        c_item ''recovered'' (fmt_u64 (recovered_packets st)),
        c_item ''unrecoverable'' (fmt_u64 (unrecoverable_loss st)),
        c_item ''win60_recovered'' (fmt_u64 (win_recovered win)),
        c_item ''win60_unrecoverable'' (fmt_u64 (win_unrecoverable win)),
        c_item ''output'' (fmt_u64 (output_packets st)),
        c_item ''win60_output'' (fmt_u64 (win_output win)),
        c_item ''output_cc_errors'' (fmt_u64 (output_continuity_errors st)),
        c_item ''output_duplicate_cc'' (fmt_u64 (output_duplicate_counters st)),
        c_item ''active_output'' (fmt_int (active_output_stream_id st)),
        c_pair ''source_switches'' (\<lambda>i. fmt_u64 (source_switches st i)),
        c_item ''output_datagrams'' (fmt_u64 (output_datagrams st)),
        c_item ''output_short_flushes'' (fmt_u64 (output_short_flushes st))]
       @ [CHR 0x0A])"

text \<open>The line that is printed, if any; three readings of the clock and one of the wall clock.\<close>

definition report_stats_maybe_print ::
    "(int \<Rightarrow> string) \<Rightarrow> u64 \<Rightarrow> u64 \<Rightarrow> u64 \<Rightarrow> int \<Rightarrow> report_stats \<Rightarrow> bool \<Rightarrow> string \<times> report_stats" where
  "report_stats_maybe_print time_text now_ns tick_ns health_ns now st force =
     (if \<not> force \<and> now_ns - last_report_ns st < 1000000000 then ([], st)
      else
        let st = report_stats_tick st tick_ns;
            st = update_stream_health st health_ns
        in (console_line (time_text now) st, st\<lparr>last_report_ns := now_ns\<rparr>))"

end
