(* ===== verification/Web_Server.thy ===== *)
theory Web_Server
  imports Stats_Report Os_Calls
begin

text \<open>
  The web interface (src/src/web_server.c, src/src/web_server.h): a listening socket on the
  loopback address, one request per connection, the statistics as JSON and the files of the web
  root.

  The peer and the file system are the environment. A \<open>client\<close> has the bytes its request
  delivers, an answer to each call of \<open>send\<close>, the bytes it has got so far, and the clock
  readings taken while it is served. Bytes are characters. A loop that could run for ever
  (\<open>send\<close> interrupted again and again, an endless queue of clients) is a partial function.
\<close>

definition HTTP_REQUEST_SIZE :: nat where "HTTP_REQUEST_SIZE = 2048"
definition HTTP_RESPONSE_SIZE :: nat where "HTTP_RESPONSE_SIZE = 16384"
definition HTTP_FILE_CHUNK_SIZE :: nat where "HTTP_FILE_CHUNK_SIZE = 16384"

section \<open>The environment\<close>

text \<open>
  \<open>Sent n\<close>: the system took \<open>n\<close> of the bytes, at most as many as it was given; \<open>Interrupted\<close>
  is \<open>EINTR\<close>; \<open>Send_Failed\<close> is any other error, a full buffer included.
\<close>

datatype send_result = Sent nat | Interrupted | Send_Failed

record client =
  request_bytes :: "string option"
  send_reply :: "nat \<Rightarrow> send_result"
  send_calls :: nat
  sent_bytes :: string
  tick_reading :: u64
  health_reading :: u64
  wall_reading :: int

text \<open>
  \<open>stat\<close> and \<open>fopen\<close>: no regular file at the path, or one of the given size whose contents can be
  read or not.
\<close>

datatype file_result = No_File | Regular_File int "string option"

datatype accept_errno = Accept_Again | Accept_Bad_Socket | Accept_Other

record web_env =
  time_text :: "int \<Rightarrow> string"
  file_at :: "string \<Rightarrow> file_result"
  client_at :: "nat \<Rightarrow> client"
  accept_error :: "nat \<Rightarrow> accept_errno"

section \<open>Responses\<close>

definition content_type_for_path :: "string \<Rightarrow> string" where
  "content_type_for_path path =
     (case split_last CHR ''.'' path of
        None \<Rightarrow> ''application/octet-stream''
      | Some (_, ext) \<Rightarrow>
          if ext = ''html'' then ''text/html; charset=utf-8''
          else if ext = ''css'' then ''text/css; charset=utf-8''
          else if ext = ''js'' then ''application/javascript; charset=utf-8''
          else if ext = ''png'' then ''image/png''
          else ''application/octet-stream'')"

definition send_call :: "client \<Rightarrow> string \<Rightarrow> send_result \<times> client" where
  "send_call c buffer =
     (case send_reply c (send_calls c) of
        Sent n \<Rightarrow> (Sent (min n (length buffer)),
                   c\<lparr>send_calls := Suc (send_calls c), sent_bytes := sent_bytes c @ take n buffer\<rparr>)
      | r \<Rightarrow> (r, c\<lparr>send_calls := Suc (send_calls c)\<rparr>))"

partial_function (option) send_all :: "client \<Rightarrow> string \<Rightarrow> (bool \<times> client) option" where
  "send_all c buffer =
     (if buffer = [] then Some (True, c)
      else
        (case send_call c buffer of (r, c) \<Rightarrow>
           (case r of
              Interrupted \<Rightarrow> send_all c buffer
            | Send_Failed \<Rightarrow> Some (False, c)
            | Sent n \<Rightarrow> if n = 0 then Some (False, c) else send_all c (drop n buffer))))"

definition crlf :: string where "crlf = [CHR 0x0D, CHR 0x0A]"

definition response_header :: "nat \<Rightarrow> string \<Rightarrow> string \<Rightarrow> nat \<Rightarrow> string" where
  "response_header status reason content_type body_size =
     ''HTTP/1.1 '' @ decimal status @ '' '' @ reason @ crlf @
     ''Connection: close'' @ crlf @
     ''Cache-Control: no-store'' @ crlf @
     ''Content-Type: '' @ content_type @ crlf @
     ''Content-Length: '' @ decimal body_size @ crlf @ crlf"

text \<open>All headers of this program are shorter than the buffer of 512 bytes (\<open>header_fits\<close>).\<close>

definition send_response_header ::
    "client \<Rightarrow> nat \<Rightarrow> string \<Rightarrow> string \<Rightarrow> nat \<Rightarrow> (bool \<times> client) option" where
  "send_response_header c status reason content_type body_size =
     send_all c (response_header status reason content_type body_size)"

definition send_response :: "client \<Rightarrow> nat \<Rightarrow> string \<Rightarrow> string \<Rightarrow> string \<Rightarrow> client option" where
  "send_response c status reason content_type body =
     Option.bind (send_response_header c status reason content_type (length body)) (\<lambda>(ok, c).
       if \<not> ok then Some c
       else if 0 < length body then map_option snd (send_all c body)
       else Some c)"

definition send_error :: "client \<Rightarrow> nat \<Rightarrow> string \<Rightarrow> client option" where
  "send_error c status reason = send_response c status reason ''text/plain; charset=utf-8'' reason"

section \<open>Requests\<close>

definition handle_api_stats :: "web_env \<Rightarrow> client \<Rightarrow> report_stats \<Rightarrow> (client \<times> report_stats) option" where
  "handle_api_stats env c st =
     (case report_stats_format_json (time_text env) (tick_reading c) (health_reading c) (wall_reading c)
             st HTTP_RESPONSE_SIZE of (body_size, body, st) \<Rightarrow>
        map_option (\<lambda>c. (c, st))
          (if body_size < 0 then send_error c 500 ''stats json too large''
           else send_response c 200 ''OK'' ''application/json; charset=utf-8'' body))"

text \<open>The pieces in which a file is read, and the loop that sends them.\<close>

function chunks :: "string \<Rightarrow> string list" where
  "chunks data = (if data = [] then []
     else take HTTP_FILE_CHUNK_SIZE data # chunks (drop HTTP_FILE_CHUNK_SIZE data))"
  by pat_completeness auto
termination by (relation "measure length") (auto simp: HTTP_FILE_CHUNK_SIZE_def)

declare chunks.simps [simp del]

primrec send_each :: "client \<Rightarrow> string list \<Rightarrow> client option" where
  "send_each c [] = Some c"
| "send_each c (b # bs) =
     Option.bind (send_all c b) (\<lambda>(ok, c). if ok then send_each c bs else Some c)"

definition handle_static_file :: "web_env \<Rightarrow> string \<Rightarrow> client \<Rightarrow> string \<Rightarrow> client option" where
  "handle_static_file env docroot c url_path =
     (if strstr url_path ''..'' then send_error c 400 ''bad request''
      else
        let url_path = (if url_path = ''/'' then ''/index.html'' else url_path);
            path = docroot @ url_path
        in if 512 \<le> length path then send_error c 414 ''uri too long''
           else
             (case file_at env path of
                No_File \<Rightarrow> send_error c 404 ''not found''
              | Regular_File bytes contents \<Rightarrow>
                  if bytes < 0 then send_error c 500 ''bad file size''
                  else
                    (case contents of
                       None \<Rightarrow> send_error c 404 ''not found''
                     | Some data \<Rightarrow>
                         Option.bind (send_response_header c 200 ''OK'' (content_type_for_path path) (nat bytes))
                           (\<lambda>(ok, c). if ok then send_each c (chunks data) else Some c))))"

text \<open>\<open>%7s\<close> and \<open>%255s\<close> of \<open>sscanf\<close>: blanks are skipped, then at most \<open>n\<close> other characters read.\<close>

definition scan_word :: "nat \<Rightarrow> string \<Rightarrow> string \<times> string" where
  "scan_word n s =
     (let t = dropWhile is_space s; w = take n (takeWhile (\<lambda>c. \<not> is_space c) t)
      in (w, drop (length w) t))"

definition handle_client ::
    "web_env \<Rightarrow> string \<Rightarrow> client \<Rightarrow> report_stats \<Rightarrow> (client \<times> report_stats) option" where
  "handle_client env docroot c st =
     (case request_bytes c of
        None \<Rightarrow> Some (c, st)
      | Some received \<Rightarrow>
          if received = [] then Some (c, st)
          else
            let request = takeWhile (\<lambda>x. x \<noteq> CHR 0x00) (take (HTTP_REQUEST_SIZE - 1) received);
                (http_method, rest) = scan_word 7 request;
                (path, _) = scan_word 255 rest
            in if http_method = [] \<or> path = []
               then map_option (\<lambda>c. (c, st)) (send_error c 400 ''bad request'')
               else if http_method \<noteq> ''GET''
               then map_option (\<lambda>c. (c, st)) (send_error c 405 ''method not allowed'')
               else
                 let path = (case split_first CHR ''?'' path of None \<Rightarrow> path | Some (before, _) \<Rightarrow> before)
                 in if path = ''/api/stats'' then handle_api_stats env c st
                    else map_option (\<lambda>c. (c, st)) (handle_static_file env docroot c path))"

section \<open>The listening socket\<close>

record web_server =
  web_fd :: int
  webroot :: string

definition web_server_close :: "web_server \<Rightarrow> os \<Rightarrow> web_server \<times> os" where
  "web_server_close server s =
     (if 0 \<le> web_fd server
      then (server\<lparr>web_fd := -1\<rparr>, snd (os_do (Sys_close (web_fd server)) s))
      else (server, s))"

definition set_nonblocking :: "int \<Rightarrow> os \<Rightarrow> int \<times> os" where
  "set_nonblocking fd s =
     (case os_do (Sys_getfl fd) s of (flags, s) \<Rightarrow>
        if flags < 0 then (-1, s) else os_do (Sys_setfl_nonblock fd) s)"

definition wait_for_client_request :: "int \<Rightarrow> os \<Rightarrow> bool \<times> os" where
  "wait_for_client_request fd s =
     (case os_do (Sys_select_readable fd) s of (ready, s) \<Rightarrow> (0 < ready, s))"

definition INADDR_LOOPBACK :: u32 where "INADDR_LOOPBACK = 0x7f000001"

definition web_server_open :: "u16 \<Rightarrow> string \<Rightarrow> os \<Rightarrow> int \<times> web_server \<times> os" where
  "web_server_open port docroot s =
     (case os_do Sys_socket_stream s of (fd, s) \<Rightarrow>
        let server = \<lparr>web_fd = fd, webroot = take 255 docroot\<rparr>;
            fail = (\<lambda>s. (-1, web_server_close server s))
        in if fd < 0 then (-1, server, s)
           else
         (case os_do (Sys_setsockopt fd Reuse_Addr) s of (r, s) \<Rightarrow>
            if r \<noteq> 0 then fail s else
         (case set_nonblocking fd s of (r, s) \<Rightarrow>
            if r \<noteq> 0 then fail s else
         (case os_do (Sys_bind fd INADDR_LOOPBACK port) s of (r, s) \<Rightarrow>
            if r \<noteq> 0 then fail s else
         (case os_do (Sys_listen fd 16) s of (r, s) \<Rightarrow>
            if r \<noteq> 0 then fail s else (0, server, s))))))"

text \<open>
  The accept loop; the client that the \<open>k\<close>-th call of the trace accepts is \<open>client_at k\<close>. Served
  clients are collected with what they got.
\<close>

partial_function (option) web_server_handle_ready ::
    "web_env \<Rightarrow> web_server \<Rightarrow> report_stats \<Rightarrow> os \<Rightarrow> client list
     \<Rightarrow> (web_server \<times> report_stats \<times> os \<times> client list) option" where
  "web_server_handle_ready env server st s served =
     (case os_do (Sys_accept (web_fd server)) s of (client_fd, s1) \<Rightarrow>
        if client_fd < 0 then
          (if accept_error env (length (os_trace s)) = Accept_Bad_Socket
           then (case web_server_close server s1 of (server, s2) \<Rightarrow> Some (server, st, s2, served))
           else Some (server, st, s1, served))
        else
          (case set_nonblocking client_fd s1 of (r, s2) \<Rightarrow>
             if r \<noteq> 0
             then web_server_handle_ready env server st (snd (os_do (Sys_close client_fd) s2)) served
             else
               (case wait_for_client_request client_fd s2 of (ready, s3) \<Rightarrow>
                  if \<not> ready
                  then web_server_handle_ready env server st (snd (os_do (Sys_close client_fd) s3)) served
                  else
                    Option.bind (handle_client env (webroot server) (client_at env (length (os_trace s))) st)
                      (\<lambda>(c, st). web_server_handle_ready env server st
                                   (snd (os_do (Sys_close client_fd) s3)) (served @ [c])))))"

end
