(* ===== verification/Main_Loop.thy ===== *)
theory Main_Loop
  imports Datagram Udp_Sockets Command_Line Web_Server
begin

text \<open>
  The program (src/src/main.c lines 95 to 247): the loop over \<open>select\<close>, and \<open>main\<close>, which parses
  the command line, opens the sockets, runs the loop and closes everything again.

  A run is a list of rounds of the loop, one per test of \<open>should_stop\<close> that finds it unset: the
  list ends when a signal sets it. A round says what \<open>select\<close> returns and what \<open>recv\<close>
  delivers on the inputs that are ready. The descriptors given to \<open>select\<close> and \<open>recv\<close> here are
  the ones of the open sockets and are not in the trace of calls. A run that never ends is not
  modelled; each of its beginnings is, as the rounds before some signal.
\<close>

section \<open>The environment\<close>

text \<open>
  \<open>Select_Ready w p q\<close>: the descriptors of the web server, the first and the second input that
  are ready; none of them after the 100 ms of the timeout.
\<close>

datatype select_result = Select_Failed | Select_Interrupted | Select_Ready bool bool bool

record loop_round =
  selected :: select_result
  reception :: "int \<Rightarrow> recv_result"

text \<open>
  The parts of the environment that are not system calls with a descriptor: \<open>inet_pton\<close>, whether
  the allocations succeed, \<open>sendto\<close>, web peers and files, and the clocks.
\<close>

record main_env =
  pton :: "string \<Rightarrow> u32 option"
  output_alloc :: bool
  engine_alloc :: "nat \<Rightarrow> bool"
  sendto_results :: "nat \<Rightarrow> int"
  web_side :: web_env
  start_reading :: u64
  engine_world :: world

section \<open>The loop\<close>

text \<open>The local variables of \<open>run_loop\<close>; the statistics are the ones of the engine.\<close>

record run_state =
  run_engine :: "output_udp recovery_engine"
  run_web :: web_server
  web_enabled :: bool
  run_web_fd :: int
  run_os :: os
  console :: "string list"

definition free_engine :: "run_state \<Rightarrow> run_state" where
  "free_engine s = s\<lparr>run_engine := recovery_engine_free (run_engine s)\<rparr>"

definition close_web :: "run_state \<Rightarrow> run_state" where
  "close_web s = (case web_server_close (run_web s) (run_os s) of (w, os) \<Rightarrow> s\<lparr>run_web := w, run_os := os\<rparr>)"

text \<open>Lines 159 to 164.\<close>

definition serve_web :: "main_env \<Rightarrow> bool \<Rightarrow> run_state \<Rightarrow> run_state option" where
  "serve_web env web_ready s =
     (if web_enabled s \<and> web_ready then
        map_option (\<lambda>(server, st, os, _).
            s\<lparr>run_web := server, run_engine := (run_engine s)\<lparr>stats := st\<rparr>, run_os := os,
              run_web_fd := web_fd server, web_enabled := 0 \<le> web_fd server\<rparr>)
          (web_server_handle_ready (web_side env) ((run_web s)\<lparr>web_fd := run_web_fd s\<rparr>)
             (stats (run_engine s)) (run_os s) [])
      else Some s)"

text \<open>
  Lines 166 to 181, for one input; \<open>False\<close> when the function returns. After an error of \<open>recv\<close>
  the engine is freed, but the web server is not closed.
\<close>

definition read_input :: "int \<Rightarrow> bool \<Rightarrow> recv_result \<Rightarrow> run_state \<Rightarrow> (bool \<times> run_state) option" where
  "read_input i input_ready r s =
     (if \<not> input_ready then Some (True, s)
      else
        (case input_udp_receive r INPUT_BUFFER_SIZE of (received, buffer) \<Rightarrow>
           if received < 0 then Some (False, free_engine s)
           else if 0 < received then
             map_option
               (\<lambda>(rc, e). if rc \<noteq> 0 then (False, close_web (free_engine (s\<lparr>run_engine := e\<rparr>)))
                          else (True, s\<lparr>run_engine := e\<rparr>))
               (process_datagram (run_engine s) i buffer)
           else Some (True, s)))"

text \<open>
  The console report with its four readings of the clocks; the last three are of no consequence
  when it is too early for a line.
\<close>

definition print_report :: "main_env \<Rightarrow> bool \<Rightarrow> run_state \<Rightarrow> run_state" where
  "print_report env force s =
     (let (now_ns, e) = read_now_ns (run_engine s);
          (tick_ns, e) = read_now_ns e;
          (health_ns, e) = read_now_ns e;
          (now, e) = read_wall_time e;
          (line, st) = report_stats_maybe_print (time_text (web_side env)) now_ns tick_ns health_ns now
                         (stats (run_engine s)) force
      in s\<lparr>run_engine := e\<lparr>stats := st\<rparr>,
           console := console s @ (if line = [] then [] else [line])\<rparr>)"

text \<open>Lines 183 to 191.\<close>

definition end_round :: "main_env \<Rightarrow> bool \<Rightarrow> run_state \<Rightarrow> bool \<times> run_state" where
  "end_round env reporting s =
     (case recovery_engine_drain (run_engine s) False of (rc, e) \<Rightarrow>
        if rc \<noteq> 0 then (False, close_web (free_engine (s\<lparr>run_engine := e\<rparr>)))
        else
          let (now_ns, e) = read_now_ns e;
              s = s\<lparr>run_engine := e\<lparr>stats := report_stats_tick (stats e) now_ns\<rparr>\<rparr>
          in (True, if reporting then print_report env False s else s))"

text \<open>One round; \<open>False\<close> when \<open>run_loop\<close> returns -1 from it.\<close>

definition run_round ::
    "main_env \<Rightarrow> bool \<Rightarrow> loop_round \<Rightarrow> run_state \<Rightarrow> (bool \<times> run_state) option" where
  "run_round env reporting r s =
     (case selected r of
        Select_Interrupted \<Rightarrow> Some (True, s)
      | Select_Failed \<Rightarrow> Some (False, close_web (free_engine s))
      | Select_Ready web_ready ready0 ready1 \<Rightarrow>
          Option.bind (serve_web env web_ready s) (\<lambda>s.
          Option.bind (read_input 0 ready0 (reception r 0) s) (\<lambda>(continue, s).
            if \<not> continue then Some (False, s)
            else
          Option.bind (read_input 1 ready1 (reception r 1) s) (\<lambda>(continue, s).
            if \<not> continue then Some (False, s)
            else Some (end_round env reporting s)))))"

primrec run_rounds ::
    "main_env \<Rightarrow> bool \<Rightarrow> loop_round list \<Rightarrow> run_state \<Rightarrow> (bool \<times> run_state) option" where
  "run_rounds env reporting [] s = Some (True, s)"
| "run_rounds env reporting (r # rs) s =
     Option.bind (run_round env reporting r s) (\<lambda>(continue, s).
       if continue then run_rounds env reporting rs s else Some (False, s))"

text \<open>Lines 194 to 200: the loop was left because of a signal.\<close>

definition shut_down :: "main_env \<Rightarrow> bool \<Rightarrow> run_state \<Rightarrow> run_state" where
  "shut_down env reporting s =
     (let s = s\<lparr>run_engine := snd (recovery_engine_flush (run_engine s))\<rparr>;
          s = (if reporting then print_report env True s else s)
      in close_web (free_engine s))"

text \<open>
  \<open>run_loop\<close>: the return value, the output with what was sent, the system and the console. The
  output is the context of the engine's sink; it outlives the engine.
\<close>

definition loop_result :: "int \<Rightarrow> run_state \<Rightarrow> int \<times> output_udp \<times> os \<times> string list" where
  "loop_result rc s = (rc, sink_ctx (sink (run_engine s)), run_os s, console s)"

definition run_loop ::
    "main_env \<Rightarrow> loop_round list \<Rightarrow> output_udp \<Rightarrow> recovery_engine_config \<Rightarrow> u16 \<Rightarrow> bool \<Rightarrow> os
     \<Rightarrow> (int \<times> output_udp \<times> os \<times> string list) option" where
  "run_loop env rounds out cfg port reporting s =
     (let (rc, server, s) =
            (if port \<noteq> 0 then web_server_open port ''webroot'' s
             else (0, \<lparr>web_fd = -1, webroot = []\<rparr>, s))
      in if rc \<noteq> 0 then Some (-1, out, s, [])
         else
           (case recovery_engine_init_with_config (engine_alloc env) (output_udp_as_packet_sink out)
                   (report_stats_init (start_reading env)) (engine_world env) cfg of (rc, e) \<Rightarrow>
              let state = \<lparr>run_engine = e, run_web = server, web_enabled = port \<noteq> 0,
                           run_web_fd = (if port \<noteq> 0 then web_fd server else -1), run_os = s, console = []\<rparr>
              in if rc \<noteq> 0 then Some (loop_result (-1) (close_web state))
                 else
                   map_option
                     (\<lambda>(completed, state).
                        if completed then loop_result 0 (shut_down env reporting state)
                        else loop_result (-1) state)
                     (run_rounds env reporting rounds state)))"

section \<open>main\<close>

definition EXIT_SUCCESS :: int where "EXIT_SUCCESS = 0"
definition EXIT_FAILURE :: int where "EXIT_FAILURE = 1"

text \<open>The exit code, the datagrams sent, the system calls and the lines on the console.\<close>

type_synonym program_result = "int \<times> bytes list \<times> os \<times> string list"

definition close_all :: "output_udp \<Rightarrow> input_udp \<Rightarrow> input_udp \<Rightarrow> os \<Rightarrow> os" where
  "close_all out in0 in1 s =
     (let (_, s) = output_udp_close out s;
          (_, s) = input_udp_close in1 s;
          (_, s) = input_udp_close in0 s
      in s)"

definition program_main :: "main_env \<Rightarrow> string list \<Rightarrow> loop_round list \<Rightarrow> os \<Rightarrow> program_result option" where
  "program_main env argv rounds s =
     (case command_line_parse argv of (parse_result, options, _) \<Rightarrow>
        if 0 < parse_result then Some (EXIT_SUCCESS, [], s, [])
        else if parse_result < 0 then Some (EXIT_FAILURE, [], s, [])
        else
      case input_udp_open_with_interface (pton env) (the (input_primary_url options))
             (input_primary_interface options) s of (rc, in0, s) \<Rightarrow>
        if rc \<noteq> 0 then Some (EXIT_FAILURE, [], s, [])
        else
      case input_udp_open_with_interface (pton env) (the (input_secondary_url options))
             (input_secondary_interface options) s of (rc, in1, s) \<Rightarrow>
        if rc \<noteq> 0 then Some (EXIT_FAILURE, [], snd (input_udp_close in0 s), [])
        else
      case output_udp_open (pton env) (output_alloc env) (sendto_results env) (output_url options) s of
        (rc, out, s) \<Rightarrow>
        if rc \<noteq> 0
        then Some (EXIT_FAILURE, [], snd (input_udp_close in0 (snd (input_udp_close in1 s))), [])
        else
      map_option
        (\<lambda>(rc, out, s, lines).
           (if rc = 0 then EXIT_SUCCESS else EXIT_FAILURE, datagrams out, close_all out in0 in1 s, lines))
        (run_loop env rounds out (recovery_config options) (http_port options) (console_report options) s))"

end
