(* ===== verification/Recovery_Facts.thy ===== *)
theory Recovery_Facts
  imports Gap_Decision
begin

text \<open>
  What the validators and recoveries establish: the packets inserted for a gap are exactly
  the records the secondary input has in it, they continue the output's counters, and
  anything else is a rejection that leaves the engine as it was.
\<close>

section \<open>The records at consecutive stream indices\<close>

definition range_found :: "packet_history \<Rightarrow> u64 \<Rightarrow> u64 \<Rightarrow> u64 \<Rightarrow> bool" where
  "range_found h f i n \<longleftrightarrow> (\<forall>k \<in> {unat i..<unat n}. hist_find h (f + of_nat k) \<noteq> None)"

definition range_list :: "packet_history \<Rightarrow> u64 \<Rightarrow> u64 \<Rightarrow> u64 \<Rightarrow> packet_record list" where
  "range_list h f i n = map (\<lambda>k. the (hist_find h (f + of_nat k))) [unat i..<unat n]"

lemma range_unroll: "i < n \<Longrightarrow> [unat (i :: u64)..<unat n] = unat i # [unat (i + 1)..<unat n]"
  by (simp add: upt_conv_Cons unat_inc_less word_less_nat_alt)

lemma range_list_Cons:
  "i < n \<Longrightarrow> range_list h f i n = the (hist_find h (f + i)) # range_list h f (i + 1) n"
  by (simp add: range_list_def range_unroll)

lemma range_list_Nil [simp]: "\<not> i < n \<Longrightarrow> range_list h f i n = []"
  by (simp add: range_list_def word_less_nat_alt)

lemma range_found_Cons:
  "i < n \<Longrightarrow> range_found h f i n \<longleftrightarrow> hist_find h (f + i) \<noteq> None \<and> range_found h f (i + 1) n"
proof -
  assume less: "i < n"
  then have "{unat i..<unat n} = insert (unat i) {unat (i + 1)..<unat n}"
    by (auto simp: unat_inc_less word_less_nat_alt)
  then show ?thesis by (simp add: range_found_def)
qed

lemma range_found_Nil [simp]: "\<not> i < n \<Longrightarrow> range_found h f i n"
  by (simp add: range_found_def word_less_nat_alt)

lemma length_range_list [simp]: "length (range_list h f i n) = unat n - unat i"
  by (simp add: range_list_def)

lemma range_list_in:
  assumes "range_found h f i n"
  shows "set (range_list h f i n) \<subseteq> set (hist_list h)"
proof
  fix c assume "c \<in> set (range_list h f i n)"
  then obtain k where k: "k \<in> {unat i..<unat n}" "c = the (hist_find h (f + of_nat k))"
    by (auto simp: range_list_def)
  have "hist_find h (f + of_nat k) \<noteq> None"
    using assms k(1) unfolding range_found_def by (rule bspec)
  then obtain r where "hist_find h (f + of_nat k) = Some r" by blast
  with k(2) hist_find_in [OF this] show "c \<in> set (hist_list h)" by simp
qed

lemma range_list_indices:
  assumes "range_found h f i n"
  shows "map stream_index (range_list h f i n) = map (\<lambda>k. f + of_nat k) [unat i..<unat n]"
  using assms
  by (auto simp: range_list_def range_found_def dest!: bspec intro: hist_find_stream_index)

section \<open>Inserting records\<close>

primrec insert_list ::
    "(packet_record \<Rightarrow> bool) \<Rightarrow> 's recovery_engine \<Rightarrow> packet_record list \<Rightarrow> int \<times> 's recovery_engine" where
  "insert_list flag e [] = (0, e)"
| "insert_list flag e (r # rs) =
     (case insert_record e r (flag r) of (rc, e) \<Rightarrow> if rc \<noteq> 0 then (-1, e) else insert_list flag e rs)"

lemma insert_records_list: "insert_records e rs = insert_list (\<lambda>_. False) e rs"
  by (induction rs arbitrary: e) (auto split: prod.splits)

lemma insert_range_list:
  "range_found (history e 1) f i n \<Longrightarrow>
   insert_range flag e f i n = insert_list flag e (range_list (history e 1) f i n)"
proof (induction flag e f i n rule: insert_range.induct)
  case (1 flag e f i n)
  show ?case
  proof (cases "i < n")
    case False
    then show ?thesis by (simp add: insert_range.simps)
  next
    case True
    from "1.prems" True obtain c where c: "hist_find (history e 1) (f + i) = Some c"
      and rest: "range_found (history e 1) f (i + 1) n" by (auto simp: range_found_Cons)
    obtain rc e1 where ins: "insert_record e c (flag c) = (rc, e1)" by fastforce
    have h: "history e1 = history e"
      by (rule outputsD(2) [OF conjunct1 [OF insert_record_outputs [OF ins]]])
    show ?thesis
    proof (cases "rc = 0")
      case False
      then show ?thesis using True c ins by (subst insert_range.simps) (simp add: range_list_Cons)
    next
      case zero: True
      from "1.IH" [OF True c ins [symmetric] _ rest [folded h]] zero True c ins h show ?thesis
        by (subst insert_range.simps) (simp add: range_list_Cons)
    qed
  qed
qed

lemma insert_range_in:
  "history e = h \<Longrightarrow> range_found (h 1) f i n \<Longrightarrow>
   insert_range flag e f i n = insert_list flag e (range_list (h 1) f i n)"
  using insert_range_list by blast

lemma insert_record_effect:
  assumes "insert_record e r f = (rc, e')"
  shows "sends e [packet r] rc e'"
    and "record_fits_next_output e r \<Longrightarrow> clean_output e e'"
    and "record_fits_next_output e r \<Longrightarrow> rc = 0 \<Longrightarrow>
           output_pid_state e' = observe_output_states (output_pid_state e) r"
proof -
  obtain c e1 where o: "output_record e r = (c, e1)" by fastforce
  have c: "c = 0 \<or> c = -1"
    using sends_result [OF output_record_sends [OF o]] .
  have e': "rc = c \<and> sink e' = sink e1 \<and> output_pid_state e' = output_pid_state e1 \<and> clean_output e1 e'"
    using assms c
    by (auto simp: insert_record_def o read_wall_time_def clean_output_def
        report_stats_observe_recovery_def Let_def split: if_splits)
  show "sends e [packet r] rc e'"
    using sends_sink_eq [OF output_record_sends [OF o] refl] e' by blast
  {
    assume "record_fits_next_output e r"
    note fit = output_record_fit [OF o this]
    show "clean_output e e'" using fit(1) e' clean_output_trans by blast
    show "rc = 0 \<Longrightarrow> output_pid_state e' = observe_output_states (output_pid_state e) r"
      using fit(2) e' by simp
  }
qed

lemma insert_list_effect:
  assumes "insert_list flag e rs = (rc, e')"
  shows "sends e (map packet rs) rc e'"
    and "states_after (output_pid_state e) rs = Some st \<Longrightarrow>
           clean_output e e' \<and> (rc = 0 \<longrightarrow> output_pid_state e' = st)"
proof -
  have "sends e (map packet rs) rc e' \<and>
      (\<forall>st. states_after (output_pid_state e) rs = Some st \<longrightarrow>
         clean_output e e' \<and> (rc = 0 \<longrightarrow> output_pid_state e' = st))"
    using assms
  proof (induction rs arbitrary: e)
    case Nil
    then show ?case by simp
  next
    case (Cons r rs)
    obtain c e1 where i: "insert_record e r (flag r) = (c, e1)" by fastforce
    note eff = insert_record_effect [OF i]
    show ?case
    proof (cases "c = 0")
      case True
      with Cons.prems i have rest: "insert_list flag e1 rs = (rc, e')" by simp
      from Cons.IH [OF rest] eff True sends_Cons [of e "packet r" e1]
      show ?thesis
        by (auto simp: record_fits_next_output_def split: if_splits intro: clean_output_trans)
    next
      case False
      with Cons.prems i sends_result [OF eff(1)] have "rc = -1" "e' = e1" "c = -1" by auto
      with eff sends_failed [of e "[packet r]" e1 "map packet rs"] show ?thesis
        by (auto simp: record_fits_next_output_def split: if_splits)
    qed
  qed
  then show "sends e (map packet rs) rc e'"
    and "states_after (output_pid_state e) rs = Some st \<Longrightarrow>
           clean_output e e' \<and> (rc = 0 \<longrightarrow> output_pid_state e' = st)" by blast+
qed

lemma quiet_sends: "quiet e e1 \<Longrightarrow> sends e1 ps rc e2 \<Longrightarrow> sends e ps rc e2"
  using sends_sink_eq quietD(1) by metis

lemma log_recovery_clean [simp]: "clean_output e (log_recovery e p n d)"
  by (simp add: log_recovery_def recovery_decision_log_def clean_output_def Let_def)

lemma count_burst_frame [simp]:
  "sink (count_burst e n) = sink e" "output_pid_state (count_burst e n) = output_pid_state e"
  "clean_output e (count_burst e n)"
  by (simp_all add: count_burst_def clean_output_def)

section \<open>What the checking loops establish\<close>

lemma check_mixed_sound:
  "check_mixed h f st i n = Inr (st', cs) \<Longrightarrow>
   range_found h f i n \<and> cs = range_list h f i n \<and> states_after st cs = Some st' \<and>
   (\<forall>c \<in> set cs. \<not> transport_error c \<and> \<not> discontinuity_indicator c)"
proof (induction h f st i n arbitrary: st' cs rule: check_mixed.induct)
  case (1 h f st i n)
  show ?case
  proof (cases "i < n")
    case False
    then show ?thesis using "1.prems" by (simp add: check_mixed.simps)
  next
    case True
    from "1.prems" True obtain c where c: "hist_find h (f + i) = Some c"
      by (subst (asm) check_mixed.simps) (auto split: option.splits)
    have ok: "\<not> transport_error c" "\<not> discontinuity_indicator c" "record_fits_output_states st c"
      using "1.prems" True c by (subst (asm) check_mixed.simps, simp split: if_splits)+
    obtain st1 cs1 where rest: "check_mixed h f (observe_output_states st c) (i + 1) n = Inr (st1, cs1)"
      and eq: "st' = st1" "cs = c # cs1"
      using "1.prems" True c ok
      by (subst (asm) check_mixed.simps) (auto split: sum.splits prod.splits)
    from "1.IH" [OF True c _ _ _ rest] ok True c eq show ?thesis
      by (auto simp: range_found_Cons range_list_Cons)
  qed
qed

lemma check_nulls_sound:
  "check_nulls h f i n = Inr u \<Longrightarrow>
   range_found h f i n \<and>
   (\<forall>c \<in> set (range_list h f i n). is_null c \<and> \<not> transport_error c \<and> \<not> discontinuity_indicator c)"
proof (induction h f i n rule: check_nulls.induct)
  case (1 h f i n)
  show ?case
  proof (cases "i < n")
    case False
    then show ?thesis by simp
  next
    case True
    from "1.prems" True obtain c where c: "hist_find h (f + i) = Some c"
      by (subst (asm) check_nulls.simps) (auto split: option.splits)
    have ok: "is_null c" "\<not> transport_error c" "\<not> discontinuity_indicator c"
      and rest: "check_nulls h f (i + 1) n = Inr u"
      using "1.prems" True c by (subst (asm) check_nulls.simps, simp split: if_splits)+
    from "1.IH" [OF True c _ _ _ rest] ok True c show ?thesis
      by (simp add: range_found_Cons range_list_Cons)
  qed
qed

lemma states_after_nulls: "\<forall>c \<in> set cs. is_null c \<Longrightarrow> states_after st cs = Some st"
  by (induction cs) (auto simp: record_fits_output_states_def observe_output_states_def)

lemma prefix_matches_spec:
  "prefix_matches_from e i n \<longleftrightarrow>
     (\<forall>k \<in> {unat i..<unat n}. \<exists>a b.
        hist_find (history e 0) (primary_index (last_primary_anchor e) + 1 + of_nat k) = Some a \<and>
        hist_find (history e 1) (secondary_index (last_primary_anchor e) + 1 + of_nat k) = Some b \<and>
        records_exact_non_error_match a b)"
proof (induction e i n rule: prefix_matches_from.induct)
  case (1 e i n)
  let ?a = "hist_find (history e 0) (primary_index (last_primary_anchor e) + 1 + i)"
  let ?b = "hist_find (history e 1) (secondary_index (last_primary_anchor e) + 1 + i)"
  show ?case
  proof (cases "i < n")
    case False
    then show ?thesis by (simp add: prefix_matches_from.simps word_less_nat_alt)
  next
    case True
    have set: "{unat i..<unat n} = insert (unat i) {unat (i + 1)..<unat n}"
      using True by (auto simp: unat_inc_less word_less_nat_alt)
    show ?thesis
    proof (cases "\<exists>a b. ?a = Some a \<and> ?b = Some b \<and> records_exact_non_error_match a b")
      case ok: True
      then obtain a b where ab: "?a = Some a" "?b = Some b" "records_exact_non_error_match a b" by blast
      have step: "prefix_matches_from e i n = prefix_matches_from e (i + 1) n"
        using True ab by (subst prefix_matches_from.simps) simp
      show ?thesis
        unfolding step using "1.IH" [OF True refl ab(1) ab(2)] ab
        by (simp add: set)
    next
      case bad: False
      then have "\<not> prefix_matches_from e i n"
        using True by (subst prefix_matches_from.simps) (auto split: option.splits)
      then show ?thesis using bad by (simp add: set)
    qed
  qed
qed

section \<open>Exact content gaps\<close>

text \<open>The record that stands for the \<open>j\<close>-th lost packet of the primary packet's PID.\<close>

definition lost_packet ::
    "'s recovery_engine \<Rightarrow> packet_record \<Rightarrow> u8 \<Rightarrow> nat \<Rightarrow> packet_record \<Rightarrow> bool" where
  "lost_packet e primary previous_cc j c \<longleftrightarrow>
     c \<in> set (hist_list (history e 1)) \<and> record_is_informative c \<and> has_payload c \<and>
     pid c = pid primary \<and> unat (continuity_counter c) = (unat previous_cc + 1 + j) mod 16"

lemma scan_candidate_sound:
  "scan_candidate h p cc i l cand = Inr (Some c) \<Longrightarrow> cand = Some c \<or> c \<in> set (hist_list h)"
proof (induction h p cc i l cand rule: scan_candidate.induct)
  case (1 h p cc i l cand)
  show ?case
  proof (cases "i < l")
    case False
    then show ?thesis using "1.prems" by (simp add: scan_candidate.simps)
  next
    case True
    show ?thesis
    proof (cases "hist_find h i")
      case None
      with "1.prems" True have "scan_candidate h p cc (i + 1) l cand = Inr (Some c)"
        by (subst (asm) scan_candidate.simps) simp
      from "1.IH"(1) [OF True None this] show ?thesis .
    next
      case (Some r)
      let ?hit = "\<not> is_null r \<and> has_payload r \<and> pid r = p \<and> continuity_counter r = cc"
      show ?thesis
      proof (cases ?hit)
        case hit: True
        with "1.prems" True Some have "cand = None"
            and "scan_candidate h p cc (i + 1) l (Some r) = Inr (Some c)"
          by (subst (asm) scan_candidate.simps, simp split: if_splits)+
        with "1.IH"(2) [OF True Some hit _ this(2)] hist_find_in [OF Some] show ?thesis by auto
      next
        case miss: False
        with "1.prems" True Some have "scan_candidate h p cc (i + 1) l cand = Inr (Some c)"
          by (subst (asm) scan_candidate.simps) auto
        from "1.IH"(3) [OF True Some miss this] show ?thesis .
      qed
    qed
  qed
qed

lemma unat_u8_u64: "unat (ucast (x :: u8) :: u64) = unat x"
proof -
  have "unat x < 2 ^ LENGTH(8)" by (rule unsigned_less)
  then have "unat x < 2 ^ 64" by simp
  then show ?thesis by (simp add: unsigned_ucast_eq take_bit_eq_mod)
qed

lemma unat_u32_u64: "unat (ucast (x :: u32) :: u64) = unat x"
proof -
  have "unat x < 2 ^ LENGTH(32)" by (rule unsigned_less)
  then have "unat x < 2 ^ 64" by simp
  then show ?thesis by (simp add: unsigned_ucast_eq take_bit_eq_mod)
qed

lemma within_burst: "\<not> ucast (b :: u32) < (n :: u64) \<Longrightarrow> unat n \<le> unat b"
  by (simp add: word_less_nat_alt unat_u32_u64)

lemma unat_u64_u8: "unat (ucast (x :: u64) :: u8) = unat x mod 256"
  by (simp add: unsigned_ucast_eq take_bit_eq_mod)

lemma unat_expected_cc:
  assumes "k < 16"
  shows "unat (expected_missing_cc prev k) = (unat prev + 1 + unat k) mod 16"
proof -
  have "unat prev < 256" using unsigned_less [of prev] by simp
  moreover have "unat k < 16" using assms by (simp add: word_less_nat_alt)
  ultimately have s: "unat (ucast prev + 1 + k) = unat prev + 1 + unat k"
    by (simp add: unat_word_ariths unat_u8_u64 unat_u64_u8)
  have m: "(x :: u64) AND 15 = x mod 16" for x
  proof -
    have "x AND mask 4 = take_bit 4 x" by (simp add: take_bit_eq_mask)
    then show ?thesis by (simp add: take_bit_eq_mod mask_eq_exp_minus_1)
  qed
  show ?thesis
    by (simp add: expected_missing_cc_def m unat_u8_u64 unat_u64_u8 unat_mod s)
qed

lemma pick_exact_candidate_sound:
  assumes "pick_exact_candidate e p sm m prev f k = Inr c"
  shows "c \<in> set (hist_list (history e 1)) \<and> record_is_informative c \<and> has_payload c \<and>
         pid c = pid p \<and> continuity_counter c = expected_missing_cc prev k"
  using assms
  by (auto simp: pick_exact_candidate_def record_is_informative_def Let_def
      split: sum.splits option.splits if_splits dest: scan_candidate_sound hist_find_in)

lemma pick_exact_candidates_sound:
  "pick_exact_candidates e p sm m prev f k n = Inr cs \<Longrightarrow>
   length cs = unat n - unat k \<and>
   (\<forall>j < length cs. cs ! j \<in> set (hist_list (history e 1)) \<and> record_is_informative (cs ! j) \<and>
      has_payload (cs ! j) \<and> pid (cs ! j) = pid p \<and>
      continuity_counter (cs ! j) = expected_missing_cc prev (k + of_nat j))"
proof (induction e p sm m prev f k n arbitrary: cs rule: pick_exact_candidates.induct)
  case (1 e p sm m prev f k n)
  show ?case
  proof (cases "k < n")
    case False
    then show ?thesis using "1.prems" by (simp add: pick_exact_candidates.simps word_less_nat_alt)
  next
    case True
    from "1.prems" True obtain c cs1 where c: "pick_exact_candidate e p sm m prev f k = Inr c"
      and rest: "pick_exact_candidates e p sm m prev f (k + 1) n = Inr cs1" and cs: "cs = c # cs1"
      by (subst (asm) pick_exact_candidates.simps) (auto split: sum.splits)
    note ih = "1.IH" [OF True c rest]
    have len: "length cs = unat n - unat k"
      using ih cs True by (simp add: unat_inc_less word_less_nat_alt)
    show ?thesis
      using ih pick_exact_candidate_sound [OF c] len
      by (auto simp: cs nth_Cons split: nat.splits) (simp_all add: algebra_simps)
  qed
qed

lemma infer_missing_small: "infer_missing_from_cc prev r = Some m \<Longrightarrow> m < 15"
proof -
  assume a: "infer_missing_from_cc prev r = Some m"
  define d where "d = (continuity_counter r + 16 - prev) AND 15"
  from a have m: "m = ucast (d - 1)" and d: "d \<noteq> 0"
    by (auto simp: infer_missing_from_cc_def d_def Let_def split: if_splits)
  have "unat d < 16" by (simp add: d_def unat_and_15)
  moreover from d have "unat (d - 1) = unat d - 1" by (simp add: unat_minus_one)
  ultimately show ?thesis using d by (simp add: m word_less_nat_alt unat_u8_u64 unat_u64_u8 unat_eq_zero)
qed

lemma cc_missing_small:
  assumes "cc_missing_count e p m = Some n"
  shows "n < 16 \<and> previous_output_cc_for_record e p \<noteq> None"
proof -
  have "x \<le> 15 \<Longrightarrow> x < (16 :: u64)" for x by (simp add: word_less_nat_alt word_le_nat_alt)
  moreover have "x < 15 \<Longrightarrow> x < (16 :: u64)" for x by (simp add: word_less_nat_alt)
  ultimately show ?thesis using assms infer_missing_small
    by (fastforce simp: cc_missing_count_def split: option.splits if_splits)
qed

end
