(* ===== verification/Example_Gap.thy ===== *)
theory Example_Gap
  imports Drain
begin

text \<open>
  Concrete engines on which the theorems are instantiated: two inputs of one PID, where the
  primary has lost the packet between its first and its second, and a sink that keeps every
  packet. They model no code.
\<close>

definition ex_record :: "int \<Rightarrow> u64 \<Rightarrow> u8 \<Rightarrow> bool \<Rightarrow> packet_record" where
  "ex_record sid idx cc null_packet = zero_record\<lparr>
     source_stream_id := sid, stream_index := idx, arrival_time_ns := 1000 + idx,
     pid := (if null_packet then 0x1fff else 0x100), continuity_counter := cc, has_payload := True,
     is_null := null_packet, hash := 7000 + ucast cc, packet := [0x47, cc]\<rparr>"

definition ex_history :: "packet_record list \<Rightarrow> packet_history" where
  "ex_history rs = \<lparr>hist_records = rs, hist_capacity = length rs, hist_start = 0,
                    hist_count = length rs\<rparr>"

definition ex_queue :: "packet_record list \<Rightarrow> delay_queue" where
  "ex_queue rs = \<lparr>q_records = rs, q_capacity = length rs, q_start = 0, q_count = length rs,
                  delay_ns = 2500000000\<rparr>"

definition ex_sink :: "bytes list packet_sink" where
  "ex_sink = \<lparr>sink_ctx = [], send_fn = (\<lambda>sent p. (0, sent @ [p])), flush_fn = None\<rparr>"

definition ex_world :: world where
  "ex_world = \<lparr>clock = (\<lambda>_. Some (1, 0)), wall_time = (\<lambda>_. 77), time_of_day = (\<lambda>_. (77, 0)),
               reads = 0, decision_log = []\<rparr>"

definition ex_engine :: "packet_record list \<Rightarrow> packet_record list \<Rightarrow> bytes list recovery_engine" where
  "ex_engine ps ss = (zero_engine ex_sink zero_stats ex_world)\<lparr>
     config := recovery_engine_default_config, stats := zero_stats\<lparr>alignment_confidence := 100\<rparr>,
     history := (\<lambda>i. if i = 0 then ex_history ps else ex_history ss),
     primary_queue := ex_queue (tl ps), secondary_queue := ex_queue (tl ss),
     next_stream_index := (\<lambda>i. if i = 0 then of_nat (length ps) else of_nat (length ss)),
     last_input_arrival_ns := (\<lambda>_. 1002),
     alignment := \<lparr>has_alignment = True, offset_packets = 0, confidence = 100,
       consecutive_matches = 8, consecutive_misses = 0\<rparr>,
     last_primary_anchor := \<lparr>anchor_valid = True, primary_index = 0, secondary_index = 0\<rparr>,
     output_pid_state := (\<lambda>_. \<lparr>out_valid = True, out_cc = 3, last_arrival_time_ns = 0,
       last_recovered_secondary_arrival_ns = 0, last_primary_continuity_errors = 0\<rparr>)\<rparr>"

text \<open>The packets: the primary sees 3 and 5, the secondary 3, 4 and 5.\<close>

definition content_gap :: "bytes list recovery_engine" where
  "content_gap = ex_engine [ex_record 0 0 3 False, ex_record 0 1 5 False]
                   [ex_record 1 0 3 False, ex_record 1 1 4 False, ex_record 1 2 5 False]"

text \<open>The primary sees 3 and 4, the secondary has a null packet in between.\<close>

definition null_gap :: "bytes list recovery_engine" where
  "null_gap = ex_engine [ex_record 0 0 3 False, ex_record 0 1 4 False]
                [ex_record 1 0 3 False, ex_record 1 1 0 True, ex_record 1 2 4 False]"

lemma content_gap_valid:
  "val_valid (validate_exact_content_candidate content_gap (ex_record 0 1 5 False)
     (Some (ex_record 1 2 5 False)))"
  by code_simp

lemma content_gap_mixed_valid:
  "val_valid (validate_mixed_position_candidate content_gap (ex_record 0 1 5 False)
     (Some (ex_record 1 2 5 False)))"
  by code_simp

lemma null_gap_valid:
  "val_valid (validate_null_position_candidate null_gap (ex_record 0 1 4 False)
     (Some (ex_record 1 2 4 False)))"
  by code_simp

text \<open>The second packet of the primary is damaged, its neighbours are not.\<close>

definition damaged :: packet_record where
  "damaged = (ex_record 0 1 4 False)\<lparr>transport_error := True\<rparr>"

definition tei_gap :: "bytes list recovery_engine" where
  "tei_gap = ex_engine [ex_record 0 0 3 False, damaged, ex_record 0 2 5 False]
               [ex_record 1 0 3 False, ex_record 1 1 4 False, ex_record 1 2 5 False]"

lemma tei_gap_inserts: "fst (try_recover_primary_tei_packet tei_gap damaged) = 1"
  by code_simp

lemma content_gap_queue: "queue_ok (primary_queue content_gap)" "queue_ok (secondary_queue content_gap)"
  "eng_active_output_stream_id content_gap = 0"
  by (simp_all add: content_gap_def ex_engine_def ex_queue_def queue_ok_def zero_engine_def)

text \<open>Two primary packets and nothing known about the secondary.\<close>

definition plain :: "bytes list recovery_engine" where
  "plain = (ex_engine [ex_record 0 0 3 False, ex_record 0 1 4 False, ex_record 0 2 5 False] [])
     \<lparr>last_primary_anchor := \<lparr>anchor_valid = False, primary_index = 0, secondary_index = 0\<rparr>,
      alignment := \<lparr>has_alignment = False, offset_packets = 0, confidence = 0,
        consecutive_matches = 0, consecutive_misses = 0\<rparr>\<rparr>"

lemma plain_queue: "queue_ok (primary_queue plain)" "eng_active_output_stream_id plain = 0"
  by (simp_all add: plain_def ex_engine_def ex_queue_def queue_ok_def zero_engine_def)

lemma plain_clock: "\<forall>k. report_stats_now_ns (clock (world plain) k) = 1000000000"
  by (simp add: plain_def ex_engine_def zero_engine_def ex_world_def report_stats_now_ns_def)

lemma plain_drained:
  "(case drain_loop True plain of
      Inl _ \<Rightarrow> False | Inr e' \<Rightarrow> sink_ctx (sink e') = [[0x47, 4], [0x47, 5]])"
  by code_simp

lemma plain_waits:
  "(case drain_loop False plain of Inl _ \<Rightarrow> False | Inr e' \<Rightarrow> sink_ctx (sink e') = [])"
  by code_simp

end
