(* ===== verification/Recovery_Theorems.thy ===== *)
theory Recovery_Theorems
  imports Recovery_Facts Example_Gap
begin

text \<open>
  The properties of the recoveries: a gap the validator accepts is repaired with exactly the
  missing packets; what is inserted never breaks the output's continuity; a rejection
  changes nothing; and a recovery runs only when exactly one candidate is valid.
\<close>

section \<open>Plans\<close>

lemma validation_invalid [simp]:
  "\<not> val_valid (fresh_validation reason)"
  "val_valid (reject_with v rr reason) = val_valid v"
  by (simp_all add: fresh_validation_def reject_with_def)

text \<open>What a valid exact gap consists of: the count and the records the recovery will find.\<close>

definition exact_plan ::
    "'s recovery_engine \<Rightarrow> packet_record \<Rightarrow> packet_record \<Rightarrow> u64 \<Rightarrow> packet_record list
     \<Rightarrow> (u16 \<Rightarrow> output_pid_state) \<Rightarrow> bool" where
  "exact_plan e p sm n cs st \<longleftrightarrow>
     gap_shape e p (Some sm) \<and> \<not> secondary_between e sm < primary_between e p \<and>
     \<not> record_fits_next_output e p \<and>
     cc_missing_count e p (secondary_between e sm - primary_between e p) = Some n \<and> n \<noteq> 0 \<and>
     \<not> ucast (max_content_burst_packets (config e)) < n \<and>
     \<not> confidence (alignment e) < min_alignment_confidence (config e) \<and>
     before_anchor_holds e \<and> after_anchor_holds p sm \<and>
     pick_exact_candidates e p sm (secondary_between e sm - primary_between e p)
       (the (previous_output_cc_for_record e p)) (exact_first_index e p sm) 0 n = Inr cs \<and>
     states_after (output_pid_state e) cs = Some st \<and> record_fits_output_states st p"

lemma exact_valid_plan:
  "val_valid (validate_exact_content_candidate e p (Some sm)) \<longleftrightarrow>
     (\<exists>n cs st. exact_plan e p sm n cs st)"
  unfolding validate_exact_content_candidate_def exact_plan_def Let_def option.sel
  by (auto split: option.splits sum.splits prod.splits)

lemma exact_plan_recovers:
  assumes "exact_plan e p sm n cs st"
  shows "try_recover_exact_content_gap e p (Some sm) =
     (case insert_list (\<lambda>_. False) (log_recovery e p n
             (if 1 < n then ''recover_content_burst'' else ''recover_content'')) cs of
        (rc, e') \<Rightarrow> if rc \<noteq> 0 then (-1, e') else (1, count_burst e' n))"
  using assms unfolding exact_plan_def
  by (simp add: try_recover_exact_content_gap_def Let_def insert_records_list)

lemma exact_no_plan:
  assumes "\<nexists>n cs st. exact_plan e p sm n cs st"
  shows "\<exists>rc. fst (try_recover_exact_content_gap e p (Some sm)) = rc \<and> (rc = 0 \<or> rc = 2)"
  using assms unfolding exact_plan_def try_recover_exact_content_gap_def Let_def option.sel
  by (auto split: option.splits sum.splits prod.splits simp: reject_gap_def Let_def)

section \<open>Exact content gaps are repaired\<close>

lemma exact_plan_packets:
  assumes "exact_plan e p sm n cs st"
  shows "length cs = unat n" and "j < length cs \<Longrightarrow>
      lost_packet e p (the (previous_output_cc_for_record e p)) j (cs ! j)"
proof -
  from assms have n: "n < 16" using cc_missing_small by (auto simp: exact_plan_def)
  have pick: "length cs = unat n - unat (0 :: u64) \<and>
     (\<forall>j < length cs. cs ! j \<in> set (hist_list (history e 1)) \<and> record_is_informative (cs ! j) \<and>
        has_payload (cs ! j) \<and> pid (cs ! j) = pid p \<and>
        continuity_counter (cs ! j) =
          expected_missing_cc (the (previous_output_cc_for_record e p)) (0 + of_nat j))"
    using assms unfolding exact_plan_def by (intro pick_exact_candidates_sound) blast
  then show len: "length cs = unat n" by simp
  assume j: "j < length cs"
  have "unat n < 16" using n by (simp add: word_less_nat_alt)
  with j len have "j < 16" by simp
  then have "(of_nat j :: u64) < 16" "unat (of_nat j :: u64) = j"
    by (simp_all add: word_less_nat_alt unat_of_nat)
  with pick j show "lost_packet e p (the (previous_output_cc_for_record e p)) j (cs ! j)"
    by (simp add: lost_packet_def unat_expected_cc)
qed

text \<open>The insertion loop after the log line, for any list that the output can continue with.\<close>

lemma inserted_list:
  assumes "insert_list flag (log_recovery e p n d) cs = (rc, e1)"
    and "states_after (output_pid_state e) cs = Some st"
  shows "sends e (map packet cs) rc e1" "clean_output e e1" "rc = 0 \<or> rc = -1"
    and "rc = 0 \<Longrightarrow> output_pid_state e1 = st"
proof -
  have q: "output_pid_state (log_recovery e p n d) = output_pid_state e"
    by (rule quietD(17)) simp
  note eff = insert_list_effect [OF assms(1)]
  show s: "sends e (map packet cs) rc e1" using quiet_sends [OF _ eff(1)] by simp
  show "rc = 0 \<or> rc = -1" by (rule sends_result [OF s])
  show "clean_output e e1" "rc = 0 \<Longrightarrow> output_pid_state e1 = st"
    using eff(2) assms(2) clean_output_trans [OF log_recovery_clean] unfolding q by blast+
qed

text \<open>
  C9. A content gap that the validator accepts is repaired exactly: for each lost packet,
  in the order of the continuity counter, the recovery sends one undamaged packet of the same
  PID, with exactly the counter that was missing, taken from the secondary's history; at
  least one and no more than the configured burst. Unless the sink fails, the primary packet
  then continues the output without a jump, and no continuity error or duplicate was counted.
\<close>

theorem exact_gap_repaired:
  assumes "val_valid (validate_exact_content_candidate e p (Some sm))"
    and "try_recover_exact_content_gap e p (Some sm) = (rc, e')"
  shows "\<exists>prev cs. previous_output_cc_for_record e p = Some prev \<and>
     cs \<noteq> [] \<and> length cs \<le> unat (max_content_burst_packets (config e)) \<and>
     (\<forall>j < length cs. lost_packet e p prev j (cs ! j)) \<and>
     (rc = 1 \<or> rc = -1) \<and> sends e (map packet cs) (if rc = 1 then 0 else -1) e' \<and>
     (rc = 1 \<longrightarrow> record_fits_next_output e' p) \<and>
     clean_output e e'"
proof -
  obtain n cs st where plan: "exact_plan e p sm n cs st"
    using assms(1) exact_valid_plan by blast
  let ?d = "if 1 < n then ''recover_content_burst'' else ''recover_content''"
  obtain prev where prev: "previous_output_cc_for_record e p = Some prev"
    using plan cc_missing_small [of e p _ n] unfolding exact_plan_def by blast
  obtain c e1 where ins: "insert_list (\<lambda>_. False) (log_recovery e p n ?d) cs = (c, e1)" by fastforce
  have st: "states_after (output_pid_state e) cs = Some st" "record_fits_output_states st p" "n \<noteq> 0"
      and le: "\<not> ucast (max_content_burst_packets (config e)) < n"
    using plan by (auto simp: exact_plan_def)
  note eff = inserted_list [OF ins st(1)]
  have res: "(rc, e') = (if c \<noteq> 0 then (-1, e1) else (1, count_burst e1 n))"
    using exact_plan_recovers [OF plan] assms(2) ins by simp
  have "unat n \<le> unat (max_content_burst_packets (config e))"
    by (rule within_burst [OF le])
  moreover have "cs \<noteq> []" using exact_plan_packets(1) [OF plan] st(3) by (auto simp: unat_eq_zero)
  moreover have "(rc = 1 \<or> rc = -1) \<and> sends e (map packet cs) (if rc = 1 then 0 else -1) e' \<and>
     (rc = 1 \<longrightarrow> record_fits_next_output e' p)"
    using res eff st(2) by (cases "c = 0")
      (auto simp: record_fits_next_output_def intro: sends_sink_eq)
  moreover have "clean_output e e'"
    using res eff(2) by (auto split: if_splits intro: clean_output_trans)
  ultimately show ?thesis
    using prev exact_plan_packets [OF plan] by auto
qed

lemma exact_gap_repaired_witness:
  "\<exists>rc e' (cs :: packet_record list). try_recover_exact_content_gap content_gap (ex_record 0 1 5 False)
       (Some (ex_record 1 2 5 False)) = (rc, e') \<and>
     cs \<noteq> [] \<and> sends content_gap (map packet cs) (if rc = 1 then 0 else -1) e'"
proof -
  obtain rc e' where r: "try_recover_exact_content_gap content_gap (ex_record 0 1 5 False)
      (Some (ex_record 1 2 5 False)) = (rc, e')" by fastforce
  from exact_gap_repaired [OF content_gap_valid r] obtain cs :: "packet_record list"
    where "cs \<noteq> []" and "sends content_gap (map packet cs) (if rc = 1 then 0 else -1) e'" by blast
  with r show ?thesis by blast
qed

section \<open>Mixed and null gaps are repaired\<close>

definition missing_span :: "'s recovery_engine \<Rightarrow> packet_record \<Rightarrow> packet_record \<Rightarrow> u64" where
  "missing_span e p sm = secondary_between e sm - primary_between e p"

definition missing_records :: "'s recovery_engine \<Rightarrow> packet_record \<Rightarrow> packet_record \<Rightarrow> packet_record list" where
  "missing_records e p sm =
     range_list (history e 1) (secondary_index (last_primary_anchor e) + primary_between e p + 1)
       0 (missing_span e p sm)"

definition mixed_plan ::
    "'s recovery_engine \<Rightarrow> packet_record \<Rightarrow> packet_record \<Rightarrow> (u16 \<Rightarrow> output_pid_state) \<Rightarrow> bool" where
  "mixed_plan e p sm st \<longleftrightarrow>
     gap_shape e p (Some sm) \<and> \<not> secondary_between e sm \<le> primary_between e p \<and>
     missing_span e p sm \<noteq> 0 \<and>
     \<not> ucast (max_content_burst_packets (config e)) < missing_span e p sm \<and>
     \<not> confidence (alignment e) < min_alignment_confidence (config e) \<and>
     before_anchor_holds e \<and> after_anchor_holds p sm \<and> prefix_matches_from e 0 (primary_between e p) \<and>
     check_mixed (history e 1)
       (secondary_index (last_primary_anchor e) + primary_between e p + 1) (output_pid_state e) 0
       (missing_span e p sm) = Inr (st, missing_records e p sm) \<and>
     \<not> list_all is_null (missing_records e p sm) \<and> record_fits_output_states st p"

lemma mixed_valid_plan:
  "val_valid (validate_mixed_position_candidate e p (Some sm)) \<longleftrightarrow> (\<exists>st. mixed_plan e p sm st)"
  unfolding validate_mixed_position_candidate_def mixed_plan_def Let_def option.sel
    missing_span_def [symmetric]
  using check_mixed_sound [of "history e 1" _ "output_pid_state e" 0 "missing_span e p sm"]
  by (auto simp: missing_records_def split: sum.splits prod.splits)

lemma mixed_plan_recovers:
  assumes "mixed_plan e p sm st"
  shows "try_recover_mixed_position_gap e p (Some sm) =
     (case insert_list is_null (log_recovery e p (missing_span e p sm)
             (mixed_decision p (missing_records e p sm) (missing_span e p sm))) (missing_records e p sm) of
        (rc, e') \<Rightarrow> if rc \<noteq> 0 then (-1, e') else (1, count_burst e' (missing_span e p sm)))"
proof -
  let ?f = "secondary_index (last_primary_anchor e) + primary_between e p + 1"
  let ?e = "log_recovery e p (missing_span e p sm)
      (mixed_decision p (missing_records e p sm) (missing_span e p sm))"
  have h: "history ?e = history e" by (rule quietD(3)) simp
  have "range_found (history e 1) ?f 0 (missing_span e p sm)"
    using assms check_mixed_sound unfolding mixed_plan_def by blast
  from insert_range_in [OF h this, of is_null]
  have "insert_range is_null ?e ?f 0 (missing_span e p sm) =
      insert_list is_null ?e (missing_records e p sm)"
    unfolding missing_records_def [symmetric] .
  then show ?thesis
    using assms
    unfolding mixed_plan_def try_recover_mixed_position_gap_def Let_def option.sel
      missing_span_def [symmetric]
    by simp
qed

text \<open>
  C10. A mixed gap that the validator accepts is repaired by the packets the secondary has
  between the common prefix and the packet that ends the gap: one for each missing position,
  in stream order, each present in its history and undamaged. The common prefix matches
  packet for packet. Unless the sink fails, the primary packet then continues the output
  without a jump, and no continuity error or duplicate was counted.
\<close>

theorem mixed_gap_repaired:
  assumes "val_valid (validate_mixed_position_candidate e p (Some sm))"
    and "try_recover_mixed_position_gap e p (Some sm) = (rc, e')"
  shows "map stream_index (missing_records e p sm) =
       map (\<lambda>k. secondary_index (last_primary_anchor e) + primary_between e p + 1 + of_nat k)
         [0..<unat (missing_span e p sm)] \<and>
     set (missing_records e p sm) \<subseteq> set (hist_list (history e 1)) \<and>
     (\<forall>c \<in> set (missing_records e p sm). \<not> transport_error c \<and> \<not> discontinuity_indicator c) \<and>
     prefix_matches_from e 0 (primary_between e p) \<and>
     (rc = 1 \<or> rc = -1) \<and>
     sends e (map packet (missing_records e p sm)) (if rc = 1 then 0 else -1) e' \<and>
     (rc = 1 \<longrightarrow> record_fits_next_output e' p) \<and>
     clean_output e e'"
proof -
  obtain st where plan: "mixed_plan e p sm st" using assms(1) mixed_valid_plan by blast
  let ?cs = "missing_records e p sm" and ?n = "missing_span e p sm"
  obtain c e1 where ins: "insert_list is_null (log_recovery e p ?n (mixed_decision p ?cs ?n)) ?cs = (c, e1)"
    by fastforce
  let ?f = "secondary_index (last_primary_anchor e) + primary_between e p + 1"
  have chk: "range_found (history e 1) ?f 0 ?n" "states_after (output_pid_state e) ?cs = Some st"
      "\<forall>c \<in> set ?cs. \<not> transport_error c \<and> \<not> discontinuity_indicator c"
    using plan check_mixed_sound unfolding mixed_plan_def by blast+
  have st: "record_fits_output_states st p" using plan by (simp add: mixed_plan_def)
  note eff = inserted_list [OF ins chk(2)]
  have res: "(rc, e') = (if c \<noteq> 0 then (-1, e1) else (1, count_burst e1 ?n))"
    using mixed_plan_recovers [OF plan] assms(2) ins by simp
  have "(rc = 1 \<or> rc = -1) \<and> sends e (map packet ?cs) (if rc = 1 then 0 else -1) e' \<and>
     (rc = 1 \<longrightarrow> record_fits_next_output e' p)"
    using res eff st by (cases "c = 0") (auto simp: record_fits_next_output_def intro: sends_sink_eq)
  moreover have "clean_output e e'"
    using res eff(2) by (auto split: if_splits intro: clean_output_trans)
  moreover have "prefix_matches_from e 0 (primary_between e p)" using plan by (simp add: mixed_plan_def)
  ultimately show ?thesis
    using range_list_indices [OF chk(1)] range_list_in [OF chk(1)] chk(3)
    by (simp add: missing_records_def)
qed

lemma mixed_gap_repaired_witness:
  "\<exists>rc e'. try_recover_mixed_position_gap content_gap (ex_record 0 1 5 False)
       (Some (ex_record 1 2 5 False)) = (rc, e') \<and>
     sends content_gap
       (map packet (missing_records content_gap (ex_record 0 1 5 False) (ex_record 1 2 5 False)))
       (if rc = 1 then 0 else -1) e'"
proof -
  obtain rc e' where r: "try_recover_mixed_position_gap content_gap (ex_record 0 1 5 False)
      (Some (ex_record 1 2 5 False)) = (rc, e')" by fastforce
  note m = mixed_gap_repaired [OF content_gap_mixed_valid r]
  show ?thesis by (intro exI conjI, rule r) (insert m, elim conjE, assumption)
qed

text \<open>
  C11. A null gap that the validator accepts is repaired when no packet of the primary lies
  between the anchor and the gap: the null packets of the secondary, one for each missing
  position, are sent in order and nothing else, the per-PID counters of the output stay as
  they were, and no continuity error is counted. When primary packets do lie in between, the
  gap is accepted by the validator but the recovery does nothing.
\<close>

theorem null_gap_repaired:
  assumes "val_valid (validate_null_position_candidate e p (Some sm))"
    and "try_recover_null_position_gap e p (Some sm) = (rc, e')"
  shows "(\<forall>c \<in> set (missing_records e p sm). is_null c \<and> c \<in> set (hist_list (history e 1))) \<and>
     length (missing_records e p sm) = unat (missing_span e p sm) \<and> clean_output e e' \<and>
     (if primary_between e p = 0
      then (rc = 1 \<or> rc = -1) \<and>
           sends e (map packet (missing_records e p sm)) (if rc = 1 then 0 else -1) e' \<and>
           (rc = 1 \<longrightarrow> output_pid_state e' = output_pid_state e)
      else rc = 0 \<and> e' = e)"
proof -
  let ?cs = "missing_records e p sm" and ?n = "missing_span e p sm"
  let ?f = "secondary_index (last_primary_anchor e) + primary_between e p + 1"
  have v: "gap_shape e p (Some sm)" "\<not> secondary_between e sm \<le> primary_between e p"
      "?n \<noteq> 0" "\<not> ucast (max_content_burst_packets (config e)) < ?n"
      "\<not> confidence (alignment e) < min_alignment_confidence (config e)"
      "before_anchor_holds e" "after_anchor_holds p sm"
      "check_nulls (history e 1) ?f 0 ?n = Inr ()"
    using assms(1)
    unfolding validate_null_position_candidate_def Let_def option.sel missing_span_def [symmetric]
    by (simp_all split: if_splits sum.splits option.splits prod.splits null_scan.splits)
  note chk = check_nulls_sound [OF v(8)]
  have found: "range_found (history e 1) ?f 0 ?n" and nulls: "\<forall>c \<in> set ?cs. is_null c"
    using chk by (simp_all add: missing_records_def)
  let ?e = "log_recovery e p ?n ''recover_null_region''"
  obtain c e1 where ins: "insert_list (\<lambda>_. True) ?e ?cs = (c, e1)" by fastforce
  have h: "history ?e = history e" by (rule quietD(3)) simp
  note eff = inserted_list [OF ins states_after_nulls [OF nulls]]
  have "clean_output e e' \<and> (if primary_between e p = 0
      then (rc = 1 \<or> rc = -1) \<and> sends e (map packet ?cs) (if rc = 1 then 0 else -1) e' \<and>
           (rc = 1 \<longrightarrow> output_pid_state e' = output_pid_state e)
      else rc = 0 \<and> e' = e)"
  proof (cases "primary_between e p = 0")
    case True
    from insert_range_in [OF h found, of "\<lambda>_. True"] ins
    have "insert_range (\<lambda>_. True) ?e ?f 0 ?n = (c, e1)"
      by (simp add: missing_records_def [symmetric])
    then have "(rc, e') = (if c \<noteq> 0 then (-1, e1) else (1, e1))"
      using assms(2) v True
      unfolding try_recover_null_position_gap_def Let_def option.sel missing_span_def [symmetric]
      by simp
    then show ?thesis using True eff by (cases "c = 0") auto
  next
    case False
    then have "rc = 0" "e' = e"
      using assms(2) v
      unfolding try_recover_null_position_gap_def Let_def option.sel missing_span_def [symmetric]
      by simp_all
    with False show ?thesis by simp
  qed
  then show ?thesis
    using nulls range_list_in [OF found] by (auto simp: missing_records_def)
qed

lemma null_gap_repaired_witness:
  "\<exists>rc e'. try_recover_null_position_gap null_gap (ex_record 0 1 4 False)
       (Some (ex_record 1 2 4 False)) = (rc, e') \<and> clean_output null_gap e'"
proof -
  obtain rc e' where r: "try_recover_null_position_gap null_gap (ex_record 0 1 4 False)
      (Some (ex_record 1 2 4 False)) = (rc, e')" by fastforce
  note m = null_gap_repaired [OF null_gap_valid r]
  show ?thesis by (intro exI conjI, rule r) (insert m, elim conjE, assumption)
qed

section \<open>A damaged packet is replaced\<close>

lemma tei_effect:
  assumes "try_recover_primary_tei_packet e p = (rc, e')" and "rc = 1 \<or> rc = -1"
  shows "transport_error p \<and>
     (\<exists>c. find_aligned_secondary_record e p = Some c \<and> record_is_informative c \<and> has_payload c \<and>
        pid c = pid p \<and> continuity_counter c = continuity_counter p \<and>
        record_fits_next_output e c \<and> before_anchor_holds e \<and>
        (\<exists>a b. hist_find (history e 0) (stream_index p + 1) = Some a \<and>
               hist_find (history e 1) (stream_index c + 1) = Some b \<and> records_match a b) \<and>
        min_alignment_confidence (config e) \<le> confidence (alignment e) \<and>
        sends e [packet c] (if rc = 1 then 0 else -1) e' \<and> clean_output e e')"
proof -
  have rej: "reject_gap e p n c b a rr reason \<noteq> (rc, e')" for n c b a rr reason
    using assms(2) by (auto simp: reject_gap_def Let_def)
  have tei: "transport_error p"
    using assms by (auto simp: try_recover_primary_tei_packet_def Let_def split: if_splits)
  have pre: "\<not> confidence (alignment e) < min_alignment_confidence (config e)" "before_anchor_holds e"
    using assms(1) tei rej by (auto simp: try_recover_primary_tei_packet_def Let_def split: if_splits)
  obtain c where c: "find_aligned_secondary_record e p = Some c"
    using assms(1) tei rej
    by (auto simp: try_recover_primary_tei_packet_def Let_def split: if_splits option.splits)
  have ok: "record_is_informative c" "has_payload c" "pid c = pid p"
      "continuity_counter c = continuity_counter p" "record_fits_next_output e c"
      "records_are_non_null_exact_anchor (hist_find (history e 0) (stream_index p + 1))
         (if stream_index c = - 1 then None else hist_find (history e 1) (stream_index c + 1))"
    using assms(1) tei rej c
    by (auto simp: try_recover_primary_tei_packet_def Let_def record_is_informative_def
        split: if_splits)
  let ?e = "log_recovery e p 0 ''recover_primary_tei''"
  obtain d e1 where ins: "insert_record ?e c False = (d, e1)" by fastforce
  have res: "(rc, e') = (if d \<noteq> 0 then (-1, e1) else (1, e1))"
    using assms(1) tei rej c ins
    by (auto simp: try_recover_primary_tei_packet_def Let_def split: if_splits)
  have fit: "record_fits_next_output ?e c"
    using ok(5) quietD(17) [OF log_recovery_quiet, of e p 0 "''recover_primary_tei''"]
    by (simp add: record_fits_next_output_def)
  note eff = insert_record_effect [OF ins]
  have "sends e [packet c] d e1" using quiet_sends [OF _ eff(1)] by simp
  moreover have "clean_output e e1" using clean_output_trans [OF log_recovery_clean eff(2) [OF fit]] .
  ultimately have "sends e [packet c] (if rc = 1 then 0 else -1) e' \<and> clean_output e e'"
    using res sends_result [OF eff(1)] by (auto split: if_splits)
  moreover have "\<exists>a b. hist_find (history e 0) (stream_index p + 1) = Some a \<and>
      hist_find (history e 1) (stream_index c + 1) = Some b \<and> records_match a b"
    using ok(6) by (cases "stream_index c = - 1") (simp_all add: non_null_exact_anchor_iff)
  ultimately show ?thesis using tei c ok pre by (auto simp: not_less)
qed

text \<open>
  C12. A primary packet with the transport error flag is replaced only by the packet of the
  secondary at the aligned position, and only when that packet is undamaged content of the
  same PID with the same counter, continues the output, and the packets right after both are
  equal, as are the packets of the last anchor; then exactly that packet is sent and no
  continuity error is counted.
\<close>

theorem damaged_packet_replaced:
  assumes "try_recover_primary_tei_packet e p = (rc, e')" and "rc = 1 \<or> rc = -1"
  shows "transport_error p \<and>
     (\<exists>c. find_aligned_secondary_record e p = Some c \<and> record_is_informative c \<and> has_payload c \<and>
        pid c = pid p \<and> continuity_counter c = continuity_counter p \<and>
        record_fits_next_output e c \<and> before_anchor_holds e \<and>
        (\<exists>a b. hist_find (history e 0) (stream_index p + 1) = Some a \<and>
               hist_find (history e 1) (stream_index c + 1) = Some b \<and> records_match a b) \<and>
        min_alignment_confidence (config e) \<le> confidence (alignment e) \<and>
        sends e [packet c] (if rc = 1 then 0 else -1) e' \<and> clean_output e e')"
  by (rule tei_effect [OF assms])

lemma damaged_packet_replaced_witness:
  "transport_error damaged \<and>
   (\<exists>c. find_aligned_secondary_record tei_gap damaged = Some c \<and> record_fits_next_output tei_gap c)"
proof -
  have "try_recover_primary_tei_packet tei_gap damaged =
      (1, snd (try_recover_primary_tei_packet tei_gap damaged))"
    using tei_gap_inserts by (metis prod.collapse)
  from damaged_packet_replaced [OF this] show ?thesis by auto
qed

section \<open>Rejections\<close>

text \<open>What \<open>reject_gap\<close> does, in the terms of the statements below.\<close>

definition rejected :: "'s recovery_engine \<Rightarrow> 's recovery_engine \<Rightarrow> bool" where
  "rejected e e' \<longleftrightarrow> quiet e e' \<and>
     length (decision_log (world e')) = Suc (length (decision_log (world e))) \<and>
     (\<exists>rr n. rr \<noteq> RECOVERY_REJECT_COUNT \<and>
        stats e' = (stats e)\<lparr>recovery_rejects := bump (recovery_rejects (stats e)) rr,
                             unrecoverable_loss := unrecoverable_loss (stats e) + n\<rparr>)"

lemma reject_log_rejected:
  "rr \<noteq> RECOVERY_REJECT_COUNT \<Longrightarrow> rejected e (recovery_reject_log e p cc hcc n hn ca b a rr reason)"
  unfolding rejected_def
  by (intro conjI quiet_reject_log reject_log_log exI [of _ rr]
      exI [of _ "if loss_counted p hn reason then n else 0"]) (simp_all add: reject_log_stats)

lemma reject_gap_rejected:
  "reject_gap e p n c b a rr reason = (rc, e') \<Longrightarrow> rr \<noteq> RECOVERY_REJECT_COUNT \<Longrightarrow>
   rc = 2 \<and> rejected e e'"
  by (auto simp: reject_gap_def Let_def reject_log_rejected)

lemma pick_reject_reason:
  "pick_exact_candidates e p sm m prev f k n = Inl (rr, reason, found) \<Longrightarrow> rr \<noteq> RECOVERY_REJECT_COUNT"
proof (induction e p sm m prev f k n rule: pick_exact_candidates.induct)
  case (1 e p sm m prev f k n)
  have one: "pick_exact_candidate e p sm m prev f k = Inl (rr, reason, found) \<Longrightarrow>
      rr \<noteq> RECOVERY_REJECT_COUNT"
    by (auto simp: pick_exact_candidate_def Let_def split: sum.splits option.splits if_splits)
  show ?case
  proof (cases "k < n")
    case False
    then show ?thesis using "1.prems" by (simp add: pick_exact_candidates.simps)
  next
    case True
    show ?thesis
    proof (cases "pick_exact_candidate e p sm m prev f k")
      case (Inl r)
      then show ?thesis using "1.prems" True one by (simp add: pick_exact_candidates.simps)
    next
      case (Inr c)
      with "1.prems" True
      have "pick_exact_candidates e p sm m prev f (k + 1) n = Inl (rr, reason, found)"
        by (subst (asm) pick_exact_candidates.simps) (auto split: sum.splits)
      from "1.IH" [OF True Inr this] show ?thesis .
    qed
  qed
qed

lemma check_mixed_reason:
  "check_mixed h f st i n = Inl (rr, reason, found) \<Longrightarrow> rr \<noteq> RECOVERY_REJECT_COUNT"
proof (induction h f st i n rule: check_mixed.induct)
  case (1 h f st i n)
  show ?case
  proof (cases "i < n")
    case False
    then show ?thesis using "1.prems" by (simp add: check_mixed.simps)
  next
    case True
    show ?thesis
    proof (cases "hist_find h (f + i)")
      case None
      then show ?thesis using "1.prems" True by (simp add: check_mixed.simps)
    next
      case (Some c)
      show ?thesis
      proof (cases "transport_error c \<or> discontinuity_indicator c \<or> \<not> record_fits_output_states st c")
        case bad: True
        then show ?thesis using "1.prems" True Some
          by (subst (asm) check_mixed.simps) (auto split: if_splits)
      next
        case False
        then have "check_mixed h f (observe_output_states st c) (i + 1) n = Inl (rr, reason, found)"
          using "1.prems" True Some
          by (subst (asm) check_mixed.simps) (auto split: sum.splits)
        from "1.IH" [OF True Some _ _ _ this] False show ?thesis by simp
      qed
    qed
  qed
qed

lemma check_nulls_reason:
  "check_nulls h f i n = Inl (Some (rr, reason, found)) \<Longrightarrow> rr \<noteq> RECOVERY_REJECT_COUNT"
proof (induction h f i n rule: check_nulls.induct)
  case (1 h f i n)
  show ?case
  proof (cases "i < n")
    case False
    then show ?thesis using "1.prems" by (simp add: check_nulls.simps)
  next
    case True
    show ?thesis
    proof (cases "hist_find h (f + i)")
      case None
      then show ?thesis using "1.prems" True by (simp add: check_nulls.simps)
    next
      case (Some c)
      show ?thesis
      proof (cases "is_null c \<and> \<not> transport_error c \<and> \<not> discontinuity_indicator c")
        case False
        then show ?thesis using "1.prems" True Some
          by (subst (asm) check_nulls.simps) (auto split: if_splits)
      next
        case ok: True
        then have "check_nulls h f (i + 1) n = Inl (Some (rr, reason, found))"
          using "1.prems" True Some by (subst (asm) check_nulls.simps) simp
        from "1.IH" [OF True Some _ _ _ this] ok show ?thesis by simp
      qed
    qed
  qed
qed

lemma mixed_misfit_reason: "mixed_misfit e p f n = (rr, reason) \<Longrightarrow> rr \<noteq> RECOVERY_REJECT_COUNT"
  by (auto simp: mixed_misfit_def split: option.splits if_splits)

definition quiet_result :: "'s recovery_engine \<Rightarrow> int \<times> 's recovery_engine \<Rightarrow> bool" where
  "quiet_result e res \<longleftrightarrow> fst res \<in> {-1, 0, 1, 2} \<and>
     (fst res = 0 \<longrightarrow> snd res = e) \<and> (fst res = 2 \<longrightarrow> rejected e (snd res))"

lemma quiet_result_none [simp]: "quiet_result e (0, e)"
  by (simp add: quiet_result_def)

lemma quiet_result_reject [simp]:
  "rr \<noteq> RECOVERY_REJECT_COUNT \<Longrightarrow> quiet_result e (reject_gap e p n c b a rr reason)"
  by (simp add: quiet_result_def reject_gap_def Let_def reject_log_rejected)

lemma quiet_result_sent [simp]: "quiet_result e (if c \<noteq> 0 then (-1, e1) else (1, e2))"
  by (simp add: quiet_result_def)

lemma quiet_exact: "quiet_result e (try_recover_exact_content_gap e p sm)"
  unfolding try_recover_exact_content_gap_def Let_def
  by (simp split: option.splits sum.splits prod.splits add: pick_reject_reason)

lemma quiet_mixed: "quiet_result e (try_recover_mixed_position_gap e p sm)"
  unfolding try_recover_mixed_position_gap_def Let_def
  by (simp split: sum.splits prod.splits add: check_mixed_reason mixed_misfit_reason)

lemma quiet_null: "quiet_result e (try_recover_null_position_gap e p sm)"
  unfolding try_recover_null_position_gap_def Let_def
  by (simp split: sum.splits option.splits prod.splits null_scan.splits add: check_nulls_reason)

lemma quiet_tei: "quiet_result e (try_recover_primary_tei_packet e p)"
  unfolding try_recover_primary_tei_packet_def Let_def
  by (simp split: option.splits prod.splits)

lemma reject_log_clean [simp]:
  "clean_output e (recovery_reject_log e p cc hcc n hn ca b a rr reason)"
  by (simp add: recovery_reject_log_def recovery_decision_log_def Let_def clean_output_def
      observe_unrecoverable_primary_gap_def report_stats_reject_recovery_def)


section \<open>One candidate\<close>

definition valid_candidates ::
    "'s recovery_engine \<Rightarrow> packet_record \<Rightarrow> secondary_after_anchor_candidates \<Rightarrow> 's validator \<Rightarrow> nat list" where
  "valid_candidates e p cs v =
     filter (\<lambda>s. val_valid (v e p (Some (candidate_record e s)))) (cand_slots cs)"

lemma scan_validations_winner:
  "(filter (\<lambda>s. val_valid (f s)) ss = [] \<longrightarrow> (\<exists>b'. scan_validations f ss (Some w) b = Inr (Some w, b'))) \<and>
   (filter (\<lambda>s. val_valid (f s)) ss \<noteq> [] \<longrightarrow> (\<exists>v. scan_validations f ss (Some w) b = Inl v))"
  by (induction ss arbitrary: b) (simp_all add: Let_def)

lemma scan_validations_none:
  "(filter (\<lambda>s. val_valid (f s)) ss = [] \<longrightarrow> (\<exists>b'. scan_validations f ss None b = Inr (None, b'))) \<and>
   (filter (\<lambda>s. val_valid (f s)) ss = [w] \<longrightarrow> (\<exists>b'. scan_validations f ss None b = Inr (Some w, b'))) \<and>
   (2 \<le> length (filter (\<lambda>s. val_valid (f s)) ss) \<longrightarrow> (\<exists>v. scan_validations f ss None b = Inl v))"
proof (induction ss arbitrary: b)
  case Nil
  then show ?case by simp
next
  case (Cons x ss)
  show ?case
  proof (cases "val_valid (f x)")
    case True
    then show ?thesis using scan_validations_winner [of f ss x "b"]
      by (cases "filter (\<lambda>s. val_valid (f s)) ss") (auto simp: Let_def)
  next
    case False
    then show ?thesis using Cons.IH by (simp add: Let_def)
  qed
qed

lemma reject_candidates_rejected:
  "rr \<noteq> RECOVERY_REJECT_COUNT \<Longrightarrow> quiet_result e (reject_candidates e p n hn b a rr reason)"
  by (simp add: quiet_result_def reject_candidates_def Let_def reject_log_rejected)

text \<open>
  C3. A gap is repaired only when the place of repair is unambiguous: the recovery runs
  exactly when the candidate list is complete and contains exactly one candidate that passes
  the validator, and then it runs for that candidate. If the list is truncated or two
  candidates are valid, the gap is rejected as ambiguous and nothing is sent.
\<close>

theorem unique_candidate_rule:
  "(\<not> cand_truncated cs \<and> valid_candidates e p cs v = [s] \<longrightarrow>
      try_unique_candidate_recovery e p cs v recover lnv = recover e p (Some (candidate_record e s))) \<and>
   (cand_truncated cs \<or> 2 \<le> length (valid_candidates e p cs v) \<longrightarrow>
      (\<exists>e'. try_unique_candidate_recovery e p cs v recover lnv = (2, e') \<and> rejected e e' \<and>
         recovery_rejects (stats e') RECOVERY_REJECT_AMBIGUOUS =
           recovery_rejects (stats e) RECOVERY_REJECT_AMBIGUOUS + 1)) \<and>
   (\<not> cand_truncated cs \<and> valid_candidates e p cs v = [] \<longrightarrow>
      (\<exists>rc e'. try_unique_candidate_recovery e p cs v recover lnv = (rc, e') \<and>
         (rc = 0 \<and> e' = e \<or> rc = 2 \<and> quiet e e')))"
proof -
  let ?scan = "scan_validations (\<lambda>s. v e p (Some (candidate_record e s))) (cand_slots cs) None
      (fresh_validation ''missing_candidate'')"
  have amb: "\<exists>e'. reject_candidates e p n hn b a RECOVERY_REJECT_AMBIGUOUS reason = (2, e') \<and>
      rejected e e' \<and> recovery_rejects (stats e') RECOVERY_REJECT_AMBIGUOUS =
           recovery_rejects (stats e) RECOVERY_REJECT_AMBIGUOUS + 1" for n hn b a reason
    by (simp add: reject_candidates_def Let_def reject_log_rejected reject_log_stats)
  note scan = scan_validations_none [of "\<lambda>s. v e p (Some (candidate_record e s))" "cand_slots cs"
      "fresh_validation ''missing_candidate''" s, folded valid_candidates_def]
  have one: "try_unique_candidate_recovery e p cs v recover lnv = recover e p (Some (candidate_record e s))"
    if "\<not> cand_truncated cs" and "valid_candidates e p cs v = [s]"
  proof -
    from scan that obtain b where "?scan = Inr (Some s, b)" by blast
    with that(1) show ?thesis by (simp add: try_unique_candidate_recovery_def Let_def)
  qed
  have many: "\<exists>e'. try_unique_candidate_recovery e p cs v recover lnv = (2, e') \<and> rejected e e' \<and>
         recovery_rejects (stats e') RECOVERY_REJECT_AMBIGUOUS =
           recovery_rejects (stats e) RECOVERY_REJECT_AMBIGUOUS + 1"
    if "cand_truncated cs \<or> 2 \<le> length (valid_candidates e p cs v)"
  proof (cases "cand_truncated cs")
    case True
    then show ?thesis using amb by (simp add: try_unique_candidate_recovery_def Let_def)
  next
    case False
    with scan that obtain v' where "?scan = Inl v'" by blast
    with False amb show ?thesis by (simp add: try_unique_candidate_recovery_def Let_def)
  qed
  have none: "\<exists>rc e'. try_unique_candidate_recovery e p cs v recover lnv = (rc, e') \<and>
         (rc = 0 \<and> e' = e \<or> rc = 2 \<and> quiet e e')"
    if "\<not> cand_truncated cs" and "valid_candidates e p cs v = []"
  proof -
    from scan that obtain b where "?scan = Inr (None, b)" by blast
    with that(1) show ?thesis
      by (simp add: try_unique_candidate_recovery_def Let_def reject_candidates_def)
  qed
  show ?thesis using one many none by blast
qed

lemma unique_candidate_rule_witness:
  "try_unique_candidate_recovery content_gap (ex_record 0 1 5 False)
     \<lparr>cand_slots = [2], cand_truncated = False\<rparr> validate_mixed_position_candidate
     try_recover_mixed_position_gap False =
   try_recover_mixed_position_gap content_gap (ex_record 0 1 5 False) (Some (ex_record 1 2 5 False))"
proof -
  have c: "candidate_record content_gap 2 = ex_record 1 2 5 False"
    by (simp add: candidate_record_def hist_at_def content_gap_def ex_engine_def ex_history_def)
  have "valid_candidates content_gap (ex_record 0 1 5 False) \<lparr>cand_slots = [2], cand_truncated = False\<rparr>
      validate_mixed_position_candidate = [2]"
    using content_gap_mixed_valid by (simp add: valid_candidates_def c)
  with unique_candidate_rule [of "\<lparr>cand_slots = [2], cand_truncated = False\<rparr>" content_gap
      "ex_record 0 1 5 False" validate_mixed_position_candidate 2 try_recover_mixed_position_gap False]
  show ?thesis by (simp add: c)
qed

section \<open>The search for candidates\<close>

text \<open>
  C19. The candidates for the packet that ends a gap are sound: each is a record of the
  secondary history that equals the primary packet, with neither carrying an error; no record
  is listed twice and at most 64 are listed; and null, damaged and discontinuous packets have
  none.
\<close>

theorem boundary_matches_sound:
  "(\<forall>s \<in> set (cand_slots (find_secondary_boundary_matches e primary)).
      (\<exists>i. hist_find (history e 1) i = Some (candidate_record e s)) \<and>
      records_exact_non_error_match primary (candidate_record e s)) \<and>
   distinct (cand_slots (find_secondary_boundary_matches e primary)) \<and>
   length (cand_slots (find_secondary_boundary_matches e primary)) \<le> 64 \<and>
   (\<not> record_is_informative primary \<longrightarrow>
      cand_slots (find_secondary_boundary_matches e primary) = [])"
proof -
  have none: "\<not> record_is_informative primary \<Longrightarrow>
      cand_slots (find_secondary_boundary_matches e primary) = []"
    by (auto simp: find_secondary_boundary_matches_def record_is_informative_def no_candidates_def)
  show ?thesis
    using boundary_matches_ok [of e primary] none
    by (auto simp: cands_ok_def candidate_record_def
        MAX_SECONDARY_AFTER_ANCHOR_CANDIDATES_def) (blast dest: hist_find_slot)
qed

lemma boundary_matches_sound_witness:
  "cand_slots (find_secondary_boundary_matches null_gap (ex_record 1 1 0 True)) = [] \<and>
   distinct (cand_slots (find_secondary_boundary_matches content_gap (ex_record 0 1 5 False)))"
  using boundary_matches_sound [of null_gap "ex_record 1 1 0 True"]
    boundary_matches_sound [of content_gap "ex_record 0 1 5 False"]
  by (simp add: record_is_informative_def ex_record_def)

text \<open>
  C18. The search is complete: whenever an anchor precedes the packet, every record of the
  secondary history in the searched window behind the anchor that equals the packet is a
  candidate, unless the list is marked as truncated.
\<close>

theorem boundary_matches_complete:
  assumes "record_is_informative primary" and "anchor_valid (last_primary_anchor e)"
    and "primary_index (last_primary_anchor e) < stream_index primary"
    and "secondary_index (last_primary_anchor e) + 1 \<le> j"
    and "j \<le> after_anchor_last_index e primary"
    and "packet_history_find_index (history e 1) j = Some s"
    and "records_exact_non_error_match primary (hist_at (history e 1) s)"
  shows "s \<in> set (cand_slots (find_secondary_boundary_matches e primary)) \<or>
         cand_truncated (find_secondary_boundary_matches e primary)"
  using collect_range_complete [OF assms(4-7)] assms(1-3)
  by (simp add: find_secondary_boundary_matches_def record_is_informative_def Let_def not_le [symmetric])

lemma boundary_matches_complete_witness:
  "2 \<in> set (cand_slots (find_secondary_boundary_matches content_gap (ex_record 0 1 5 False))) \<or>
   cand_truncated (find_secondary_boundary_matches content_gap (ex_record 0 1 5 False))"
proof (rule boundary_matches_complete [of _ _ 2])
  show "record_is_informative (ex_record 0 1 5 False)" by code_simp
  show "anchor_valid (last_primary_anchor content_gap)" by code_simp
  show "primary_index (last_primary_anchor content_gap) < stream_index (ex_record 0 1 5 False)"
    by code_simp
  show "secondary_index (last_primary_anchor content_gap) + 1 \<le> 2" by code_simp
  show "2 \<le> after_anchor_last_index content_gap (ex_record 0 1 5 False)" by code_simp
  show "packet_history_find_index (history content_gap 1) 2 = Some 2" by code_simp
  show "records_exact_non_error_match (ex_record 0 1 5 False) (hist_at (history content_gap 1) 2)"
    by code_simp
qed

end
