(* ===== verification/Drain_Facts.thy ===== *)
theory Drain_Facts
  imports Recovery_Theorems
begin

text \<open>
  What a drain puts on the output. \<open>repaired\<close> says what may stand for one primary packet: the
  packet itself, after packets of the secondary that were missing before it, or, if it was
  damaged, its undamaged copy. The lemmas follow the structure of the code: one recovery, one
  attempt, the three attempts, one packet, the loop.
\<close>

section \<open>One recovery\<close>

text \<open>The result of a recovery: nothing sent, or undamaged packets of the secondary.\<close>

definition recovery_result :: "'s recovery_engine \<Rightarrow> int \<Rightarrow> 's recovery_engine \<Rightarrow> bool" where
  "recovery_result e rc e' \<longleftrightarrow> outputs e e' \<and>
     (rc = 0 \<and> e' = e \<or> rc = 2 \<and> quiet e e' \<and> clean_output e e' \<or>
      (rc = 1 \<or> rc = -1) \<and>
      (\<exists>rs. set rs \<subseteq> set (hist_list (history e 1)) \<and>
         length rs \<le> unat (max_content_burst_packets (config e)) \<and>
         (\<forall>r \<in> set rs. \<not> transport_error r \<and> \<not> discontinuity_indicator r) \<and>
         sends e (map packet rs) (if rc = 1 then 0 else -1) e' \<and> clean_output e e'))"

lemma recovery_result_none [simp]: "recovery_result e 0 e"
  by (simp add: recovery_result_def)

lemma recovery_result_quiet:
  assumes "quiet_result e (rc, e')" and "outputs e e'" and "rc \<noteq> 1" and "rc \<noteq> -1"
  shows "recovery_result e rc e'"
  using assms by (auto simp: quiet_result_def recovery_result_def rejected_def clean_output_def)

lemma lost_packets_in:
  assumes "\<forall>j < length cs. lost_packet e p prev j (cs ! j)"
  shows "set cs \<subseteq> set (hist_list (history e 1)) \<and>
         (\<forall>r \<in> set cs. \<not> transport_error r \<and> \<not> discontinuity_indicator r)"
  using assms by (auto simp: in_set_conv_nth lost_packet_def record_is_informative_def)

lemma recovery_result_sent:
  assumes "set cs \<subseteq> set (hist_list (history e 1))"
    and "\<forall>r \<in> set cs. \<not> transport_error r \<and> \<not> discontinuity_indicator r"
    and "\<not> ucast (max_content_burst_packets (config e)) < n" and "length cs = unat (n :: u64)"
    and "states_after (output_pid_state e) cs = Some st"
    and "insert_list flag (log_recovery e p m d) cs = (c, e1)"
    and "(rc, e') = (if c \<noteq> 0 then (-1, e1) else (1, e2))"
    and "sink e2 = sink e1" and "clean_output e1 e2" and "outputs e e'"
  shows "recovery_result e rc e'"
proof -
  note eff = inserted_list [OF assms(6) assms(5)]
  have len: "length cs \<le> unat (max_content_burst_packets (config e))"
    using within_burst [OF assms(3)] assms(4) by simp
  have "(rc = 1 \<or> rc = -1) \<and> sends e (map packet cs) (if rc = 1 then 0 else -1) e' \<and> clean_output e e'"
    using assms(7-9) eff by (cases "c = 0") (auto intro: sends_sink_eq clean_output_trans)
  then show ?thesis
    unfolding recovery_result_def using assms(1,2,10) len by blast
qed

lemma exact_result:
  assumes "try_recover_exact_content_gap e p (Some sm) = (rc, e')"
  shows "recovery_result e rc e'"
proof (cases "\<exists>n cs st. exact_plan e p sm n cs st")
  case True
  then obtain n cs st where plan: "exact_plan e p sm n cs st" by blast
  let ?d = "if 1 < n then ''recover_content_burst'' else ''recover_content''"
  obtain c e1 where ins: "insert_list (\<lambda>_. False) (log_recovery e p n ?d) cs = (c, e1)" by fastforce
  have res: "(rc, e') = (if c \<noteq> 0 then (-1, e1) else (1, count_burst e1 n))"
    using exact_plan_recovers [OF plan] assms ins by simp
  have p: "\<not> ucast (max_content_burst_packets (config e)) < n"
      "states_after (output_pid_state e) cs = Some st" using plan by (simp_all add: exact_plan_def)
  have all: "\<forall>j < length cs. lost_packet e p (the (previous_output_cc_for_record e p)) j (cs ! j)"
    using exact_plan_packets(2) [OF plan] by blast
  note cs = lost_packets_in [OF all]
  show ?thesis
    using cs p exact_plan_packets(1) [OF plan] res try_recover_exact_outputs [OF assms]
    by (intro recovery_result_sent [OF _ _ _ _ _ ins res]) auto
next
  case False
  with exact_no_plan [OF False] assms have "rc = 0 \<or> rc = 2" by simp
  then show ?thesis
    using quiet_exact [of e p "Some sm"] try_recover_exact_outputs [OF assms] assms
    by (intro recovery_result_quiet) auto
qed

lemma mixed_result:
  assumes "try_recover_mixed_position_gap e p (Some sm) = (rc, e')"
  shows "recovery_result e rc e'"
proof (cases "\<exists>st. mixed_plan e p sm st")
  case True
  then obtain st where plan: "mixed_plan e p sm st" by blast
  let ?cs = "missing_records e p sm" and ?n = "missing_span e p sm"
  obtain c e1 where ins: "insert_list is_null (log_recovery e p ?n (mixed_decision p ?cs ?n)) ?cs = (c, e1)"
    by fastforce
  have res: "(rc, e') = (if c \<noteq> 0 then (-1, e1) else (1, count_burst e1 ?n))"
    using mixed_plan_recovers [OF plan] assms ins by simp
  let ?f = "secondary_index (last_primary_anchor e) + primary_between e p + 1"
  have chk: "range_found (history e 1) ?f 0 ?n" "states_after (output_pid_state e) ?cs = Some st"
      "\<forall>c \<in> set ?cs. \<not> transport_error c \<and> \<not> discontinuity_indicator c"
    using plan check_mixed_sound unfolding mixed_plan_def by blast+
  have burst: "\<not> ucast (max_content_burst_packets (config e)) < ?n" using plan by (simp add: mixed_plan_def)
  have "length ?cs = unat ?n" by (simp add: missing_records_def)
  with chk burst range_list_in [OF chk(1)] res try_recover_mixed_outputs [OF assms] show ?thesis
    by (intro recovery_result_sent [OF _ _ _ _ _ ins res]) (auto simp: missing_records_def)
next
  case False
  have "rc \<noteq> 1 \<and> rc \<noteq> -1"
  proof (rule ccontr)
    assume bad: "\<not> (rc \<noteq> 1 \<and> rc \<noteq> -1)"
    have "val_valid (validate_mixed_position_candidate e p (Some sm))"
      using assms bad
      unfolding try_recover_mixed_position_gap_def validate_mixed_position_candidate_def Let_def option.sel
      by (auto simp: reject_gap_def Let_def split: if_splits sum.splits prod.splits)
    with False mixed_valid_plan show False by blast
  qed
  then show ?thesis
    using quiet_mixed [of e p "Some sm"] try_recover_mixed_outputs [OF assms] assms
    by (intro recovery_result_quiet) auto
qed

lemma null_result:
  assumes "try_recover_null_position_gap e p (Some sm) = (rc, e')"
  shows "recovery_result e rc e'"
proof (cases "rc = 1 \<or> rc = -1")
  case False
  then show ?thesis
    using quiet_null [of e p "Some sm"] try_recover_null_outputs [OF assms] assms
    by (intro recovery_result_quiet) auto
next
  case sent: True
  let ?n = "missing_span e p sm" and ?f = "secondary_index (last_primary_anchor e) + 1"
  let ?cs = "range_list (history e 1) ?f 0 ?n"
  let ?e = "log_recovery e p ?n ''recover_null_region''"
  have rej: "reject_gap e p n c b a rr reason \<noteq> (rc, e')" for n c b a rr reason
    using sent by (auto simp: reject_gap_def Let_def)
  have none: "(0, e) \<noteq> (rc, e')" using sent by auto
  have v: "\<not> ucast (max_content_burst_packets (config e)) < ?n"
      "check_nulls (history e 1) ?f 0 ?n = Inr ()"
      "(case insert_range (\<lambda>_. True) ?e ?f 0 ?n of (rc, e) \<Rightarrow> if rc \<noteq> 0 then (-1, e) else (1, e)) = (rc, e')"
    using assms rej none
    unfolding try_recover_null_position_gap_def Let_def option.sel missing_span_def [symmetric]
    by (simp_all split: if_splits sum.splits option.splits prod.splits null_scan.splits)
  note chk = check_nulls_sound [OF v(2)]
  then have nulls: "\<forall>c \<in> set ?cs. is_null c" by blast
  have h: "history ?e = history e" by (rule quietD(3)) simp
  obtain c e1 where ins: "insert_list (\<lambda>_. True) ?e ?cs = (c, e1)" by fastforce
  from insert_range_in [OF h conjunct1 [OF chk], of "\<lambda>_. True"] ins v(3)
  have res: "(rc, e') = (if c \<noteq> 0 then (-1, e1) else (1, e1))" by (simp split: if_splits)
  show ?thesis
    using chk v(1) res try_recover_null_outputs [OF assms] range_list_in [OF conjunct1 [OF chk]]
      states_after_nulls [OF nulls]
    by (intro recovery_result_sent [OF _ _ _ _ _ ins res]) auto
qed

section \<open>The attempts for one packet\<close>

definition supplied :: "'s recovery_engine \<Rightarrow> packet_record list \<Rightarrow> bool" where
  "supplied e rs \<longleftrightarrow> set rs \<subseteq> set (hist_list (history e 1)) \<and>
     length rs \<le> unat (max_content_burst_packets (config e)) \<and>
     (\<forall>r \<in> set rs. \<not> transport_error r \<and> \<not> discontinuity_indicator r)"

lemma supplied_Nil [simp]: "supplied e []"
  by (simp add: supplied_def)

lemma supplied_outputs: "outputs e e' \<Longrightarrow> supplied e' rs = supplied e rs"
  by (simp add: supplied_def outputsD)

lemma recovery_result_supplied:
  assumes "recovery_result e rc e'"
  obtains rs where "supplied e rs" "sends e (map packet rs) (if rc = -1 then -1 else 0) e'"
    "clean_output e e'" "outputs e e'" "rc = 0 \<or> rc = 1 \<or> rc = 2 \<or> rc = -1" "rc = 0 \<longrightarrow> e' = e"
proof -
  from assms have o: "outputs e e'" by (simp add: recovery_result_def)
  from assms consider (none) "rc = 0" "e' = e" | (rej) "rc = 2" "quiet e e'" "clean_output e e'"
    | (sent) rs where "rc = 1 \<or> rc = -1" "supplied e rs"
        "sends e (map packet rs) (if rc = 1 then 0 else -1) e'" "clean_output e e'"
    unfolding recovery_result_def supplied_def by blast
  then show thesis
  proof cases
    case none
    then show thesis using that [of "[]"] by simp
  next
    case rej
    then show thesis using that [of "[]"] o by (simp add: sends_nilI quietD)
  next
    case sent
    then show thesis using that [of rs] o by auto
  qed
qed

lemma reject_candidates_result:
  "reject_candidates e p n hn b a rr reason = (rc, e') \<Longrightarrow> recovery_result e rc e'"
  by (auto simp: reject_candidates_def Let_def recovery_result_def intro: quiet_outputs)

definition repairs :: "'s recoverer \<Rightarrow> bool" where
  "repairs recover \<longleftrightarrow>
     (\<forall>e p sm rc e'. recover e p (Some sm) = (rc, e') \<longrightarrow> recovery_result e rc e')"

lemma repairs_recoveries [simp]:
  "repairs try_recover_null_position_gap" "repairs try_recover_mixed_position_gap"
  "repairs try_recover_exact_content_gap"
  unfolding repairs_def by (blast intro: null_result mixed_result exact_result)+

lemma repairsD: "repairs recover \<Longrightarrow> recover e p (Some sm) = (rc, e') \<Longrightarrow> recovery_result e rc e'"
  unfolding repairs_def by blast

lemma unique_result:
  assumes "repairs recover"
    and "try_unique_candidate_recovery e p cs v recover lnv = (rc, e')"
  shows "recovery_result e rc e'"
  using assms(2) unfolding try_unique_candidate_recovery_def Let_def
  by (auto split: if_splits sum.splits option.splits prod.splits
      dest: reject_candidates_result repairsD [OF assms(1)])

definition attempt_result ::
    "'s recovery_engine \<Rightarrow> attempt option \<Rightarrow> 's recovery_engine \<Rightarrow> bool" where
  "attempt_result e x e' \<longleftrightarrow> outputs e e' \<and> clean_output e e' \<and>
     (\<exists>rs. supplied e rs \<and> sends e (map packet rs) (if x = None then -1 else 0) e')"

lemma attempt_result_same [simp]: "attempt_result e (Some a) e"
  unfolding attempt_result_def by (auto intro: exI [of _ "[]"])

lemma attempt_logged [simp]: "logged a \<Longrightarrow> attempt_recovery need v r l p cs a e = (Some a, e)"
  by (simp add: attempt_recovery_def)

lemma attempt_recovery_result:
  assumes rec: "repairs r"
    and "attempt_recovery need v r l p cs a e = (x, e')"
  shows "attempt_result e x e' \<and> (\<forall>b. x = Some b \<and> \<not> logged b \<longrightarrow> e' = e)"
proof (cases "\<not> inserted a \<and> \<not> logged a \<and> need a \<and> anchor_valid (last_primary_anchor e) \<and>
         cand_slots cs \<noteq> []")
  case False
  with assms(2) have "(Some a, e) = (x, e')" unfolding attempt_recovery_def if_not_P [OF False] by simp
  then show ?thesis by auto
next
  case True
  obtain rc e1 where u: "try_unique_candidate_recovery e p cs v r l = (rc, e1)" by fastforce
  from unique_result [OF rec u] obtain rs where rs: "supplied e rs"
    "sends e (map packet rs) (if rc = -1 then -1 else 0) e1"
    "clean_output e e1" "outputs e e1" "rc = 0 \<or> rc = 1 \<or> rc = 2 \<or> rc = -1" "rc = 0 \<longrightarrow> e1 = e"
    by (rule recovery_result_supplied)
  have "(x, e') = (if rc < 0 then (None, e1)
     else if rc \<noteq> 0 then (Some \<lparr>logged = True, inserted = (rc = 1), fits = record_fits_next_output e1 p\<rparr>, e1)
     else (Some a, e1))"
    using assms(2) True u by (simp add: attempt_recovery_def)
  then show ?thesis using rs unfolding attempt_result_def by (auto split: if_splits)
qed

lemma attempt_recoveries_result:
  assumes "attempt_recoveries p cs a e = (x, e')"
  shows "attempt_result e x e'"
proof -
  obtain a1 e1 where n: "attempt_recovery (\<lambda>_. True) validate_null_position_candidate
      try_recover_null_position_gap False p cs a e = (a1, e1)" by fastforce
  have r1: "attempt_result e a1 e1" "\<And>b. a1 = Some b \<Longrightarrow> \<not> logged b \<Longrightarrow> e1 = e"
    using attempt_recovery_result [OF repairs_recoveries(1) n] by blast+
  show ?thesis
  proof (cases a1)
    case None
    then show ?thesis using assms r1 by (simp add: attempt_recoveries_def n)
  next
    case (Some b)
    obtain a2 e2 where m: "attempt_recovery (\<lambda>_. True) validate_mixed_position_candidate
        try_recover_mixed_position_gap False p cs b e1 = (a2, e2)" by fastforce
    have r2: "attempt_result e a2 e2 \<and> (\<forall>c. a2 = Some c \<and> \<not> logged c \<longrightarrow> e2 = e)"
    proof (cases "logged b")
      case True
      then show ?thesis using m r1 Some by simp
    next
      case False
      with r1(2) [OF Some] have "e1 = e" by simp
      then show ?thesis using attempt_recovery_result [OF _ m] by simp
    qed
    show ?thesis
    proof (cases a2)
      case None
      then show ?thesis using assms r2 Some by (simp add: attempt_recoveries_def n m)
    next
      case (Some c)
      with \<open>a1 = Some b\<close> have x: "attempt_recovery (\<lambda>a. \<not> fits a) validate_exact_content_candidate
          try_recover_exact_content_gap True p cs c e2 = (x, e')"
        using assms by (simp add: attempt_recoveries_def n m)
      show ?thesis
      proof (cases "logged c")
        case True
        then show ?thesis using x r2 Some by simp
      next
        case False
        with r2 Some have "e2 = e" by simp
        then show ?thesis using attempt_recovery_result [OF _ x] by simp
      qed
    qed
  qed
qed

section \<open>One primary packet\<close>

text \<open>What the output holds for a primary packet.\<close>

definition repaired :: "'s recovery_engine \<Rightarrow> packet_record \<Rightarrow> bytes list \<Rightarrow> bool" where
  "repaired e p ps \<longleftrightarrow>
     (\<exists>rs. supplied e rs \<and> ps = map packet rs @ [packet p]) \<or>
     (transport_error p \<and> (\<exists>c \<in> set (hist_list (history e 1)). record_is_informative c \<and>
        pid c = pid p \<and> continuity_counter c = continuity_counter p \<and> ps = [packet c]))"

lemma log_unexplained_clean [simp]: "clean_output e (log_unexplained_gap p cs e)"
  by (simp add: log_unexplained_gap_def Let_def split: prod.splits)

lemma send_primary_sends:
  assumes "send_primary p sm e = (rc, e')"
  shows "sends e [packet p] rc e'"
proof -
  obtain c e1 where o: "output_record e p = (c, e1)" by fastforce
  note s = output_record_sends [OF o]
  have "rc = c \<and> sink e' = sink e1"
    using assms sends_result [OF s] by (auto simp: send_primary_def o Let_def split: if_splits)
  with sends_sink_eq [OF s refl] show ?thesis by blast
qed

lemma primary_rest_sends:
  assumes "primary_rest p cs sm a e = (rc, e')"
  shows "\<exists>rs. supplied e rs \<and>
     (sends e (map packet rs @ [packet p]) rc e' \<or> rc = -1 \<and> sends e (map packet rs) rc e')"
proof -
  obtain x e1 where att: "attempt_recoveries p cs a e = (x, e1)" by fastforce
  from attempt_recoveries_result [OF att] obtain rs where rs: "supplied e rs"
    "sends e (map packet rs) (if x = None then -1 else 0) e1" by (auto simp: attempt_result_def)
  show ?thesis
  proof (cases x)
    case None
    then show ?thesis using assms att rs by (auto simp: primary_rest_def)
  next
    case (Some b)
    let ?e = "if \<not> fits b \<and> \<not> logged b then log_unexplained_gap p cs e1 else e1"
    have "send_primary p sm ?e = (rc, e')" using assms att Some by (simp add: primary_rest_def)
    from send_primary_sends [OF this] have "sends ?e [packet p] rc e'" .
    from sends_sink_eq [OF this, of e1 e'] have "sends e1 [packet p] rc e'"
      using quietD(1) [OF log_unexplained_quiet, of p cs e1] by (simp split: if_splits)
    with rs Some sends_append [of e "map packet rs" e1] show ?thesis by auto
  qed
qed

lemma find_aligned_in: "find_aligned_secondary_record e p = Some c \<Longrightarrow> c \<in> set (hist_list (history e 1))"
  by (auto simp: find_aligned_secondary_record_def Let_def split: if_splits intro: hist_find_in)

lemma tei_result:
  assumes "try_recover_primary_tei_packet e p = (rc, e')" and "rc = 1 \<or> rc = -1"
  shows "\<exists>c \<in> set (hist_list (history e 1)). record_is_informative c \<and> pid c = pid p \<and>
     continuity_counter c = continuity_counter p \<and> sends e [packet c] (if rc = 1 then 0 else -1) e'"
  using tei_effect [OF assms] find_aligned_in by blast

text \<open>Fields that a round for a primary packet keeps.\<close>

definition same_inputs :: "'s recovery_engine \<Rightarrow> 's recovery_engine \<Rightarrow> bool" where
  "same_inputs e e' \<longleftrightarrow> config e' = config e \<and> history e' = history e \<and>
     secondary_queue e' = secondary_queue e \<and> alignment e' = alignment e \<and>
     next_stream_index e' = next_stream_index e \<and>
     last_input_arrival_ns e' = last_input_arrival_ns e \<and>
     eng_active_output_stream_id e' = eng_active_output_stream_id e \<and>
     primary_return_start_ns e' = primary_return_start_ns e \<and>
     pcr_model e' = pcr_model e \<and> input_pid_state e' = input_pid_state e \<and>
     same_env (world e) (world e') \<and> same_status (stats e) (stats e')"

lemma same_inputs_refl [simp]: "same_inputs e e"
  by (simp add: same_inputs_def)

lemma same_inputs_trans: "same_inputs a b \<Longrightarrow> same_inputs b c \<Longrightarrow> same_inputs a c"
  by (auto simp: same_inputs_def intro: same_env_trans same_status_trans)

lemma outputs_same_inputs: "outputs a b \<Longrightarrow> same_inputs a b"
  by (simp add: same_inputs_def outputs_def)

lemma same_inputs_popped [simp]: "same_inputs e (e\<lparr>primary_queue := q\<rparr>)"
  by (simp add: same_inputs_def)

lemma send_primary_same:
  assumes "send_primary p sm e = (rc, e')"
  shows "same_inputs e e'"
proof -
  obtain c e1 where o: "output_record e p = (c, e1)" by fastforce
  note o1 = output_record_outputs [OF o]
  show ?thesis
  proof (cases "c = 0")
    case False
    then show ?thesis using assms o1 by (simp add: send_primary_def o outputs_same_inputs)
  next
    case True
    then have "same_inputs e1 e'"
      using assms by (auto simp: send_primary_def o Let_def same_inputs_def update_primary_anchor_def
          split: option.splits)
    with o1 show ?thesis using outputs_same_inputs same_inputs_trans by blast
  qed
qed

lemma primary_rest_same:
  assumes "primary_rest p cs sm a e = (rc, e')"
  shows "same_inputs e e'"
proof -
  obtain x e1 where att: "attempt_recoveries p cs a e = (x, e1)" by fastforce
  have o: "same_inputs e e1" by (rule outputs_same_inputs [OF attempt_recoveries_outputs [OF att]])
  show ?thesis
  proof (cases x)
    case None
    then show ?thesis using assms o by (simp add: primary_rest_def att)
  next
    case (Some b)
    let ?e = "if \<not> fits b \<and> \<not> logged b then log_unexplained_gap p cs e1 else e1"
    have "same_inputs e1 ?e"
      using outputs_same_inputs [OF quiet_outputs [OF log_unexplained_quiet [of e1 p cs]]] by simp
    moreover have "send_primary p sm ?e = (rc, e')" using assms Some by (simp add: primary_rest_def att)
    note send_primary_same [OF this]
    ultimately show ?thesis using o same_inputs_trans by blast
  qed
qed

lemma drain_packet_cases:
  assumes "drain_packet e p = (rc, e')"
  obtains (failed) e1 where "try_recover_primary_tei_packet
        (note_candidates e (find_secondary_boundary_matches e p)) p = (-1, e1)"
      "transport_error p" "rc = -1" "e' = e1"
  | (replaced) e1 where "try_recover_primary_tei_packet
        (note_candidates e (find_secondary_boundary_matches e p)) p = (1, e1)"
      "transport_error p" "rc = 0" "e' = e1\<lparr>primary_queue := delay_queue_pop (primary_queue e1)\<rparr>"
  | (rest) e1 a where "outputs (note_candidates e (find_secondary_boundary_matches e p)) e1"
      "sink e1 = sink e"
      "primary_rest p (find_secondary_boundary_matches e p)
         (anchor_match_for (note_candidates e (find_secondary_boundary_matches e p)) p
            (find_secondary_boundary_matches e p)) a e1 = (rc, e')"
proof -
  let ?cs = "find_secondary_boundary_matches e p"
  let ?e = "note_candidates e ?cs"
  let ?a = "\<lparr>logged = False, inserted = False, fits = record_fits_next_output ?e p\<rparr>"
  obtain d e1 where t: "try_recover_primary_tei_packet ?e p = (d, e1)" by fastforce
  note o = try_recover_tei_outputs [OF t]
  have q: "quiet_result ?e (d, e1)" using quiet_tei [of ?e p] t by simp
  show thesis
  proof (cases "transport_error p")
    case False
    then have "primary_rest p ?cs (anchor_match_for ?e p ?cs) ?a ?e = (rc, e')"
      using assms by (simp add: drain_packet_def Let_def)
    then show thesis using rest [of ?e ?a] by simp
  next
    case tei: True
    have eq: "(rc, e') = (if d < 0 then (-1, e1) else if d = 1
        then (0, e1\<lparr>primary_queue := delay_queue_pop (primary_queue e1)\<rparr>)
        else primary_rest p ?cs (anchor_match_for ?e p ?cs) (?a\<lparr>logged := (d \<noteq> 0)\<rparr>) e1)"
      using assms tei t by (simp add: drain_packet_def Let_def)
    consider "d = -1" | "d = 1" | "d = 0 \<or> d = 2" using o by auto
    then show thesis
    proof cases
      case 1
      then show thesis using failed eq tei t by simp
    next
      case 2
      then show thesis using replaced eq tei t by simp
    next
      case 3
      have s: "sink e1 = sink e"
      proof (cases "d = 0")
        case True
        then have "e1 = ?e" using q by (simp add: quiet_result_def)
        then show ?thesis by simp
      next
        case False
        then have "quiet ?e e1" using 3 q by (simp add: quiet_result_def rejected_def)
        from quietD(1) [OF this] show ?thesis by simp
      qed
      have "primary_rest p ?cs (anchor_match_for ?e p ?cs) (?a\<lparr>logged := (d \<noteq> 0)\<rparr>) e1 = (rc, e')"
        using 3 eq by (auto split: if_splits)
      from rest [OF conjunct1 [OF o] s this] show thesis .
    qed
  qed
qed

lemma note_candidates_same [simp]: "same_inputs e (note_candidates e cs)"
  by (simp add: same_inputs_def note_candidates_def)

lemma drain_packet_same:
  assumes "drain_packet e p = (rc, e')"
  shows "same_inputs e e'"
  using assms
proof (cases rule: drain_packet_cases)
  case (failed e1)
  show ?thesis
    using same_inputs_trans [OF note_candidates_same outputs_same_inputs]
      conjunct1 [OF try_recover_tei_outputs [OF failed(1)]] failed(4) by blast
next
  case (replaced e1)
  show ?thesis
    using same_inputs_trans [OF same_inputs_trans [OF note_candidates_same outputs_same_inputs] same_inputs_popped]
      conjunct1 [OF try_recover_tei_outputs [OF replaced(1)]] replaced(4) by blast
next
  case (rest e1 a)
  show ?thesis
    using same_inputs_trans [OF same_inputs_trans [OF note_candidates_same outputs_same_inputs]
        primary_rest_same [OF rest(3)]] rest(1) by blast
qed

lemma drain_packet_sends:
  assumes "drain_packet e p = (rc, e')"
  shows "rc = 0 \<and> (\<exists>ps. repaired e p ps \<and> sends e ps 0 e') \<or> rc = -1 \<and> (\<exists>ps. sends e ps (-1) e')"
  using assms
proof (cases rule: drain_packet_cases)
  case (failed e1)
  from tei_result [OF failed(1)] obtain c :: packet_record where
    "sends (note_candidates e (find_secondary_boundary_matches e p)) [packet c] (-1) e1" by auto
  from sends_sink_eq [OF this, of e e1] failed(3,4) show ?thesis by auto
next
  case (replaced e1)
  from tei_result [OF replaced(1)] obtain c :: packet_record where c: "c \<in> set (hist_list (history e 1))"
    "record_is_informative c" "pid c = pid p" "continuity_counter c = continuity_counter p"
    "sends (note_candidates e (find_secondary_boundary_matches e p)) [packet c] 0 e1" by auto
  from sends_sink_eq [OF c(5), of e e'] replaced(4) have "sends e [packet c] 0 e'" by simp
  with c(1-4) replaced(2,3) show ?thesis unfolding repaired_def by blast
next
  case (rest e1 a)
  from primary_rest_sends [OF rest(3)] obtain rs where rs: "supplied e1 rs"
    "sends e1 (map packet rs @ [packet p]) rc e' \<or> rc = -1 \<and> sends e1 (map packet rs) rc e'" by blast
  have "supplied e rs"
    using rs(1) outputs_same_inputs [OF rest(1)] by (simp add: supplied_def same_inputs_def)
  moreover have s: "sends e (map packet rs @ [packet p]) rc e' \<or> rc = -1 \<and> sends e (map packet rs) rc e'"
    using rs(2) sends_sink_eq [of e1 _ rc e' e e'] rest(2) by auto
  ultimately show ?thesis using sends_result unfolding repaired_def by blast
qed

end
