(* ===== verification/Drain_Theorems.thy ===== *)
theory Drain_Theorems
  imports Drain_Facts
begin

text \<open>
  The properties of draining: what reaches the output and in which order, what stays queued,
  and when the active input changes.
\<close>

section \<open>The primary loop\<close>

lemma drain_step_primary:
  assumes "eng_active_output_stream_id e = 0" and "read_now_ns e = (t, e1)"
  shows "drain_step force e p =
     (if \<not> force \<and> still_delayed (delay_ns (primary_queue e)) t p then Leave e1
      else (case drain_packet e1 p of (rc, e2) \<Rightarrow> if rc \<noteq> 0 then Return (-1) e2 else Next e2))"
proof -
  note o = outputsD [OF read_now_frame [OF assms(2)]]
  have "eng_active_output_stream_id e1 = 0" using assms(1) o(8) by simp
  moreover from this have "set_active_output_stream e1 0 = e1"
    by (simp add: set_active_output_stream_def)
  ultimately show ?thesis using assms(2) o(3) by (simp add: drain_step_def Let_def)
qed

lemma read_now_sink: "read_now_ns e = (t, e1) \<Longrightarrow> sink e1 = sink e"
  by (auto simp: read_now_ns_def)

lemma repaired_same: "same_inputs e e1 \<Longrightarrow> repaired e1 = repaired e"
  by (simp add: repaired_def supplied_def same_inputs_def fun_eq_iff)

lemma queue_front:
  assumes "queue_ok q" and "delay_queue_front q = Some p"
  shows "queue_list q = p # queue_list (delay_queue_pop q)" "queue_ok (delay_queue_pop q)"
  using dq.front_contents [OF assms(1)] dq.pop_contents [OF assms(1)] dq.pop_ok [OF assms(1)] assms(2)
  by (auto split: list.splits)

lemma queue_front_none: "queue_ok q \<Longrightarrow> delay_queue_front q = None \<Longrightarrow> queue_list q = []"
  by (simp add: delay_queue_front_def split: if_splits)

text \<open>One round that goes on: what it sends and what it keeps.\<close>

lemma drain_step_next:
  assumes "eng_active_output_stream_id e = 0" and "drain_step force e p = Next e'"
  shows "\<exists>ps. repaired e p ps \<and> sends e ps 0 e'" "same_inputs e e'"
proof -
  obtain t e1 where rd: "read_now_ns e = (t, e1)" by fastforce
  have same: "same_inputs e e1" by (rule outputs_same_inputs [OF read_now_frame [OF rd]])
  obtain rc e2 where d: "drain_packet e1 p = (rc, e2)" by fastforce
  have eq: "rc = 0" "e' = e2"
    using assms(2) d by (simp_all add: drain_step_primary [OF assms(1) rd] split: if_splits)
  from drain_packet_sends [OF d] eq(1) obtain ps where ps: "repaired e1 p ps" "sends e1 ps 0 e2" by auto
  from sends_sink_eq [OF ps(2), of e e2] have "sends e ps 0 e2" using read_now_sink [OF rd] by simp
  then show "\<exists>ps. repaired e p ps \<and> sends e ps 0 e'"
    using ps(1) eq(2) repaired_same [OF same] by auto
  show "same_inputs e e'"
    using same_inputs_trans [OF same drain_packet_same [OF d]] eq(2) by simp
qed

lemma drain_step_return:
  assumes "eng_active_output_stream_id e = 0" and "drain_step force e p = Return rc e'"
  shows "rc = -1 \<and> (\<exists>ps. sends e ps (-1) e')"
proof -
  obtain t e1 where rd: "read_now_ns e = (t, e1)" by fastforce
  obtain c e2 where d: "drain_packet e1 p = (c, e2)" by fastforce
  have eq: "c \<noteq> 0" "rc = -1" "e' = e2"
    using assms(2) d by (simp_all add: drain_step_primary [OF assms(1) rd] split: if_splits)
  from drain_packet_sends [OF d] eq(1) obtain ps where ps: "sends e1 ps (-1) e2" by auto
  from sends_sink_eq [OF ps, of e e2] have "sends e ps (-1) e2" using read_now_sink [OF rd] by simp
  then show ?thesis using eq by blast
qed

lemma drain_step_leave:
  assumes "eng_active_output_stream_id e = 0" and "drain_step force e p = Leave e'"
  shows "\<not> force \<and> sink e' = sink e \<and> outputs e e'"
proof -
  obtain t e1 where rd: "read_now_ns e = (t, e1)" by fastforce
  then show ?thesis
    using assms(2) read_now_sink [OF rd] read_now_frame [OF rd]
    by (auto simp: drain_step_primary [OF assms(1) rd] split: if_splits prod.splits)
qed

text \<open>\<open>k\<close> packets of the queue were dealt with, each by its own group of output packets.\<close>

definition drained ::
    "'s recovery_engine \<Rightarrow> nat \<Rightarrow> bytes list list \<Rightarrow> bool" where
  "drained e k pss \<longleftrightarrow> k \<le> q_count (primary_queue e) \<and>
     list_all2 (repaired e) (take k (queue_list (primary_queue e))) pss"

lemma drained_Cons:
  assumes "queue_ok (primary_queue e)" and "delay_queue_front (primary_queue e) = Some p"
    and "primary_queue e1 = delay_queue_pop (primary_queue e)" and "same_inputs e e1"
    and "repaired e p ps" and "drained e1 k pss"
  shows "drained e (Suc k) (ps # pss)"
proof -
  note q = queue_front [OF assms(1,2)]
  have "q_count (primary_queue e) = Suc (q_count (delay_queue_pop (primary_queue e)))"
    using arg_cong [OF q(1), of length] by simp
  then show ?thesis
    using assms(3,5,6) q repaired_same [OF assms(4)] by (simp add: drained_def)
qed

lemma drain_loop_stream:
  assumes "queue_ok (primary_queue e)" and "eng_active_output_stream_id e = 0"
  shows "(\<forall>e'. drain_loop force e = Inr e' \<longrightarrow>
       (\<exists>k pss. drained e k pss \<and> sends e (concat pss) 0 e' \<and> same_inputs e e' \<and>
          queue_ok (primary_queue e') \<and>
          queue_list (primary_queue e') = drop k (queue_list (primary_queue e)) \<and>
          (force \<longrightarrow> k = q_count (primary_queue e)))) \<and>
     (\<forall>rc e'. drain_loop force e = Inl (rc, e') \<longrightarrow>
       rc = -1 \<and> (\<exists>k pss ps. drained e k pss \<and> sends e (concat pss @ ps) (-1) e'))"
  using assms
proof (induction force e rule: drain_loop.induct)
  case (1 force e)
  show ?case
  proof (cases "delay_queue_front (primary_queue e)")
    case None
    then have "queue_list (primary_queue e) = []" using queue_front_none "1.prems" by blast
    then show ?thesis using None "1.prems"
      by (subst (1 2) drain_loop.simps) (auto simp: drained_def intro: exI [of _ "[]"])
  next
    case (Some p)
    note q = queue_front [OF "1.prems"(1) Some]
    show ?thesis
    proof (cases "drain_step force e p")
      case (Next e1)
      have loop: "drain_loop force e = drain_loop force e1"
        using Some Next by (subst drain_loop.simps) simp
      have pop: "primary_queue e1 = delay_queue_pop (primary_queue e)" by (rule drain_step_pop [OF Next])
      from drain_step_next [OF "1.prems"(2) Next] obtain ps
        where ps: "repaired e p ps" "sends e ps 0 e1" and same: "same_inputs e e1" by blast
      have prems: "queue_ok (primary_queue e1)" "eng_active_output_stream_id e1 = 0"
        using q(2) pop same "1.prems"(2) by (simp_all add: same_inputs_def)
      note ih = "1.IH" [OF Some Next prems]
      show ?thesis
      proof (intro conjI allI impI)
        fix e' assume "drain_loop force e = Inr e'"
        then have "drain_loop force e1 = Inr e'" using loop by metis
        with ih obtain k pss where k: "drained e1 k pss" "sends e1 (concat pss) 0 e'"
          "same_inputs e1 e'" "queue_ok (primary_queue e')"
          "queue_list (primary_queue e') = drop k (queue_list (primary_queue e1))"
          "force \<longrightarrow> k = q_count (primary_queue e1)" by blast
        have "q_count (primary_queue e) = Suc (q_count (primary_queue e1))"
          using arg_cong [OF q(1), of length] pop by simp
        then show "\<exists>k pss. drained e k pss \<and> sends e (concat pss) 0 e' \<and> same_inputs e e' \<and>
          queue_ok (primary_queue e') \<and>
          queue_list (primary_queue e') = drop k (queue_list (primary_queue e)) \<and>
          (force \<longrightarrow> k = q_count (primary_queue e))"
          using k drained_Cons [OF "1.prems"(1) Some pop same ps(1) k(1)]
            sends_append [OF ps(2) k(2)] same_inputs_trans [OF same k(3)] q(1) pop
          by (intro exI [of _ "Suc k"] exI [of _ "ps # pss"]) simp
      next
        fix rc e' assume "drain_loop force e = Inl (rc, e')"
        then have "drain_loop force e1 = Inl (rc, e')" using loop by metis
        with ih obtain k pss ps' where k: "drained e1 k pss" "rc = -1"
          "sends e1 (concat pss @ ps') (-1) e'" by blast
        show "rc = -1" by (rule k(2))
        show "\<exists>k pss ps. drained e k pss \<and> sends e (concat pss @ ps) (-1) e'"
          using drained_Cons [OF "1.prems"(1) Some pop same ps(1) k(1)] sends_append [OF ps(2) k(3)]
          by (intro exI [of _ "Suc k"] exI [of _ "ps # pss"] exI [of _ ps']) simp
      qed
    next
      case (Leave e1)
      have "drain_loop force e = Inr e1" using Some Leave by (subst drain_loop.simps) simp
      with drain_step_leave [OF "1.prems"(2) Leave] "1.prems"(1) show ?thesis
        by (auto simp: drained_def outputsD intro!: exI [of _ 0] exI [of _ "[]"] sends_nilI
            outputs_same_inputs)
    next
      case (Return rc e1)
      have "drain_loop force e = Inl (rc, e1)" using Some Return by (subst drain_loop.simps) simp
      moreover from drain_step_return [OF "1.prems"(2) Return] obtain ps
        where "rc = -1" "sends e ps (-1) e1" by blast
      moreover have "drained e 0 []" by (simp add: drained_def)
      ultimately show ?thesis by (auto intro!: exI [of _ 0] exI [of _ "[]"] exI [of _ ps])
    qed
  qed
qed



section \<open>The delay\<close>

lemma queue_delay_kept: "drain_step force e p = Next e' \<Longrightarrow> delay_ns (primary_queue e') = delay_ns (primary_queue e)"
  using drain_step_pop by fastforce

lemma drain_loop_delay:
  assumes "queue_ok (primary_queue e)" and "eng_active_output_stream_id e = 0"
    and "\<forall>k. report_stats_now_ns (clock (world e) k) = now"
    and "drain_loop False e = Inr e'"
  shows "queue_list (primary_queue e') =
     dropWhile (\<lambda>p. \<not> still_delayed (delay_ns (primary_queue e)) now p) (queue_list (primary_queue e))"
proof -
  have "drain_loop force e = Inr e' \<Longrightarrow> \<not> force \<Longrightarrow> ?thesis" for force
    using assms(1-3)
  proof (induction force e rule: drain_loop.induct)
    case (1 force e)
    show ?case
    proof (cases "delay_queue_front (primary_queue e)")
      case None
      then have nil: "queue_list (primary_queue e) = []" using queue_front_none "1.prems"(3) by blast
      have "e' = e" using "1.prems"(1) None by (simp add: drain_loop.simps)
      then show ?thesis unfolding nil using nil by simp
    next
      case (Some p)
      note q = queue_front [OF "1.prems"(3) Some]
      obtain t e1 where rd: "read_now_ns e = (t, e1)" by fastforce
      have t: "t = now" using rd "1.prems"(5) by (auto simp: read_now_ns_def)
      note step = drain_step_primary [OF "1.prems"(4) rd, of force p]
      show ?thesis
      proof (cases "still_delayed (delay_ns (primary_queue e)) now p")
        case True
        then have "drain_loop force e = Inr e1"
          using Some step t "1.prems"(2) by (subst drain_loop.simps) simp
        then have "primary_queue e' = primary_queue e"
          using "1.prems"(1) outputsD(3) [OF read_now_frame [OF rd]] by simp
        then show ?thesis using True q(1) by simp
      next
        case False
        obtain e2 where n: "drain_step force e p = Next e2"
          using "1.prems"(1) Some step False t
          by (subst (asm) drain_loop.simps) (auto split: prod.splits if_splits)
        have loop: "drain_loop force e2 = Inr e'"
          using "1.prems"(1) Some n by (subst (asm) drain_loop.simps) simp
        have pop: "primary_queue e2 = delay_queue_pop (primary_queue e)" by (rule drain_step_pop [OF n])
        have same: "same_inputs e e2" using drain_step_next [OF "1.prems"(4) n] by blast
        have ih: "queue_list (primary_queue e') =
           dropWhile (\<lambda>p. \<not> still_delayed (delay_ns (primary_queue e2)) now p) (queue_list (primary_queue e2))"
          using "1.IH" [OF Some n loop "1.prems"(2)] q(2) pop same "1.prems"(4,5)
          by (simp add: same_inputs_def same_env_def)
        then show ?thesis using False q(1) pop by simp
      qed
    qed
  qed
  with assms(4) show ?thesis by blast
qed



end
