(* ===== verification/Drain_Preserves.thy ===== *)
theory Drain_Preserves
  imports Drain_Theorems
begin

text \<open>
  What survives a drain. \<open>drain_preserves\<close> is the contract of a predicate on engines that every
  elementary step of \<open>recovery_engine_drain\<close> keeps: reading the clock, changing the active input
  or the start of the return hold-off, dropping packets from the front of a queue, sending the
  oldest secondary packet and handling the oldest primary packet. Its lemmas carry the predicate
  through the loops of the drain.
\<close>

definition outcome_engine :: "'s drain_outcome \<Rightarrow> 's recovery_engine" where
  "outcome_engine x = (case x of Next e \<Rightarrow> e | Leave e \<Rightarrow> e | Return rc e \<Rightarrow> e)"

locale drain_preserves =
  fixes inv :: "'s recovery_engine \<Rightarrow> bool"
  assumes read: "inv e \<Longrightarrow> read_now_ns e = (t, e') \<Longrightarrow> inv e'"
    and holdoff: "inv e \<Longrightarrow> inv (e\<lparr>primary_return_start_ns := x\<rparr>)"
    and active: "inv e \<Longrightarrow> inv (set_active_output_stream e i)"
    and discard_primary: "inv e \<Longrightarrow> inv (e\<lparr>primary_queue := discard_while_queue P (primary_queue e)\<rparr>)"
    and discard_secondary: "inv e \<Longrightarrow> inv (e\<lparr>secondary_queue := discard_while_queue P (secondary_queue e)\<rparr>)"
    and pop_secondary: "inv e \<Longrightarrow> inv (e\<lparr>secondary_queue := delay_queue_pop (secondary_queue e)\<rparr>)"
    and send_secondary: "inv e \<Longrightarrow> delay_queue_front (secondary_queue e) = Some r \<Longrightarrow>
      output_record e r = (rc, e') \<Longrightarrow> inv e'"
    and packet: "inv e \<Longrightarrow> delay_queue_front (primary_queue e) = Some p \<Longrightarrow>
      drain_packet e p = (rc, e') \<Longrightarrow> inv e'"
begin

lemma holdoff_elapsed:
  assumes "inv e" and "primary_return_holdoff_elapsed e t = (b, e')"
  shows "inv e'"
  using holdoff_frame [OF assms(2)] holdoff [OF assms(1)] by blast

lemma discards:
  assumes "inv e"
  shows "inv (discard_primary_records_already_output_by_secondary e)"
    and "inv (discard_secondary_records_already_output_by_primary e)"
  using assms discard_primary discard_secondary
  by (simp_all add: discard_primary_records_already_output_by_secondary_def
      discard_secondary_records_already_output_by_primary_def
      discard_secondary_records_through_def split: option.splits)

lemma secondary_step:
  assumes "inv e" and "delay_queue_front (secondary_queue e) = Some r"
    and "drain_secondary_step force e r = (c, rc, e')"
  shows "inv e'"
proof -
  obtain t e1 where rd: "read_now_ns e = (t, e1)" by fastforce
  obtain d e2 where o: "output_record (set_active_output_stream e1 1) r = (d, e2)" by fastforce
  have q: "secondary_queue e1 = secondary_queue e" by (rule outputsD(4) [OF read_now_frame [OF rd]])
  have ok1: "inv e1" by (rule read [OF assms(1) rd])
  have ok2: "inv e2" by (rule send_secondary [OF active [OF ok1] _ o]) (simp add: q assms(2))
  have "e' = e1 \<or> e' = e2 \<or> e' = e2\<lparr>secondary_queue := delay_queue_pop (secondary_queue e2)\<rparr>"
    using assms(3) by (auto simp: drain_secondary_step_def rd o split: if_splits)
  then show ?thesis using ok1 ok2 pop_secondary by blast
qed

lemma secondary_loop:
  "inv e \<Longrightarrow> drain_secondary_loop force e = (rc, e') \<Longrightarrow> inv e'"
proof (induction force e rule: drain_secondary_loop.induct)
  case (1 force e)
  show ?case
  proof (cases "delay_queue_front (secondary_queue e)")
    case None
    then show ?thesis using "1.prems" by (simp add: drain_secondary_loop.simps)
  next
    case (Some r)
    obtain c rc1 e1 where st: "drain_secondary_step force e r = (c, rc1, e1)" by (metis prod_cases3)
    have ok: "inv e1" by (rule secondary_step [OF "1.prems"(1) Some st])
    show ?thesis
    proof (cases c)
      case True
      then have "drain_secondary_loop force e1 = (rc, e')"
        using "1.prems"(2) Some st by (subst (asm) drain_secondary_loop.simps) simp
      from "1.IH" [OF Some st [symmetric] refl True ok this] show ?thesis .
    next
      case False
      then show ?thesis using "1.prems"(2) Some st ok
        by (subst (asm) drain_secondary_loop.simps) simp
    qed
  qed
qed

lemma outage:
  "inv e \<Longrightarrow> drain_secondary_on_primary_outage e force t = (rc, e') \<Longrightarrow> inv e'"
  unfolding drain_secondary_on_primary_outage_def
  by (auto split: if_splits intro: secondary_loop [OF discards(2)])

lemma step:
  assumes "inv e" and "delay_queue_front (primary_queue e) = Some p"
  shows "inv (outcome_engine (drain_step force e p))"
proof -
  obtain t e1 where rd: "read_now_ns e = (t, e1)" by fastforce
  have ok1: "inv e1" by (rule read [OF assms(1) rd])
  have q1: "primary_queue e1 = primary_queue e" by (rule outputsD(3) [OF read_now_frame [OF rd]])
  obtain b e2 where h: "(if eng_active_output_stream_id e1 = 1 then primary_return_holdoff_elapsed e1 t
              else (True, e1)) = (b, e2)" by fastforce
  have ok2: "inv e2" using h ok1 holdoff_elapsed by (auto split: if_splits)
  have q2: "primary_queue e2 = primary_queue e1"
    using h holdoff_frame [of e1 t b e2] by (auto split: if_splits)
  obtain rc e3 where o: "drain_secondary_on_primary_outage e2 force t = (rc, e3)" by fastforce
  obtain rc4 e4 where d: "drain_packet (set_active_output_stream e2 0) p = (rc4, e4)" by fastforce
  have ok4: "inv e4" by (rule packet [OF active [OF ok2] _ d]) (simp add: q1 q2 assms(2))
  have "outcome_engine (drain_step force e p) \<in> {e3, set_active_output_stream e2 0, e4}"
    by (auto simp: drain_step_def rd h o d Let_def outcome_engine_def split: bool.splits)
  then show ?thesis
    using outage [OF ok2 o] active [OF ok2] ok4 by auto
qed

lemma loop:
  "inv e \<Longrightarrow> (case drain_loop force e of Inl (rc, e') \<Rightarrow> inv e' | Inr e' \<Rightarrow> inv e')"
proof (induction force e rule: drain_loop.induct)
  case (1 force e)
  show ?case
  proof (cases "delay_queue_front (primary_queue e)")
    case None
    then show ?thesis using "1.prems" by (simp add: drain_loop.simps)
  next
    case (Some p)
    note ok = step [OF "1.prems" Some, of force]
    show ?thesis
    proof (cases "drain_step force e p")
      case (Next e1)
      then have "inv e1" using ok by (simp add: outcome_engine_def)
      from "1.IH" [OF Some Next this] Some Next show ?thesis by (subst drain_loop.simps) simp
    next
      case (Leave e1)
      then show ?thesis using Some ok by (subst drain_loop.simps) (simp add: outcome_engine_def)
    next
      case (Return rc e1)
      then show ?thesis using Some ok by (subst drain_loop.simps) (simp add: outcome_engine_def)
    qed
  qed
qed

lemma drain:
  assumes "inv e" and "recovery_engine_drain e force = (rc, e')"
  shows "inv e'"
proof -
  obtain t e1 where rd: "read_now_ns e = (t, e1)" by fastforce
  obtain b e2 where h: "primary_return_holdoff_elapsed e1 t = (b, e2)" by fastforce
  have ok2: "inv e2" by (rule holdoff_elapsed [OF read [OF assms(1) rd] h])
  let ?e3 = "discard_primary_records_already_output_by_secondary e2"
  have ok3: "inv ?e3" by (rule discards(1) [OF ok2])
  note out = outage [OF ok2] outage [OF ok3]
  have loop: "case drain_loop force (set_active_output_stream ?e3 0) of
      Inl (rc, e') \<Rightarrow> inv e' | Inr e' \<Rightarrow> inv e'"
    by (rule loop [OF active [OF ok3]])
  have after: "inv e'" if l: "drain_loop force (set_active_output_stream ?e3 0) = Inr e4"
    and r: "(if q_count (primary_queue e4) = 0
          then (case read_now_ns e4 of (now_ns, e) \<Rightarrow> drain_secondary_on_primary_outage e force now_ns)
          else (0, e4)) = (rc, e')" for e4
  proof -
    have ok4: "inv e4" using loop l by simp
    obtain t5 e5 where rd5: "read_now_ns e4 = (t5, e5)" by fastforce
    show ?thesis
      using r ok4 outage [OF read [OF ok4 rd5]] by (simp add: rd5 split: if_splits)
  qed
  show ?thesis
    using assms(2) ok2 ok3 out loop after
    by (simp add: recovery_engine_drain_def rd h Let_def split: if_splits sum.splits)
qed

end

text \<open>How a handled packet leaves the primary queue, whatever the result.\<close>

lemma primary_rest_queue:
  assumes "primary_rest p cs sm a e = (rc, e')"
  shows "primary_queue e' = primary_queue e \<or> primary_queue e' = delay_queue_pop (primary_queue e)"
proof -
  obtain x e1 where att: "attempt_recoveries p cs a e = (x, e1)" by fastforce
  have q: "primary_queue e1 = primary_queue e" by (rule outputsD(3) [OF attempt_recoveries_outputs [OF att]])
  show ?thesis
  proof (cases x)
    case None
    then show ?thesis using assms q by (simp add: primary_rest_def att)
  next
    case (Some b)
    let ?e = "if \<not> fits b \<and> \<not> logged b then log_unexplained_gap p cs e1 else e1"
    have "primary_queue ?e = primary_queue e"
      using q quietD(4) [OF log_unexplained_quiet [of e1 p cs]] by simp
    moreover have "send_primary p sm ?e = (rc, e')" using assms Some by (simp add: primary_rest_def att)
    note send_primary_pop [OF this]
    ultimately show ?thesis by (simp split: if_splits)
  qed
qed

lemma drain_packet_queue:
  assumes "drain_packet e p = (rc, e')"
  shows "primary_queue e' = primary_queue e \<or> primary_queue e' = delay_queue_pop (primary_queue e)"
  using assms
proof (cases rule: drain_packet_cases)
  case (failed e1)
  then show ?thesis
    using outputsD(3) [OF conjunct1 [OF try_recover_tei_outputs [OF failed(1)]]] by simp
next
  case (replaced e1)
  then show ?thesis
    using outputsD(3) [OF conjunct1 [OF try_recover_tei_outputs [OF replaced(1)]]] by simp
next
  case (rest e1 a)
  then show ?thesis
    using outputsD(3) [OF rest(1)] primary_rest_queue [OF rest(3)] by simp
qed

end
