(* ===== verification/Engine_Invariant.thy ===== *)
theory Engine_Invariant
  imports Drain_Preserves
begin

text \<open>
  The invariant of the engine and its preservation by every public operation. \<open>engine_ok\<close>
  says that both histories and both queues are well-formed, that the packets of a history are
  numbered without holes up to the next stream index, that a queue holds its packets in
  arrival order, that limits are respected, and that the statistics copy the engine's state.
\<close>

section \<open>The parts of the invariant\<close>

definition q_fine :: "u64 \<Rightarrow> u64 \<Rightarrow> delay_queue \<Rightarrow> bool" where
  "q_fine n d q \<longleftrightarrow> queue_ok q \<and> delay_ns q = d \<and>
     sorted_wrt (<) (map stream_index (queue_list q)) \<and> (\<forall>r \<in> set (queue_list q). stream_index r < n)"

definition h_fine :: "u64 \<Rightarrow> packet_history \<Rightarrow> bool" where
  "h_fine n h \<longleftrightarrow> hist_ok h \<and> numbered h (unat n)"

definition al_ok :: "'s recovery_engine \<Rightarrow> bool" where
  "al_ok e \<longleftrightarrow> confidence (alignment e) \<le> 100 \<and>
     alignment_confidence (stats e) = confidence (alignment e) \<and>
     alignment_offset_packets (stats e) = offset_packets (alignment e)"

definition engine_ok :: "'s recovery_engine \<Rightarrow> bool" where
  "engine_ok e \<longleftrightarrow>
     h_fine (next_stream_index e 0) (history e 0) \<and> h_fine (next_stream_index e 1) (history e 1) \<and>
     q_fine (next_stream_index e 0) (primary_delay_ns (config e)) (primary_queue e) \<and>
     q_fine (next_stream_index e 1) (primary_delay_ns (config e)) (secondary_queue e) \<and>
     (eng_active_output_stream_id e = 0 \<or> eng_active_output_stream_id e = 1) \<and>
     active_output_stream_id (stats e) = eng_active_output_stream_id e \<and> al_ok e \<and>
     max_content_burst_packets (config e) \<le> 255 \<and> min_alignment_confidence (config e) \<le> 100"

lemma engine_ok_cong:
  assumes "engine_ok e" and "config e' = config e" and "history e' = history e"
    and "next_stream_index e' = next_stream_index e" and "alignment e' = alignment e"
    and "eng_active_output_stream_id e' = eng_active_output_stream_id e"
    and "same_status (stats e) (stats e')"
    and "q_fine (next_stream_index e 0) (primary_delay_ns (config e)) (primary_queue e')"
    and "q_fine (next_stream_index e 1) (primary_delay_ns (config e)) (secondary_queue e')"
  shows "engine_ok e'"
  using assms by (simp add: engine_ok_def al_ok_def same_status_def)

lemma engine_okD:
  assumes "engine_ok e"
  shows "q_fine (next_stream_index e 0) (primary_delay_ns (config e)) (primary_queue e)"
    "q_fine (next_stream_index e 1) (primary_delay_ns (config e)) (secondary_queue e)"
    "queue_ok (primary_queue e)" "queue_ok (secondary_queue e)"
    "eng_active_output_stream_id e = 0 \<or> eng_active_output_stream_id e = 1"
  using assms by (simp_all add: engine_ok_def q_fine_def)

lemma q_fine_pop: "q_fine n d q \<Longrightarrow> q_fine n d (delay_queue_pop q)"
  by (cases "queue_list q") (auto simp: q_fine_def dq.pop_contents dq.pop_ok simp del: queue_list_empty_iff)

lemma delay_discard [simp]: "delay_ns (discard_while_queue P q) = delay_ns q"
  by (induction P q rule: discard_while_queue.induct)
    (subst discard_while_queue.simps, simp split: option.splits)

lemma discard_contents:
  "queue_ok q \<Longrightarrow> queue_list (discard_while_queue P q) = dropWhile P (queue_list q) \<and>
     queue_ok (discard_while_queue P q) \<and> q_capacity (discard_while_queue P q) = q_capacity q"
  by (rule dq.discard_while) (rule discard_while_queue.simps)

lemma sorted_wrt_dropWhile: "sorted_wrt R (map f xs) \<Longrightarrow> sorted_wrt R (map f (dropWhile P xs))"
  by (induction xs) auto

lemma q_fine_discard: "q_fine n d q \<Longrightarrow> q_fine n d (discard_while_queue P q)"
  using discard_contents [of q P]
  by (auto simp: q_fine_def sorted_wrt_dropWhile dest: set_dropWhileD)

section \<open>Draining keeps the invariant\<close>

lemma engine_ok_outputs:
  assumes "engine_ok e" and "outputs e e'"
  shows "engine_ok e'"
  using outputsD [OF assms(2)] engine_okD [OF assms(1)]
  by (intro engine_ok_cong [OF assms(1)]) simp_all

lemma engine_ok_same:
  assumes "engine_ok e" and "same_inputs e e'"
    and "primary_queue e' = primary_queue e \<or> primary_queue e' = delay_queue_pop (primary_queue e)"
  shows "engine_ok e'"
  using assms(2,3) engine_okD [OF assms(1)]
  by (intro engine_ok_cong [OF assms(1)]) (auto simp: same_inputs_def q_fine_pop)

interpretation engine_ok: drain_preserves engine_ok
proof
  fix e e' :: "'s recovery_engine" and t x :: u64 and i rc :: int and P r p
  assume ok: "engine_ok e"
  show "engine_ok e'" if "read_now_ns e = (t, e')"
    by (rule engine_ok_outputs [OF ok read_now_frame [OF that]])
  show "engine_ok (e\<lparr>primary_return_start_ns := x\<rparr>)"
    using engine_okD [OF ok] by (intro engine_ok_cong [OF ok]) simp_all
  show "engine_ok (set_active_output_stream e i)"
    using ok by (auto simp: engine_ok_def al_ok_def set_active_output_stream_def)
  show "engine_ok (e\<lparr>primary_queue := discard_while_queue P (primary_queue e)\<rparr>)"
    and "engine_ok (e\<lparr>secondary_queue := discard_while_queue P (secondary_queue e)\<rparr>)"
    and "engine_ok (e\<lparr>secondary_queue := delay_queue_pop (secondary_queue e)\<rparr>)"
    by (rule engine_ok_cong [OF ok]; simp add: q_fine_pop q_fine_discard engine_okD [OF ok])+
  show "engine_ok e'" if "output_record e r = (rc, e')"
    by (rule engine_ok_outputs [OF ok output_record_outputs [OF that]])
  show "engine_ok e'" if "drain_packet e p = (rc, e')"
    by (rule engine_ok_same [OF ok drain_packet_same [OF that] drain_packet_queue [OF that]])
qed

section \<open>Learning from a packet keeps the invariant\<close>

text \<open>Steps that only touch the alignment, the timing model, input counters and statistics.\<close>

definition learns :: "'s recovery_engine \<Rightarrow> 's recovery_engine \<Rightarrow> bool" where
  "learns e e' \<longleftrightarrow> config e' = config e \<and> history e' = history e \<and>
     primary_queue e' = primary_queue e \<and> secondary_queue e' = secondary_queue e \<and>
     next_stream_index e' = next_stream_index e \<and> sink e' = sink e \<and>
     last_input_arrival_ns e' = last_input_arrival_ns e \<and>
     eng_active_output_stream_id e' = eng_active_output_stream_id e \<and>
     active_output_stream_id (stats e') = active_output_stream_id (stats e) \<and>
     same_env (world e) (world e') \<and> (al_ok e \<longrightarrow> al_ok e')"

lemma learns_refl [simp]: "learns e e"
  by (simp add: learns_def)

lemma learns_trans: "learns a b \<Longrightarrow> learns b c \<Longrightarrow> learns a c"
  by (auto simp: learns_def intro: same_env_trans)

lemma same_status_learned [simp]:
  "same_status st (report_stats_observe_latency_sample st' x) = same_status st st'"
  "same_status st (report_stats_observe_latency st' a b c) = same_status st st'"
  "same_status st (report_stats_observe_pcr_delay st' x) = same_status st st'"
  by (simp_all add: same_status_def report_stats_observe_latency_sample_def
      report_stats_observe_latency_def report_stats_observe_pcr_delay_def Let_def)

lemma learns_stats:
  "same_status (stats e) st \<Longrightarrow> learns e (e\<lparr>stats := st\<rparr>)"
  by (simp add: learns_def al_ok_def same_status_def)

lemma learns_pcr: "learns e (e\<lparr>pcr_model := m\<rparr>)"
  by (simp add: learns_def al_ok_def)

lemma observe_latency_copies [simp]:
  "active_output_stream_id (report_stats_observe_latency st a b c) = active_output_stream_id st"
  "alignment_confidence (report_stats_observe_latency st a b c) = alignment_confidence st"
  "alignment_offset_packets (report_stats_observe_latency st a b c) = alignment_offset_packets st"
  using same_status_learned(2) [of st st a b c] by (simp_all add: same_status_def)

lemma learns_match: "learns e (update_alignment_from_match e a b)"
  by (simp add: update_alignment_from_match_def learns_def al_ok_def Let_def)

lemma learns_slot: "learns e (set_pcr_slot e sid i m)"
  by (simp add: set_pcr_slot_def learns_pcr)

lemma learns_bitrate: "learns e (update_pcr_bitrate e sid i r)"
  by (simp add: update_pcr_bitrate_def set_pcr_slot_def learns_def al_ok_def Let_def)

lemma learns_model_for: "pcr_pid_model_for e sid p = (slot, e') \<Longrightarrow> learns e e'"
  by (auto simp: pcr_pid_model_for_def learns_slot split: prod.splits option.splits)

lemma learns_pcr_timing: "learns e (update_pcr_timing e r)"
proof -
  obtain slot e1 where m: "pcr_pid_model_for e (source_stream_id r) (pid r) = (slot, e1)" by fastforce
  define e2 where "e2 = (case slot of None \<Rightarrow> e1
    | Some i \<Rightarrow> let e = update_pcr_bitrate e1 (source_stream_id r) i r
        in set_pcr_slot e (source_stream_id r) i
             ((pid_models (pcr_model e (source_stream_id r)) ! i)
                \<lparr>last_pcr := pcr_value r, last_stream_index := stream_index r,
                 pcr_last_arrival_time_ns := arrival_time_ns r\<rparr>))"
  have l2: "learns e e2"
    unfolding e2_def Let_def
    using learns_model_for [OF m] learns_trans learns_bitrate learns_slot
    by (auto split: option.splits) blast
  have delay: "learns x (x\<lparr>pcr_model := m, stats := report_stats_observe_pcr_delay (stats x) s\<rparr>)"
    for x :: "'a recovery_engine" and m s
    using same_status_learned(3) [of "stats x" "stats x" s]
    by (simp add: learns_def al_ok_def same_status_def)
  show ?thesis
    unfolding update_pcr_timing_def Let_def m prod.case e2_def [unfolded Let_def, symmetric]
    using l2 learns_trans [OF l2 delay] learns_trans [OF learns_trans [OF l2 learns_match] delay]
    by (simp split: option.splits)
qed

lemma learns_input_gap: "learns e (observe_input_path_gap e sid r)"
  by (simp add: observe_input_path_gap_def recovery_decision_log_def learns_def al_ok_def Let_def
      split: option.splits)

lemma learns_alignment: "learns e (update_alignment e sid r)"
proof -
  have miss: "learns x (x\<lparr>alignment := (alignment x)\<lparr>consecutive_misses := n\<rparr>\<rparr>)"
    for x :: "'a recovery_engine" and n
    by (simp add: learns_def al_ok_def)
  have lower: "learns x (x\<lparr>alignment := (alignment x)\<lparr>confidence := confidence (alignment x) - 1,
        consecutive_misses := 0\<rparr>, stats := (stats x)\<lparr>alignment_confidence := confidence (alignment x) - 1\<rparr>\<rparr>)"
    if "0 < confidence (alignment x)" for x :: "'a recovery_engine"
  proof -
    have "confidence (alignment x) - 1 \<le> confidence (alignment x)"
      using that by (simp add: word_le_nat_alt unat_minus_one word_greater_zero_iff)
    then show ?thesis by (auto simp: learns_def al_ok_def)
  qed
  show ?thesis
    unfolding update_alignment_def Let_def
    by (simp add: learns_match miss learns_trans [OF miss lower, simplified] split: option.split)
qed

section \<open>A packet arrives\<close>

lemma store_record_push:
  "store_record e sid r =
     e\<lparr>history := (history e)(sid :=
          (let h = hist_push_record (history e sid) r; retention = history_ms (config e) * 1000000
           in if 0 < retention \<and> retention < arrival_time_ns r
              then packet_history_prune_older_than h (arrival_time_ns r - retention) else h)),
       last_input_arrival_ns := (last_input_arrival_ns e)(sid := arrival_time_ns r)\<rparr>"
  by (simp add: store_record_def hist_push_record_def Let_def split: prod.splits)

lemma h_fine_store:
  assumes "h_fine n (history e sid)" and "stream_index r = n" and "n \<noteq> - 1"
  shows "h_fine (n + 1) (history (store_record e sid r) sid)"
proof -
  have "n < - 1" using assms(3) by (simp add: order_less_le)
  then have "unat (n + 1) = Suc (unat n)" by (rule unat_inc_less)
  moreover have "hist_ok (hist_push_record (history e sid) r)"
      "numbered (hist_push_record (history e sid) r) (Suc (unat n))"
    using assms hist_ok_push numbered_push by (auto simp: h_fine_def)
  ultimately show ?thesis
    using hist_list_prune numbered_prune
    by (auto simp: store_record_push h_fine_def Let_def)
qed

lemma q_fine_mono: "q_fine n d q \<Longrightarrow> n \<le> m \<Longrightarrow> q_fine m d q"
  by (auto simp: q_fine_def)

lemma q_fine_push:
  assumes "q_fine n d q" and "stream_index r = n" and "n \<noteq> - 1"
  shows "q_fine (n + 1) d (snd (delay_queue_push (if fst (delay_queue_push q r) \<noteq> 0
           then delay_queue_pop q else q) r))"
    and "fst (delay_queue_push (if fst (delay_queue_push q r) \<noteq> 0 then delay_queue_pop q else q) r) = 0"
proof -
  let ?q = "if fst (delay_queue_push q r) \<noteq> 0 then delay_queue_pop q else q"
  have "n < - 1" using assms(3) by (simp add: order_less_le)
  then have n: "n < n + 1" by (simp add: word_less_nat_alt unat_inc_less)
  have ok: "queue_ok q" using assms(1) by (simp add: q_fine_def)
  note ev = dq.push_evicting [OF ok, of r]
  then show "fst (delay_queue_push ?q r) = 0" by blast
  have l: "queue_list (snd (delay_queue_push ?q r)) =
      (if length (queue_list q) < q_capacity q then queue_list q else tl (queue_list q)) @ [r]"
    using ev by blast
  have qok: "queue_ok (snd (delay_queue_push ?q r))" "delay_ns (snd (delay_queue_push ?q r)) = d"
    using dq.push_ok [of ?q r] ok dq.pop_ok [OF ok] assms(1) by (simp_all add: q_fine_def)
  let ?l = "if length (queue_list q) < q_capacity q then queue_list q else tl (queue_list q)"
  have sub: "set ?l \<subseteq> set (queue_list q)" by (cases "queue_list q") (auto simp del: queue_list_empty_iff)
  have "sorted_wrt (<) (map stream_index ?l)"
    using assms(1) by (cases "queue_list q") (auto simp: q_fine_def simp del: queue_list_empty_iff)
  moreover have "\<forall>x \<in> set ?l. stream_index x < n" using assms(1) sub by (auto simp: q_fine_def)
  ultimately show "q_fine (n + 1) d (snd (delay_queue_push ?q r))"
    unfolding q_fine_def l using qok n assms(2) by (auto simp: sorted_wrt_append intro: less_trans)
qed

text \<open>The queue operation of an arriving packet, as one expression.\<close>

lemma enqueue_primary:
  "enqueue_record e 0 r =
     (let q = primary_queue e; full = fst (delay_queue_push q r) \<noteq> 0;
          p = delay_queue_push (if full then delay_queue_pop q else q) r
      in (if fst p \<noteq> 0 then -1 else 0,
          (if full then e\<lparr>stats := (stats e)\<lparr>primary_delay_overflows := primary_delay_overflows (stats e) + 1\<rparr>\<rparr>
           else e)\<lparr>primary_queue := snd p\<rparr>))"
proof -
  have "fst (delay_queue_push q r) \<noteq> 0 \<Longrightarrow> snd (delay_queue_push q r) = q" for q
    by (simp add: delay_queue_push_def Let_def split: if_splits)
  then show ?thesis by (auto simp: enqueue_record_def Let_def split: prod.splits) (metis snd_conv fst_conv)+
qed

lemma enqueue_secondary:
  "enqueue_record e 1 r =
     (let q = secondary_queue e; full = fst (delay_queue_push q r) \<noteq> 0;
          p = delay_queue_push (if full then delay_queue_pop q else q) r
      in (if fst p \<noteq> 0 then -1 else 0, e\<lparr>secondary_queue := snd p\<rparr>))"
proof -
  have "fst (delay_queue_push q r) \<noteq> 0 \<Longrightarrow> snd (delay_queue_push q r) = q" for q
    by (simp add: delay_queue_push_def Let_def split: if_splits)
  then show ?thesis by (auto simp: enqueue_record_def Let_def split: prod.splits) (metis snd_conv fst_conv)+
qed

text \<open>The packet's record, and the engine just before the packet is queued.\<close>

lemma accept_packet_steps:
  assumes "accept_packet e sid pkt info = (rc, e')"
  obtains r e1 e2 where "record_of e sid pkt info = (r, e1)" "learns (store_record e1 sid r) e2"
    "enqueue_record e2 sid r = (rc, e')"
proof -
  obtain r e1 where rec: "record_of e sid pkt info = (r, e1)" by fastforce
  let ?s = "store_record e1 sid r"
  let ?n = "?s\<lparr>decision_candidate_count := 0, decision_candidates_truncated := False\<rparr>"
  have "learns ?s ?n" by (simp add: learns_def al_ok_def)
  then have "learns ?s (update_alignment (observe_input_path_gap (update_pcr_timing ?n r) sid r) sid r)"
    by (intro learns_trans [OF learns_trans [OF learns_trans [OF _ learns_pcr_timing] learns_input_gap]
          learns_alignment])
  moreover have "enqueue_record (update_alignment (observe_input_path_gap (update_pcr_timing ?n r) sid r) sid r)
      sid r = (rc, e')"
    using assms by (simp add: accept_packet_def rec Let_def)
  ultimately show thesis by (rule that [OF rec])
qed

lemma record_of_frame:
  assumes "record_of e sid pkt info = (r, e1)"
  shows "stream_index r = next_stream_index e sid" "source_stream_id r = sid"
    "packet r = take TS_PACKET_SIZE pkt" "pid r = info_pid info"
    "e1 = e\<lparr>next_stream_index := (next_stream_index e)(sid := next_stream_index e sid + 1), world := world e1\<rparr>"
    "same_env (world e) (world e1)"
  using assms
  by (auto simp: record_of_def Let_def read_now_ns_def read_time_of_day_def split: prod.splits)

lemma engine_ok_accept:
  assumes "engine_ok e" and "sid = 0 \<or> sid = 1" and "next_stream_index e sid \<noteq> - 1"
    and "accept_packet e sid pkt info = (rc, e')"
  shows "engine_ok e' \<and> rc = 0"
proof -
  obtain r e1 e2 where rec: "record_of e sid pkt info = (r, e1)"
    and learn: "learns (store_record e1 sid r) e2" and enq: "enqueue_record e2 sid r = (rc, e')"
    using assms(4) by (rule accept_packet_steps)
  let ?n = "next_stream_index e sid"
  note r = record_of_frame [OF rec]
  have e1: "history e1 = history e" "config e1 = config e" "stats e1 = stats e" "alignment e1 = alignment e"
    "primary_queue e1 = primary_queue e" "secondary_queue e1 = secondary_queue e"
    "eng_active_output_stream_id e1 = eng_active_output_stream_id e"
    "next_stream_index e1 = (next_stream_index e)(sid := ?n + 1)"
    by (subst r(5), simp)+
  let ?s = "store_record e1 sid r"
  have hist: "h_fine (?n + 1) (history ?s sid)"
    using h_fine_store [of ?n e1 sid r] assms(1-3) r(1) e1(1) by (auto simp: engine_ok_def)
  have other: "history ?s j = history e j" if "j \<noteq> sid" for j
    using that e1(1) by (simp add: store_record_push)
  have s: "config ?s = config e" "stats ?s = stats e" "alignment ?s = alignment e"
    "primary_queue ?s = primary_queue e" "secondary_queue ?s = secondary_queue e"
    "eng_active_output_stream_id ?s = eng_active_output_stream_id e"
    "next_stream_index ?s = (next_stream_index e)(sid := ?n + 1)"
    using e1 by (simp_all add: store_record_push)
  have al: "al_ok e2"
    using learn assms(1) s(2,3) by (simp add: learns_def engine_ok_def al_ok_def)
  have e2: "config e2 = config e" "primary_queue e2 = primary_queue e" "secondary_queue e2 = secondary_queue e"
    "eng_active_output_stream_id e2 = eng_active_output_stream_id e"
    "active_output_stream_id (stats e2) = active_output_stream_id (stats e)"
    "next_stream_index e2 = (next_stream_index e)(sid := ?n + 1)" "history e2 = history ?s"
    using learn s by (simp_all add: learns_def)
  show ?thesis
  proof (cases "sid = 0")
    case True
    note q = q_fine_push [OF engine_okD(1) [OF assms(1)], of r]
    show ?thesis
      using enq enqueue_primary [of e2 r] True q assms(1,3) e2 al hist other [of 1] r(1)
      by (auto simp: engine_ok_def al_ok_def Let_def split: if_splits)
  next
    case False
    with assms(2) have sid: "sid = 1" by simp
    note q = q_fine_push [OF engine_okD(2) [OF assms(1)], of r]
    show ?thesis
      using enq enqueue_secondary [of e2 r] sid q assms(1,3) e2 al hist other [of 0] r(1)
      by (auto simp: engine_ok_def al_ok_def Let_def split: if_splits)
  qed
qed

lemma engine_ok_push:
  assumes "engine_ok e" and "sid = 0 \<or> sid = 1" and "next_stream_index e sid \<noteq> - 1"
    and "recovery_engine_push_packet e sid pkt info = (rc, e')"
  shows "engine_ok e'"
proof -
  obtain c e1 where acc: "accept_packet e sid pkt info = (c, e1)" by fastforce
  from engine_ok_accept [OF assms(1-3) acc] have ok: "engine_ok e1" "c = 0" by simp_all
  have "recovery_engine_drain e1 False = (rc, e')"
    using assms(2,4) acc ok(2) by (auto simp: recovery_engine_push_packet_def)
  from engine_ok.drain [OF ok(1) this] show ?thesis .
qed

lemma engine_ok_flush:
  assumes "engine_ok e" and "recovery_engine_flush e = (rc, e')"
  shows "engine_ok e'"
proof -
  obtain c e1 where d: "recovery_engine_drain e True = (c, e1)" by fastforce
  have ok: "engine_ok e1" by (rule engine_ok.drain [OF assms(1) d])
  have "\<exists>snk. e' = e1\<lparr>sink := snk\<rparr> \<or> e' = e1"
    using assms(2) by (auto simp: recovery_engine_flush_def d split: if_splits prod.splits)
  then show ?thesis using ok by (auto simp: engine_ok_def al_ok_def)
qed

section \<open>Set-up\<close>

lemma history_capacity_bounds:
  "8192 \<le> history_capacity_from_config cfg \<and> history_capacity_from_config cfg \<le> 1048576"
  by (simp add: history_capacity_from_config_def Let_def word_less_nat_alt not_less)

lemma init_engine:
  assumes "recovery_engine_init_with_config alloc snk st w cfg = (rc, e)"
  shows "(rc = 0 \<longleftrightarrow> alloc 0 \<and> alloc 1 \<and> alloc 2 \<and> alloc 3) \<and> (rc \<noteq> 0 \<longrightarrow> rc = -1) \<and>
     sink e = snk \<and> config e = clamp_config cfg \<and>
     (rc = 0 \<longrightarrow> hist_list (history e 0) = [] \<and> hist_list (history e 1) = [] \<and>
        queue_list (primary_queue e) = [] \<and> queue_list (secondary_queue e) = [] \<and>
        hist_capacity (history e 0) = history_capacity_from_config cfg \<and>
        q_capacity (primary_queue e) = history_capacity_from_config cfg)"
  using assms
  by (auto simp: recovery_engine_init_with_config_def packet_history_init_def delay_queue_init_def
      zero_engine_def hist_list_def queue_list_def Let_def split: if_splits)

lemma clamp_config_bounds [simp]:
  "max_content_burst_packets (clamp_config cfg) \<le> 255" "min_alignment_confidence (clamp_config cfg) \<le> 100"
  "primary_delay_ns (clamp_config cfg) = primary_delay_ns cfg"
  by (simp_all add: clamp_config_def Let_def not_less)

lemma engine_ok_init:
  assumes "recovery_engine_init_with_config alloc snk st w cfg = (0, e)"
    and "alignment_confidence st = 0" and "alignment_offset_packets st = 0"
  shows "engine_ok e"
proof -
  let ?c = "history_capacity_from_config cfg"
  have c: "0 < ?c" using history_capacity_bounds [of cfg] by simp
  have "alloc 0 \<and> alloc 1 \<and> alloc 2 \<and> alloc 3" using init_engine [OF assms(1)] by blast
  then have e: "e = (zero_engine snk st w)\<lparr>config := clamp_config cfg,
      history := (\<lambda>_. zero_history)(0 := snd (packet_history_init True ?c), 1 := snd (packet_history_init True ?c)),
      primary_queue := snd (delay_queue_init True ?c (primary_delay_ns cfg)),
      secondary_queue := snd (delay_queue_init True ?c (primary_delay_ns cfg)),
      eng_active_output_stream_id := 0, stats := st\<lparr>active_output_stream_id := 0\<rparr>\<rparr>"
    using assms(1)
    by (simp add: recovery_engine_init_with_config_def packet_history_init_def delay_queue_init_def
        zero_engine_def Let_def)
  have h: "h_fine 0 (snd (packet_history_init True ?c))"
    using hist_list_init [OF c] by (auto simp: h_fine_def packet_history_init_def)
  have q: "q_fine 0 d (snd (delay_queue_init True ?c d))" for d
    using queue_init_ok [OF c, of d] by (auto simp: q_fine_def delay_queue_init_def queue_list_def)
  show ?thesis
    unfolding e using h q assms(2,3) by (simp add: engine_ok_def zero_engine_def al_ok_def)
qed

section \<open>Reachable engines\<close>

text \<open>
  The life of an engine: set-up on fresh statistics, then any sequence of arriving packets,
  drains, flushes and counting by the other parts of the program, which write other fields of
  the statistics. A stream index is not supposed to reach the largest 64-bit value.
\<close>

inductive reachable :: "'s recovery_engine \<Rightarrow> bool" where
  start: "recovery_engine_init_with_config alloc snk (report_stats_init now) w cfg = (0, e) \<Longrightarrow> reachable e"
| push: "reachable e \<Longrightarrow> next_stream_index e sid \<noteq> - 1 \<Longrightarrow>
         recovery_engine_push_packet e sid pkt info = (rc, e') \<Longrightarrow> reachable e'"
| drain: "reachable e \<Longrightarrow> recovery_engine_drain e force = (rc, e') \<Longrightarrow> reachable e'"
| flush: "reachable e \<Longrightarrow> recovery_engine_flush e = (rc, e') \<Longrightarrow> reachable e'"
| count: "reachable e \<Longrightarrow> same_status (stats e) st \<Longrightarrow> reachable (e\<lparr>stats := st\<rparr>)"

lemma reachable_engine_ok: "reachable e \<Longrightarrow> engine_ok e"
proof (induction rule: reachable.induct)
  case (start alloc snk now w cfg e)
  then show ?case
    by (rule engine_ok_init) (simp_all add: report_stats_init_def zero_stats_def)
next
  case (push e sid pkt info rc e')
  show ?case
  proof (cases "sid = 0 \<or> sid = 1")
    case True
    then show ?thesis using engine_ok_push push by blast
  next
    case False
    then show ?thesis using push by (auto simp: recovery_engine_push_packet_def split: if_splits)
  qed
next
  case (drain e force rc e')
  then show ?case using engine_ok.drain by blast
next
  case (flush e rc e')
  then show ?case using engine_ok_flush by blast
next
  case (count e st)
  then show ?case by (auto simp: engine_ok_def al_ok_def same_status_def)
qed

text \<open>
  C4. Every engine that can occur is well-formed: the histories are consistent ring buffers
  whose packets are numbered without a hole up to the next stream index, the queues hold
  their packets in arrival order, the active input is 0 or 1, the statistics show the active
  input and the alignment the engine really has, confidence is at most 100, and the
  configured limits are within 255 packets and 100 percent.
\<close>

theorem reachable_invariant: "reachable e \<Longrightarrow> engine_ok e"
  by (rule reachable_engine_ok)

lemma reachable_invariant_witness: "\<exists>e :: bytes list recovery_engine. reachable e \<and> engine_ok e"
proof -
  obtain rc e where i: "recovery_engine_init_with_config (\<lambda>_. True) ex_sink (report_stats_init 5) ex_world
      recovery_engine_default_config = (rc, e)" by fastforce
  with init_engine [OF i] have "rc = 0" by simp
  with i have "reachable e" by (blast intro: reachable.start)
  with reachable_invariant [OF this] show ?thesis by blast
qed



section \<open>What a packet's arrival does\<close>

lemma pruned_last:
  assumes "hist_ok h" and "cutoff \<le> arrival_time_ns r"
  shows "\<exists>rs. hist_list (packet_history_prune_older_than (hist_push_record h r) cutoff) = rs @ [r]"
proof -
  have "hist_list (packet_history_prune_older_than (hist_push_record h r) cutoff) =
      dropWhile (\<lambda>r. arrival_time_ns r < cutoff) (hist_list (hist_push_record h r))"
    using hist_list_prune [OF hist_ok_push [OF assms(1)]] by blast
  also have "\<dots> = dropWhile (\<lambda>r. arrival_time_ns r < cutoff)
      ((if hist_count h < hist_capacity h then hist_list h else tl (hist_list h)) @ [r])"
    by (simp add: hist_list_push [OF assms(1)])
  finally show ?thesis using assms(2) by (auto simp: dropWhile_append dest: leD)
qed

lemma stored_last:
  assumes "hist_ok (history e sid)"
  shows "\<exists>rs. hist_list (history (store_record e sid r) sid) = rs @ [r]"
proof -
  have "arrival_time_ns r - n \<le> arrival_time_ns r" if "n < arrival_time_ns r" for n
    using that by (simp add: word_sub_le)
  then show ?thesis
    using pruned_last [OF assms] hist_list_push [OF assms, of r]
    by (auto simp: store_record_push Let_def)
qed

text \<open>
  C17. A packet that arrives on an input gets the next stream index of that input and is
  the newest packet of its history and of its queue; when the queue was full, and only then,
  the oldest queued packet is given up. The other input's history and queue, and the output,
  are untouched.
\<close>

theorem arriving_packet_is_queued:
  assumes "engine_ok e" and "sid = 0 \<or> sid = 1" and "next_stream_index e sid \<noteq> - 1"
    and "accept_packet e sid pkt info = (rc, e')"
  shows "rc = 0 \<and> sink e' = sink e \<and>
     (\<exists>r rs. stream_index r = next_stream_index e sid \<and> source_stream_id r = sid \<and>
        packet r = take TS_PACKET_SIZE pkt \<and> pid r = info_pid info \<and>
        hist_list (history e' sid) = rs @ [r] \<and> history e' (1 - sid) = history e (1 - sid) \<and>
        next_stream_index e' sid = next_stream_index e sid + 1 \<and>
        (let queue = (if sid = 0 then primary_queue else secondary_queue);
             other = (if sid = 0 then secondary_queue else primary_queue)
         in other e' = other e \<and>
            queue_list (queue e') =
              (if q_count (queue e) < q_capacity (queue e) then queue_list (queue e)
               else tl (queue_list (queue e))) @ [r]))"
proof -
  obtain r e1 e2 where rec: "record_of e sid pkt info = (r, e1)"
    and learn: "learns (store_record e1 sid r) e2" and enq: "enqueue_record e2 sid r = (rc, e')"
    using assms(4) by (rule accept_packet_steps)
  note r = record_of_frame [OF rec]
  have e1: "history e1 = history e" "primary_queue e1 = primary_queue e"
    "secondary_queue e1 = secondary_queue e" "sink e1 = sink e"
    "next_stream_index e1 = (next_stream_index e)(sid := next_stream_index e sid + 1)"
    by (subst r(5), simp)+
  have ok: "hist_ok (history e1 sid)" using assms(1,2) e1(1) by (auto simp: engine_ok_def h_fine_def)
  obtain rs where hist: "hist_list (history (store_record e1 sid r) sid) = rs @ [r]"
    using stored_last [OF ok] by blast
  have other: "history (store_record e1 sid r) (1 - sid) = history e (1 - sid)"
    using assms(2) e1(1) by (auto simp: store_record_push)
  have e2: "primary_queue e2 = primary_queue e" "secondary_queue e2 = secondary_queue e"
    "sink e2 = sink e" "history e2 = history (store_record e1 sid r)"
    "next_stream_index e2 sid = next_stream_index e sid + 1"
    using learn e1 by (simp_all add: learns_def store_record_push)
  have push: "fst (delay_queue_push (if fst (delay_queue_push q r) \<noteq> 0 then delay_queue_pop q else q) r) = 0"
    "queue_list (snd (delay_queue_push (if fst (delay_queue_push q r) \<noteq> 0 then delay_queue_pop q else q) r)) =
       (if q_count q < q_capacity q then queue_list q else tl (queue_list q)) @ [r]"
    if "queue_ok q" for q
    using dq.push_evicting [OF that, of r] by simp_all
  show ?thesis
  proof (cases "sid = 0")
    case True
    have "rc = 0 \<and> sink e' = sink e \<and> history e' = history e2 \<and> next_stream_index e' = next_stream_index e2 \<and>
       secondary_queue e' = secondary_queue e \<and> queue_list (primary_queue e') =
       (if q_count (primary_queue e) < q_capacity (primary_queue e) then queue_list (primary_queue e)
        else tl (queue_list (primary_queue e))) @ [r]"
      using enq enqueue_primary [of e2 r] True push [OF engine_okD(3) [OF assms(1)]] e2
      by (auto simp: Let_def split: if_splits)
    then show ?thesis using True r hist other e2(4,5) by auto
  next
    case False
    with assms(2) have sid: "sid = 1" by simp
    have "rc = 0 \<and> sink e' = sink e \<and> history e' = history e2 \<and> next_stream_index e' = next_stream_index e2 \<and>
       primary_queue e' = primary_queue e \<and> queue_list (secondary_queue e') =
       (if q_count (secondary_queue e) < q_capacity (secondary_queue e) then queue_list (secondary_queue e)
        else tl (queue_list (secondary_queue e))) @ [r]"
      using enq enqueue_secondary [of e2 r] sid push [OF engine_okD(4) [OF assms(1)]] e2
      by (auto simp: Let_def split: if_splits)
    then show ?thesis using sid r hist other e2(4,5) by auto
  qed
qed

lemma arriving_packet_is_queued_witness:
  "\<exists>(e :: bytes list recovery_engine) e' r. accept_packet e 0 (replicate 188 0x47) zero_info = (0, e') \<and>
     queue_list (primary_queue e') = [r] \<and> packet r = replicate 188 0x47"
proof -
  obtain rc e where i: "recovery_engine_init_with_config (\<lambda>_. True) ex_sink zero_stats ex_world
      recovery_engine_default_config = (rc, e)" by fastforce
  have rc: "rc = 0" using init_engine [OF i] by simp
  have q: "queue_list (primary_queue e) = []" "q_capacity (primary_queue e) =
      history_capacity_from_config recovery_engine_default_config"
    using init_engine [OF i] rc by simp_all
  have ok: "engine_ok e"
    using engine_ok_init [of "\<lambda>_. True" ex_sink zero_stats ex_world recovery_engine_default_config e]
      i rc by (simp add: zero_stats_def)
  have n: "next_stream_index e 0 \<noteq> - 1"
    using i by (auto simp: recovery_engine_init_with_config_def packet_history_init_def
        delay_queue_init_def zero_engine_def Let_def)
  obtain c e' where acc: "accept_packet e 0 (replicate 188 0x47) zero_info = (c, e')" by fastforce
  from arriving_packet_is_queued [OF ok _ n acc] q
    history_capacity_bounds [of recovery_engine_default_config]
  have "c = 0 \<and> (\<exists>r. queue_list (primary_queue e') = [r] \<and> packet r = replicate 188 0x47)"
    by (auto simp: TS_PACKET_SIZE_def)
  with acc show ?thesis by blast
qed

end
