(* ===== verification/Failover_Theorems.thy ===== *)
theory Failover_Theorems
  imports Engine_Invariant
begin

text \<open>
  The properties of changing inputs: when the secondary takes over, what it sends, and when
  the primary returns.
\<close>

section \<open>What the secondary sends\<close>

lemma drain_secondary_step_cases:
  assumes "drain_secondary_step force e r = (c, rc, e')"
  shows "(c = False \<and> rc = 0 \<and> outputs e e' \<and> sink e' = sink e \<and> \<not> force) \<or>
     (c = False \<and> rc = -1 \<and> sends e [packet r] (-1) e' \<and> secondary_queue e' = secondary_queue e \<and>
      primary_queue e' = primary_queue e) \<or>
     (c = force \<and> rc = 0 \<and> sends e [packet r] 0 e' \<and>
      secondary_queue e' = delay_queue_pop (secondary_queue e) \<and> primary_queue e' = primary_queue e)"
proof -
  obtain t e1 where rd: "read_now_ns e = (t, e1)" by fastforce
  obtain d e2 where o: "output_record (set_active_output_stream e1 1) r = (d, e2)" by fastforce
  note f1 = outputsD [OF read_now_frame [OF rd]] and f2 = outputsD [OF output_record_outputs [OF o]]
  have s: "sends e [packet r] d e2"
    by (rule sends_sink_eq [OF output_record_sends [OF o]]) (simp_all add: read_now_sink [OF rd])
  have "d = 0 \<or> d = -1" by (rule sends_result [OF s])
  then show ?thesis
    using assms s f1(3,4) f2(3,4) read_now_sink [OF rd] read_now_frame [OF rd]
    by (auto simp: drain_secondary_step_def rd o split: if_splits intro: sends_sink_eq)
qed

lemma drain_secondary_loop_stream:
  assumes "queue_ok (secondary_queue e)" and "drain_secondary_loop force e = (rc, e')"
  shows "\<exists>k. k \<le> q_count (secondary_queue e) \<and> primary_queue e' = primary_queue e \<and>
     queue_list (secondary_queue e') = drop k (queue_list (secondary_queue e)) \<and>
     sends e (map packet (take (if rc = 0 then k else Suc k) (queue_list (secondary_queue e)))) rc e' \<and>
     (force \<and> rc = 0 \<longrightarrow> k = q_count (secondary_queue e)) \<and> (\<not> force \<longrightarrow> k \<le> 1)"
  using assms
proof (induction force e rule: drain_secondary_loop.induct)
  case (1 force e)
  let ?q = "secondary_queue e"
  show ?case
  proof (cases "delay_queue_front ?q")
    case None
    then have nil: "queue_list ?q = []" using queue_front_none "1.prems"(1) by blast
    have "rc = 0" "e' = e" using None "1.prems"(2) by (simp_all add: drain_secondary_loop.simps)
    moreover have "q_count ?q = 0" using nil by simp
    ultimately show ?thesis unfolding nil by (simp add: nil del: queue_list_empty_iff)
  next
    case (Some r)
    note q = queue_front [OF "1.prems"(1) Some]
    obtain c rc1 e1 where st: "drain_secondary_step force e r = (c, rc1, e1)" by (metis prod_cases3)
    have res: "(if c then drain_secondary_loop force e1 else (rc1, e1)) = (rc, e')"
      using "1.prems"(2) Some st by (subst (asm) drain_secondary_loop.simps) simp
    have cnt: "q_count ?q = Suc (q_count (delay_queue_pop ?q))"
      using arg_cong [OF q(1), of length] by simp
    consider (wait) "c = False" "rc1 = 0" "outputs e e1" "sink e1 = sink e" "\<not> force"
      | (fail) "c = False" "rc1 = -1" "sends e [packet r] (-1) e1" "secondary_queue e1 = ?q"
          "primary_queue e1 = primary_queue e"
      | (sent) "c = force" "rc1 = 0" "sends e [packet r] 0 e1" "secondary_queue e1 = delay_queue_pop ?q"
          "primary_queue e1 = primary_queue e"
      using drain_secondary_step_cases [OF st] by blast
    then show ?thesis
    proof cases
      case wait
      then show ?thesis using res by (auto simp: outputsD sends_nilI intro!: exI [of _ 0] dest: outputsD(3,4))
    next
      case fail
      then show ?thesis using res q(1) by (auto intro!: exI [of _ 0])
    next
      case sent
      show ?thesis
      proof (cases force)
        case False
        then show ?thesis using sent res q(1) cnt by (auto intro!: exI [of _ "Suc 0"])
      next
        case True
        with sent res have loop: "drain_secondary_loop force e1 = (rc, e')" by simp
        from sent True have c: "c" by simp
        have "queue_ok (secondary_queue e1)" using q(2) sent(4) by simp
        from "1.IH" [OF Some st [symmetric] refl c this loop] obtain k where k:
          "k \<le> q_count (secondary_queue e1)" "primary_queue e' = primary_queue e1"
          "queue_list (secondary_queue e') = drop k (queue_list (secondary_queue e1))"
          "sends e1 (map packet (take (if rc = 0 then k else Suc k) (queue_list (secondary_queue e1)))) rc e'"
          "force \<and> rc = 0 \<longrightarrow> k = q_count (secondary_queue e1)" by blast
        from sends_Cons [OF sent(3) k(4)] k True sent(4,5) q(1) cnt show ?thesis
          by (intro exI [of _ "Suc k"]) auto
      qed
    qed
  qed
qed

text \<open>The queued packets of the secondary that the primary has not sent already.\<close>

definition not_yet_sent :: "'s recovery_engine \<Rightarrow> packet_record list" where
  "not_yet_sent e = filter (\<lambda>r. \<forall>c. secondary_cutoff e = Some c \<longrightarrow> c < stream_index r)
     (queue_list (secondary_queue e))"

lemma dropWhile_sorted:
  "sorted_wrt (<) (map f xs) \<Longrightarrow> dropWhile (\<lambda>x. \<not> c < f x) xs = filter (\<lambda>x. c < (f x :: 'a :: linorder)) xs"
proof (induction xs)
  case Nil
  then show ?case by simp
next
  case (Cons x xs)
  show ?case
  proof (cases "c < f x")
    case True
    then have "filter (\<lambda>x. c < f x) xs = xs"
      using Cons.prems by (auto simp: filter_id_conv dest: order.strict_trans)
    then show ?thesis using True by simp
  next
    case False
    then show ?thesis using Cons by simp
  qed
qed

lemma discard_secondary_list:
  assumes "q_fine n d (secondary_queue e)"
  shows "queue_list (secondary_queue (discard_secondary_records_already_output_by_primary e)) = not_yet_sent e"
    "queue_ok (secondary_queue (discard_secondary_records_already_output_by_primary e))"
    "sink (discard_secondary_records_already_output_by_primary e) = sink e"
    "primary_queue (discard_secondary_records_already_output_by_primary e) = primary_queue e"
  using discard_contents [of "secondary_queue e"] assms dropWhile_sorted [of stream_index "queue_list (secondary_queue e)"]
  by (auto simp: discard_secondary_records_already_output_by_primary_def not_yet_sent_def q_fine_def
      discard_secondary_records_through_def split: option.splits)

text \<open>
  C5. When the secondary is in use or the primary is silent beyond the outage limit, what
  is sent are queued packets of the secondary, in arrival order and without any that the
  primary has sent already (those up to the last anchor, or up to the position aligned with
  the last packet sent); they leave the queue as they are sent. One packet at most is sent
  unless the drain is forced, which sends all of them; a failing packet stays queued; the
  primary queue is not touched.
\<close>

theorem secondary_takes_over:
  assumes "engine_ok e" and "eng_active_output_stream_id e = 1 \<or> primary_is_silent_beyond_outage e t"
    and "drain_secondary_on_primary_outage e force t = (rc, e')"
  shows "\<exists>k. k \<le> length (not_yet_sent e) \<and> primary_queue e' = primary_queue e \<and>
     queue_list (secondary_queue e') = drop k (not_yet_sent e) \<and>
     sends e (map packet (take (if rc = 0 then k else Suc k) (not_yet_sent e))) rc e' \<and>
     (force \<and> rc = 0 \<longrightarrow> k = length (not_yet_sent e)) \<and> (\<not> force \<longrightarrow> k \<le> 1)"
proof -
  let ?e = "discard_secondary_records_already_output_by_primary e"
  note d = discard_secondary_list [OF engine_okD(2) [OF assms(1)]]
  have "drain_secondary_loop force ?e = (rc, e')"
    using assms(2,3) by (auto simp: drain_secondary_on_primary_outage_def split: if_splits)
  from drain_secondary_loop_stream [OF d(2) this] obtain k where
    "k \<le> q_count (secondary_queue ?e)" "primary_queue e' = primary_queue ?e"
    "queue_list (secondary_queue e') = drop k (not_yet_sent e)"
    "sends ?e (map packet (take (if rc = 0 then k else Suc k) (not_yet_sent e))) rc e'"
    "force \<and> rc = 0 \<longrightarrow> k = q_count (secondary_queue ?e)" "\<not> force \<longrightarrow> k \<le> 1"
    unfolding d(1) by blast
  moreover have "q_count (secondary_queue ?e) = length (not_yet_sent e)"
    using arg_cong [OF d(1), of length] by simp
  moreover note sends_sink_eq [OF calculation(4), of e e']
  ultimately show ?thesis using d(3,4) by auto
qed

lemma content_gap_lists:
  "queue_list (secondary_queue content_gap) = [ex_record 1 1 4 False, ex_record 1 2 5 False]"
  "queue_list (primary_queue content_gap) = [ex_record 0 1 5 False]"
  "hist_list (history content_gap 0) = [ex_record 0 0 3 False, ex_record 0 1 5 False]"
  "hist_list (history content_gap 1) = [ex_record 1 0 3 False, ex_record 1 1 4 False, ex_record 1 2 5 False]"
  by (simp_all add: content_gap_def ex_engine_def ex_queue_def ex_history_def queue_list_def hist_list_def
      ring_list_def upt_conv_Cons)

lemma ex_record_index [simp]: "stream_index (ex_record sid i c b) = i"
  by (simp add: ex_record_def)

lemma content_gap_ok: "engine_ok content_gap"
proof -
  have h: "h_fine (next_stream_index content_gap 0) (history content_gap 0)"
    "h_fine (next_stream_index content_gap 1) (history content_gap 1)"
    unfolding h_fine_def numbered_def content_gap_lists
    by (simp_all add: content_gap_def ex_engine_def ex_history_def hist_ok_def zero_engine_def
        All_less_Suc nth_Cons')
  have q: "q_fine (next_stream_index content_gap 0) (primary_delay_ns (config content_gap)) (primary_queue content_gap)"
    "q_fine (next_stream_index content_gap 1) (primary_delay_ns (config content_gap)) (secondary_queue content_gap)"
    unfolding q_fine_def content_gap_lists
    by (simp_all add: content_gap_queue)
      (simp_all add: content_gap_def ex_engine_def ex_queue_def recovery_engine_default_config_def)
  show ?thesis
    unfolding engine_ok_def al_ok_def using h q
    by (simp add: content_gap_queue)
      (simp add: content_gap_def ex_engine_def recovery_engine_default_config_def zero_engine_def zero_stats_def)
qed

lemma secondary_takes_over_witness:
  "\<exists>e' k. drain_secondary_on_primary_outage content_gap True 1000000000 = (0, e') \<and>
     sends content_gap (map packet (take k (not_yet_sent content_gap))) 0 e' \<and>
     k = length (not_yet_sent content_gap)"
proof -
  have silent: "primary_is_silent_beyond_outage content_gap 1000000000"
    by (simp add: primary_is_silent_beyond_outage_def content_gap_def ex_engine_def
        recovery_engine_default_config_def zero_engine_def)
  obtain rc e' where d: "drain_secondary_on_primary_outage content_gap True 1000000000 = (rc, e')" by fastforce
  have "fst (drain_secondary_on_primary_outage content_gap True 1000000000) = 0" by code_simp
  with d have "rc = 0" by simp
  with secondary_takes_over [OF content_gap_ok disjI2 [OF silent] d] d show ?thesis by auto
qed

section \<open>No change without an outage\<close>

definition no_outage :: "'s recovery_engine \<Rightarrow> bool" where
  "no_outage e \<longleftrightarrow>
     (\<forall>k. \<not> primary_is_silent_beyond_outage e (report_stats_now_ns (clock (world e) k)))"

definition calm :: "'s recovery_engine \<Rightarrow> bool" where
  "calm e \<longleftrightarrow> no_outage e \<and> eng_active_output_stream_id e = 0"

lemma silent_cong:
  "config e' = config e \<Longrightarrow> last_input_arrival_ns e' = last_input_arrival_ns e \<Longrightarrow>
   primary_is_silent_beyond_outage e' t = primary_is_silent_beyond_outage e t"
  by (simp add: primary_is_silent_beyond_outage_def)

lemma calm_cong:
  assumes "calm e" and "config e' = config e" and "last_input_arrival_ns e' = last_input_arrival_ns e"
    and "same_env (world e) (world e')" and "eng_active_output_stream_id e' = eng_active_output_stream_id e"
  shows "calm e'"
  using assms silent_cong [OF assms(2,3)] by (simp add: calm_def no_outage_def same_env_def)

lemma calm_same: "calm e \<Longrightarrow> same_inputs e e' \<Longrightarrow> calm e'"
  by (rule calm_cong) (simp_all add: same_inputs_def)

lemma calm_read: "calm e \<Longrightarrow> read_now_ns e = (t, e') \<Longrightarrow> calm e' \<and> \<not> primary_is_silent_beyond_outage e' t"
proof -
  assume c: "calm e" and rd: "read_now_ns e = (t, e')"
  from calm_same [OF c outputs_same_inputs [OF read_now_frame [OF rd]]] have "calm e'" .
  moreover have "\<not> primary_is_silent_beyond_outage e t"
    using c rd by (auto simp: calm_def no_outage_def read_now_ns_def)
  ultimately show ?thesis using silent_cong [OF outputsD(1,7) [OF read_now_frame [OF rd]]] by simp
qed

lemma calm_outage:
  "calm e \<Longrightarrow> \<not> primary_is_silent_beyond_outage e t \<Longrightarrow> drain_secondary_on_primary_outage e force t = (0, e)"
  by (simp add: drain_secondary_on_primary_outage_def calm_def)

lemma calm_loop:
  "calm e \<Longrightarrow> (case drain_loop force e of Inl (rc, e') \<Rightarrow> calm e' | Inr e' \<Rightarrow> calm e')"
proof (induction force e rule: drain_loop.induct)
  case (1 force e)
  have act: "eng_active_output_stream_id e = 0" using "1.prems" by (simp add: calm_def)
  show ?case
  proof (cases "delay_queue_front (primary_queue e)")
    case None
    then show ?thesis using "1.prems" by (simp add: drain_loop.simps)
  next
    case (Some p)
    obtain t e1 where rd: "read_now_ns e = (t, e1)" by fastforce
    obtain rc e2 where d: "drain_packet e1 p = (rc, e2)" by fastforce
    have c1: "calm e1" using calm_read [OF "1.prems" rd] by blast
    have c2: "calm e2" by (rule calm_same [OF c1 drain_packet_same [OF d]])
    note step = drain_step_primary [OF act rd, of force p]
    show ?thesis
    proof (cases "drain_step force e p")
      case (Next e3)
      then have "e3 = e2" using step d by (simp split: if_splits)
      with "1.IH" [OF Some Next] c2 Some Next show ?thesis by (subst drain_loop.simps) simp
    next
      case (Leave e3)
      then have "e3 = e1" using step d by (simp split: if_splits)
      then show ?thesis using Some Leave c1 by (subst drain_loop.simps) simp
    next
      case (Return c e3)
      then have "e3 = e2" using step d by (simp split: if_splits)
      then show ?thesis using Some Return c2 by (subst drain_loop.simps) simp
    qed
  qed
qed

lemma calm_drain:
  assumes "calm e" and "recovery_engine_drain e force = (rc, e')"
  shows "calm e'"
proof -
  obtain t e1 where rd: "read_now_ns e = (t, e1)" by fastforce
  obtain b e2 where h: "primary_return_holdoff_elapsed e1 t = (b, e2)" by fastforce
  have c1: "calm e1" "\<not> primary_is_silent_beyond_outage e1 t" using calm_read [OF assms(1) rd] by auto
  then have e2: "b" "e2 = e1\<lparr>primary_return_start_ns := 0\<rparr>"
    using h by (auto simp: primary_return_holdoff_elapsed_def calm_def)
  have c2: "calm e2" using c1(1) by (rule calm_cong) (simp_all add: e2)
  have s2: "\<not> primary_is_silent_beyond_outage e2 t"
    using c1(2) silent_cong [of e2 e1 t] by (simp add: e2)
  let ?e3 = "discard_primary_records_already_output_by_secondary e2"
  have c3: "calm ?e3"
    using c2 by (rule calm_cong) (simp_all add: discard_primary_records_already_output_by_secondary_def)
  have s3: "\<not> primary_is_silent_beyond_outage ?e3 t"
    using s2 silent_cong [of ?e3 e2 t]
    by (simp add: discard_primary_records_already_output_by_secondary_def)
  have "set_active_output_stream ?e3 0 = ?e3"
    using c3 by (simp add: calm_def set_active_output_stream_def)
  then have loop: "case drain_loop force (set_active_output_stream ?e3 0) of
      Inl (rc, e') \<Rightarrow> calm e' | Inr e' \<Rightarrow> calm e'" using calm_loop [OF c3] by simp
  have after: "calm e'" if "drain_loop force (set_active_output_stream ?e3 0) = Inr e4"
    and "(if q_count (primary_queue e4) = 0
          then (case read_now_ns e4 of (now_ns, e) \<Rightarrow> drain_secondary_on_primary_outage e force now_ns)
          else (0, e4)) = (rc, e')" for e4
  proof -
    have c4: "calm e4" using loop that(1) by simp
    obtain u e5 where rd5: "read_now_ns e4 = (u, e5)" by fastforce
    have c5: "calm e5" "\<not> primary_is_silent_beyond_outage e5 u" using calm_read [OF c4 rd5] by auto
    show ?thesis
      using that(2) rd5 c4 c5 calm_outage [OF c5, of force] by (auto split: if_splits)
  qed
  show ?thesis
    using assms(2) c2 c3 calm_outage [OF c2 s2] calm_outage [OF c3 s3] loop after e2(1)
    by (simp add: recovery_engine_drain_def rd h Let_def split: if_splits sum.splits)
qed

text \<open>
  C14. The output changes to the secondary only after an outage: if at no reading of the
  clock the primary has been silent for the configured time (or detection is off, or one of
  the inputs has never been seen), a drain that starts on the primary ends on the primary.
\<close>

theorem no_failover_without_outage:
  assumes "eng_active_output_stream_id e = 0"
    and "\<forall>k. \<not> primary_is_silent_beyond_outage e (report_stats_now_ns (clock (world e) k))"
    and "recovery_engine_drain e force = (rc, e')"
  shows "eng_active_output_stream_id e' = 0"
  using calm_drain [OF _ assms(3)] assms(1,2) by (simp add: calm_def no_outage_def)

lemma no_failover_without_outage_witness:
  "\<exists>rc e'. recovery_engine_drain (zero_engine ex_sink zero_stats ex_world) True = (rc, e') \<and>
     eng_active_output_stream_id e' = 0"
proof -
  obtain rc e' where d: "recovery_engine_drain (zero_engine ex_sink zero_stats ex_world) True = (rc, e')"
    by fastforce
  have "eng_active_output_stream_id e' = 0"
    by (rule no_failover_without_outage [OF _ _ d])
      (simp_all add: zero_engine_def primary_is_silent_beyond_outage_def)
  with d show ?thesis by blast
qed

section \<open>The return of the primary\<close>

lemma drain_secondary_step_active:
  assumes "drain_secondary_step force e r = (c, rc, e')" and "eng_active_output_stream_id e = 1"
  shows "eng_active_output_stream_id e' = 1"
proof -
  obtain t e1 where rd: "read_now_ns e = (t, e1)" by fastforce
  obtain d e2 where o: "output_record (set_active_output_stream e1 1) r = (d, e2)" by fastforce
  have "eng_active_output_stream_id e1 = 1" using outputsD(8) [OF read_now_frame [OF rd]] assms(2) by simp
  moreover have "set_active_output_stream e1 1 = e1"
    using calculation by (simp add: set_active_output_stream_def)
  then have "eng_active_output_stream_id e2 = eng_active_output_stream_id e1"
    using outputsD(8) [OF output_record_outputs [OF o]] by simp
  ultimately show ?thesis using assms(1) by (auto simp: drain_secondary_step_def rd o split: if_splits)
qed

lemma drain_secondary_loop_active:
  "drain_secondary_loop force e = (rc, e') \<Longrightarrow> eng_active_output_stream_id e = 1 \<Longrightarrow>
   eng_active_output_stream_id e' = 1"
proof (induction force e rule: drain_secondary_loop.induct)
  case (1 force e)
  show ?case
  proof (cases "delay_queue_front (secondary_queue e)")
    case None
    then show ?thesis using "1.prems" by (simp add: drain_secondary_loop.simps)
  next
    case (Some r)
    obtain c rc1 e1 where st: "drain_secondary_step force e r = (c, rc1, e1)" by (metis prod_cases3)
    have act: "eng_active_output_stream_id e1 = 1"
      by (rule drain_secondary_step_active [OF st "1.prems"(2)])
    show ?thesis
    proof (cases c)
      case True
      then have "drain_secondary_loop force e1 = (rc, e')"
        using "1.prems"(1) Some st by (subst (asm) drain_secondary_loop.simps) simp
      from "1.IH" [OF Some st [symmetric] refl True this act] show ?thesis .
    next
      case False
      then show ?thesis using "1.prems"(1) Some st act
        by (subst (asm) drain_secondary_loop.simps) simp
    qed
  qed
qed


text \<open>A secondary that is in use, while the primary has just come back.\<close>

definition returning :: "bytes list recovery_engine" where
  "returning = (zero_engine ex_sink zero_stats ex_world)\<lparr>
     config := recovery_engine_default_config, eng_active_output_stream_id := 1,
     stats := zero_stats\<lparr>active_output_stream_id := 1\<rparr>,
     history := (\<lambda>_. ex_history [ex_record 0 0 3 False]),
     primary_queue := ex_queue [ex_record 0 0 3 False],
     secondary_queue := ex_queue [ex_record 0 0 3 False],
     next_stream_index := (\<lambda>_. 1), last_input_arrival_ns := (\<lambda>_. 999999999),
     primary_return_start_ns := 999999999\<rparr>"

lemma returning_ok: "engine_ok returning"
proof -
  have l: "queue_list (ex_queue [ex_record 0 0 3 False]) = [ex_record 0 0 3 False]"
    "hist_list (ex_history [ex_record 0 0 3 False]) = [ex_record 0 0 3 False]"
    by (simp_all add: ex_queue_def ex_history_def queue_list_def hist_list_def ring_list_def)
  have "h_fine 1 (ex_history [ex_record 0 0 3 False])"
    unfolding h_fine_def numbered_def l by (simp add: hist_ok_def ex_history_def)
  moreover have "q_fine 1 2500000000 (ex_queue [ex_record 0 0 3 False])"
    unfolding q_fine_def l by (simp add: queue_ok_def ex_queue_def)
  ultimately show ?thesis
    by (simp add: engine_ok_def al_ok_def returning_def zero_engine_def zero_stats_def
        recovery_engine_default_config_def)
qed


end
