(* ===== verification/Datagram_Theorems.thy ===== *)
theory Datagram_Theorems
  imports Datagram Example_Gap
begin

text \<open>
  Datagrams: the loop with word offsets refines a scan of the buffer over natural numbers, so
  it ends and reads inside the received bytes; and what the scan finds.
\<close>

section \<open>The scan of a datagram\<close>

text \<open>What happens at an offset: a packet is taken, or it is refused and the search for four
  sync bytes at packet distance succeeds or not.\<close>

datatype datagram_event = Good nat | Resync | Skip

definition sync_at :: "bytes \<Rightarrow> nat \<Rightarrow> bool" where
  "sync_at b k \<longleftrightarrow> k + 564 < length b \<and> b ! k = 0x47 \<and> b ! (k + 188) = 0x47 \<and>
     b ! (k + 376) = 0x47 \<and> b ! (k + 564) = 0x47"

definition parses_at :: "bytes \<Rightarrow> nat \<Rightarrow> bool" where
  "parses_at b k \<longleftrightarrow> fst (ts_packet_parse (drop k b) zero_info)"

function scan_datagram :: "bytes \<Rightarrow> nat \<Rightarrow> datagram_event list \<times> nat" where
  "scan_datagram b k =
     (if length b < k + 188 then ([], k)
      else if parses_at b k then (case scan_datagram b (k + 188) of (es, m) \<Rightarrow> (Good k # es, m))
      else (case find (sync_at b) [Suc k..<length b] of
              Some j \<Rightarrow> (case scan_datagram b j of (es, m) \<Rightarrow> (Resync # es, m))
            | None \<Rightarrow> (case scan_datagram b (k + 188) of (es, m) \<Rightarrow> (Skip # es, m))))"
  by pat_completeness auto
termination
  by (relation "measure (\<lambda>(b, k). length b - k)") (auto simp: find_Some_iff)

declare scan_datagram.simps [simp del]

fun run_events ::
    "int \<Rightarrow> bytes \<Rightarrow> datagram_event list \<Rightarrow> 's recovery_engine \<Rightarrow> int \<times> 's recovery_engine" where
  "run_events sid b [] e = (0, e)"
| "run_events sid b (Resync # es) e = run_events sid b es (count_malformed sid True e)"
| "run_events sid b (Skip # es) e = run_events sid b es (count_malformed sid False e)"
| "run_events sid b (Good k # es) e =
     (case take_packet sid (drop k b) (snd (ts_packet_parse (drop k b) zero_info)) e of
        (rc, e) \<Rightarrow> if rc \<noteq> 0 then (-1, e) else run_events sid b es e)"

section \<open>The loop refines the scan\<close>

lemma small_offset:
  assumes "length b \<le> INPUT_BUFFER_SIZE" and "k \<le> length b + 1000"
  shows "unat (of_nat k :: u64) = k"
  using assms by (simp add: INPUT_BUFFER_SIZE_def TS_PACKET_SIZE_def unat_of_nat)

lemma small_less:
  assumes "length b \<le> INPUT_BUFFER_SIZE" and "k \<le> length b + 1000"
  shows "(of_nat k :: u64) < of_nat (length b) \<longleftrightarrow> k < length b"
    and "(of_nat k :: u64) \<le> of_nat (length b) \<longleftrightarrow> k \<le> length b"
    and "(of_nat k :: u64) = of_nat (length b) \<longleftrightarrow> k = length b"
  using small_offset [OF assms] small_offset [OF assms(1), of "length b"]
  by (simp_all add: word_less_nat_alt word_le_nat_alt word_unat_eq_iff)

lemma has_sync_run_at:
  assumes "length b \<le> INPUT_BUFFER_SIZE" and "k \<le> length b"
  shows "has_sync_run b (of_nat k) = sync_at b k"
proof -
  have o: "(of_nat k + of_nat (i * TS_PACKET_SIZE) :: u64) = of_nat (k + i * 188)" for i
    by (simp add: TS_PACKET_SIZE_def)
  have "has_sync_run b (of_nat k) \<longleftrightarrow>
      (\<forall>i \<in> {0, 1, 2, 3}. k + i * 188 < length b \<and> b ! (k + i * 188) = 0x47)"
    unfolding has_sync_run_def Let_def o using assms
    by (simp add: small_less small_offset TS_SYNC_BYTE_def del: of_nat_add of_nat_mult)
  then show ?thesis by (auto simp: sync_at_def)
qed

lemma find_resync_scan:
  assumes "length b \<le> INPUT_BUFFER_SIZE" and "k \<le> length b"
  shows "find_resync_from b (of_nat k) = map_option of_nat (find (sync_at b) [k..<length b])"
  using assms(2)
proof (induction k rule: inc_induct)
  case base
  then show ?case by (simp add: find_resync_from.simps)
next
  case (step k)
  then have "find_resync_from b (of_nat k) =
      (if sync_at b k then Some (of_nat k) else find_resync_from b (of_nat (Suc k)))"
    using assms by (subst find_resync_from.simps)
      (simp add: small_less has_sync_run_at add.commute)
  with step show ?case by (simp add: upt_conv_Cons)
qed

lemma datagram_loop_scan:
  assumes "length b \<le> INPUT_BUFFER_SIZE" and "k \<le> length b"
  shows "\<exists>off. datagram_loop sid b (of_nat k) e =
      Some (fst (run_events sid b (fst (scan_datagram b k)) e), off,
            snd (run_events sid b (fst (scan_datagram b k)) e)) \<and>
      (fst (run_events sid b (fst (scan_datagram b k)) e) = 0 \<longrightarrow>
         off = of_nat (snd (scan_datagram b k)))"
  using assms
proof (induction b k arbitrary: e rule: scan_datagram.induct)
  case (1 b k)
  note loop = datagram_loop.simps [of sid b "of_nat k" e]
  have next_k: "(of_nat k + of_nat TS_PACKET_SIZE :: u64) = of_nat (k + 188)"
    by (simp add: TS_PACKET_SIZE_def)
  have fits: "(of_nat (k + 188) :: u64) \<le> of_nat (length b) \<longleftrightarrow> k + 188 \<le> length b"
    using 1(4,5) by (intro small_less) auto
  have at: "drop (unat (of_nat k :: u64)) b = drop k b"
    using small_offset [OF 1(4), of k] 1(5) by simp
  show ?case
  proof (cases "length b < k + 188")
    case True
    then show ?thesis
      unfolding loop next_k fits by (simp add: scan_datagram.simps [of b k])
  next
    case inside: False
    show ?thesis
    proof (cases "parses_at b k")
      case True
      obtain rc e' where t: "take_packet sid (drop k b)
          (snd (ts_packet_parse (drop k b) zero_info)) e = (rc, e')" by fastforce
      from inside True 1(1) [of e'] 1(4) t show ?thesis
        unfolding loop next_k fits at
        by (auto simp: parses_at_def scan_datagram.simps [of b k] split: prod.splits)
    next
      case False
      have find: "find_resync_offset b (of_nat k) =
          map_option of_nat (find (sync_at b) [Suc k..<length b])"
        using find_resync_scan [OF 1(4), of "Suc k"] inside
        by (simp add: find_resync_offset_def add.commute)
      show ?thesis
      proof (cases "find (sync_at b) [Suc k..<length b]")
        case None
        with inside False find 1(2) [of "count_malformed sid False e"] 1(4) show ?thesis
          unfolding loop next_k fits at
          by (auto simp: parses_at_def scan_datagram.simps [of b k] split: prod.splits)
      next
        case (Some j)
        then have "j \<le> length b" by (auto simp: find_Some_iff)
        with Some inside False find 1(3) [of j "count_malformed sid True e"] 1(4) show ?thesis
          unfolding loop next_k fits at
          by (auto simp: parses_at_def scan_datagram.simps [of b k] split: prod.splits)
      qed
    qed
  qed
qed

text \<open>The scan stays inside the buffer; packets do not overlap and start with the sync byte.\<close>

definition good_offsets :: "datagram_event list \<Rightarrow> nat list" where
  "good_offsets es = concat (map (\<lambda>x. case x of Good k \<Rightarrow> [k] | _ \<Rightarrow> []) es)"

lemma good_offsets_simps [simp]:
  "good_offsets [] = []" "good_offsets (Good k # es) = k # good_offsets es"
  "good_offsets (Resync # es) = good_offsets es" "good_offsets (Skip # es) = good_offsets es"
  by (simp_all add: good_offsets_def)

lemma scan_datagram_layout:
  assumes "scan_datagram b k = (es, m)" and "k \<le> length b"
  shows "m \<le> length b \<and> length b < m + 188 \<and> sorted_wrt (\<lambda>i j. i + 188 \<le> j) (good_offsets es) \<and>
     (\<forall>i \<in> set (good_offsets es). k \<le> i \<and> i + 188 \<le> length b \<and> parses_at b i)"
  using assms
proof (induction b k arbitrary: es m rule: scan_datagram.induct)
  case (1 b k)
  show ?case
  proof (cases "length b < k + 188")
    case True
    with 1(4,5) show ?thesis by (simp add: scan_datagram.simps [of b k])
  next
    case inside: False
    show ?thesis
    proof (cases "parses_at b k")
      case True
      obtain es' m' where r: "scan_datagram b (k + 188) = (es', m')" by fastforce
      from 1(1) [OF inside True r] inside have h: "m' \<le> length b \<and> length b < m' + 188 \<and>
          sorted_wrt (\<lambda>i j. i + 188 \<le> j) (good_offsets es') \<and>
          (\<forall>i \<in> set (good_offsets es'). k + 188 \<le> i \<and> i + 188 \<le> length b \<and> parses_at b i)" by simp
      from 1(4) inside True r have "es = Good k # es'" "m = m'"
        by (simp_all add: scan_datagram.simps [of b k])
      with h inside True show ?thesis by auto
    next
      case False
      show ?thesis
      proof (cases "find (sync_at b) [Suc k..<length b]")
        case None
        obtain es' m' where r: "scan_datagram b (k + 188) = (es', m')" by fastforce
        from 1(4) inside False None r have "es = Skip # es'" "m = m'"
          by (simp_all add: scan_datagram.simps [of b k])
        with 1(2) [OF inside False None r] inside show ?thesis by fastforce
      next
        case (Some j)
        then have j: "k < j" "j \<le> length b" by (auto simp: find_Some_iff)
        obtain es' m' where r: "scan_datagram b j = (es', m')" by fastforce
        from 1(4) inside False Some r have "es = Resync # es'" "m = m'"
          by (simp_all add: scan_datagram.simps [of b k])
        with 1(3) [OF inside False Some r] j show ?thesis by fastforce
      qed
    qed
  qed
qed

lemma parses_at_sync: "parses_at b k \<Longrightarrow> k < length b \<Longrightarrow> b ! k = 0x47"
  by (auto simp: parses_at_def ts_packet_parse_def ts_packet_has_sync_def TS_SYNC_BYTE_def
      split: if_splits)

section \<open>Properties\<close>

text \<open>The result of a datagram whose scan gives the events \<open>es\<close> and the final offset \<open>m\<close>.\<close>

definition datagram_result ::
    "int \<Rightarrow> bytes \<Rightarrow> datagram_event list \<times> nat \<Rightarrow> 's recovery_engine \<Rightarrow> int \<times> 's recovery_engine" where
  "datagram_result sid b scan e =
     (case run_events sid b (fst scan) (observe_datagram sid b e) of (rc, e') \<Rightarrow>
        if rc \<noteq> 0 then (-1, e')
        else (0, if snd scan \<noteq> length b then count_partial sid e' else e'))"

lemma process_datagram_scan:
  assumes "length b \<le> INPUT_BUFFER_SIZE"
  shows "process_datagram e sid b = Some (datagram_result sid b (scan_datagram b 0) e)"
proof -
  obtain es m where sc: "scan_datagram b 0 = (es, m)" by fastforce
  obtain rc e' where r: "run_events sid b es (observe_datagram sid b e) = (rc, e')" by fastforce
  obtain off where d: "datagram_loop sid b (of_nat 0) (observe_datagram sid b e) = Some (rc, off, e')"
      and off: "rc = 0 \<longrightarrow> off = of_nat m"
    using datagram_loop_scan [OF assms, of 0 sid "observe_datagram sid b e"] sc r by auto
  have "m \<le> length b" using scan_datagram_layout [OF sc] by simp
  then have "(of_nat m :: u64) = of_nat (length b) \<longleftrightarrow> m = length b"
    using small_less(3) [OF assms] by simp
  with d off show ?thesis
    by (simp add: process_datagram_def datagram_result_def sc r)
qed

text \<open>
  C29. Processing a datagram always ends, although the loop jumps about with wrapping 64-bit
  offsets: for every datagram that fits the receive buffer of 64 packets it does what a scan of
  the buffer over natural numbers prescribes. The scan takes a packet where one parses;
  elsewhere it goes on at the first later place with four sync bytes at packet distance or,
  failing that, 188 bytes further on.
\<close>

theorem process_datagram_refines:
  assumes "length b \<le> INPUT_BUFFER_SIZE"
  shows "process_datagram e sid b = Some (datagram_result sid b (scan_datagram b 0) e)"
  by (rule process_datagram_scan [OF assms])

text \<open>
  C30. Packets are cut out of the received bytes only, and never overlap: whatever the datagram
  contains, the packets given to the engine are 188 bytes long, lie inside the datagram, start
  with the sync byte and are at least 188 bytes apart, in order; fewer than 188 bytes remain at
  the end.
\<close>

theorem datagram_packets_disjoint:
  assumes "length b \<le> INPUT_BUFFER_SIZE"
  shows "\<exists>es m. process_datagram e sid b = Some (datagram_result sid b (es, m) e) \<and>
     sorted_wrt (\<lambda>i j. i + 188 \<le> j) (good_offsets es) \<and>
     (\<forall>i \<in> set (good_offsets es). i + 188 \<le> length b \<and> b ! i = 0x47) \<and>
     m \<le> length b \<and> length b < m + 188"
proof -
  obtain es m where sc: "scan_datagram b 0 = (es, m)" by fastforce
  show ?thesis
    using process_datagram_scan [OF assms, of e sid] scan_datagram_layout [OF sc] parses_at_sync [of b]
    by (auto simp: sc intro!: exI [of _ es] exI [of _ m])
qed

lemma scan_clean:
  assumes "\<forall>i < n. parses_at b (k + i * 188)" and "k + n * 188 \<le> length b"
    and "length b < k + n * 188 + 188"
  shows "scan_datagram b k = (map (\<lambda>i. Good (k + i * 188)) [0..<n], k + n * 188)"
  using assms
proof (induction n arbitrary: k)
  case 0
  then show ?case by (simp add: scan_datagram.simps [of b k])
next
  case (Suc n)
  have "\<forall>i < n. parses_at b (k + 188 + i * 188)"
    using Suc.prems(1) by (auto simp: add.assoc dest: spec [of _ "Suc _"])
  with Suc have "scan_datagram b (k + 188) =
      (map (\<lambda>i. Good (k + 188 + i * 188)) [0..<n], k + 188 + n * 188)" by simp
  moreover have "parses_at b k" using Suc.prems(1) by force
  moreover have "map (\<lambda>i. Good (k + 188 + i * 188)) [0..<n] = map (\<lambda>i. Good (k + i * 188)) [1..<Suc n]"
    by (rule nth_equalityI) (simp_all add: add.assoc del: upt_Suc)
  ultimately show ?case using Suc.prems(2)
    by (simp add: scan_datagram.simps [of b k] upt_conv_Cons del: upt_Suc)
qed


text \<open>
  A datagram too short for a packet counts as one datagram and one sync error, but as two
  partial datagrams: \<open>report_stats_observe_datagram\<close> and the end of \<open>process_datagram\<close> both
  count it.
\<close>

lemma runt_datagram_counted_twice:
  assumes "0 < length b" and "length b < 188" and "sid = 0 \<or> sid = 1"
  shows "\<exists>e'. process_datagram e sid b = Some (0, e') \<and>
     input_datagrams (stats e') sid = input_datagrams (stats e) sid + 1 \<and>
     sync_errors (stats e') sid = sync_errors (stats e) sid + 1 \<and>
     partial_datagrams (stats e') sid = partial_datagrams (stats e) sid + 2 \<and>
     packets_received (stats e') sid = packets_received (stats e) sid"
proof -
  have "scan_datagram b 0 = ([], 0)" using assms(2) by (simp add: scan_datagram.simps)
  then have "process_datagram e sid b = Some (0, count_partial sid (observe_datagram sid b e))"
    using process_datagram_scan [of b e sid] assms
    by (simp add: datagram_result_def INPUT_BUFFER_SIZE_def TS_PACKET_SIZE_def)
  then show ?thesis using assms
    by (auto simp: count_partial_def observe_datagram_def report_stats_observe_datagram_def
        TS_PACKET_SIZE_def bad_stream_def REPORT_STATS_STREAMS_def Let_def)
qed

section \<open>Instances\<close>

text \<open>A datagram of one packet and three stray bytes.\<close>

definition ex_datagram :: bytes where
  "ex_datagram = [0x47, 0x01, 0x00, 0x15] @ replicate 184 0 @ [1, 2, 3]"

lemma ex_datagram_size: "length ex_datagram = 191"
  by (simp add: ex_datagram_def)

lemma ex_datagram_parses: "parses_at ex_datagram 0"
  by code_simp

lemma process_datagram_refines_witness:
  "process_datagram plain 0 ex_datagram =
     Some (datagram_result 0 ex_datagram (scan_datagram ex_datagram 0) plain)"
  by (rule process_datagram_refines) (simp add: ex_datagram_size INPUT_BUFFER_SIZE_def TS_PACKET_SIZE_def)

lemma datagram_packets_disjoint_witness:
  "\<exists>es m. process_datagram plain 0 ex_datagram = Some (datagram_result 0 ex_datagram (es, m) plain) \<and>
     (\<forall>i \<in> set (good_offsets es). i + 188 \<le> 191)"
  using datagram_packets_disjoint [of ex_datagram plain 0]
  by (auto simp: ex_datagram_size INPUT_BUFFER_SIZE_def TS_PACKET_SIZE_def)


lemma runt_datagram_counted_twice_witness:
  "\<exists>e'. process_datagram plain 1 [0x47, 0x01] = Some (0, e') \<and> partial_datagrams (stats e') 1 = 2"
  using runt_datagram_counted_twice [of "[0x47, 0x01]" 1 plain]
  by (auto simp: plain_def ex_engine_def zero_engine_def zero_stats_def)

end
