(* ===== verification/Origin.thy ===== *)
theory Origin
  imports Failover_Theorems Output_Udp Datagram_Theorems
begin

text \<open>
  Where the packets of the output come from. \<open>sourced S k e\<close>: the engine writes to the UDP output,
  and every packet in its histories, in its queues and in the output is one of \<open>S\<close>, and \<open>k\<close> is the
  socket of the output with its destination. All
  operations of the engine keep this, when \<open>S\<close> has the packets that are pushed.
\<close>

definition queue_within :: "bytes set \<Rightarrow> delay_queue \<Rightarrow> bool" where
  "queue_within S q \<longleftrightarrow> queue_ok q \<and> packet ` set (queue_list q) \<subseteq> S"

definition hist_within :: "bytes set \<Rightarrow> packet_history \<Rightarrow> bool" where
  "hist_within S h \<longleftrightarrow> hist_ok h \<and> packet ` set (hist_list h) \<subseteq> S"

text \<open>The socket and the destination of the output, which sending does not change.\<close>

definition socket_of :: "output_udp \<Rightarrow> int \<times> (u32 \<times> u16) option" where
  "socket_of out = (out_fd out, out_addr out)"

lemma socket_of_flush [simp]: "socket_of (snd (output_udp_flush out)) = socket_of out"
  by (simp add: socket_of_def output_udp_flush_def sendto_def Let_def)

lemma socket_of_send [simp]: "socket_of (snd (output_udp_send_ts_packet out p)) = socket_of out"
  using socket_of_flush [of "out\<lparr>pending := x, pending_packets := n\<rparr>" for x n]
  by (simp add: socket_of_def output_udp_send_ts_packet_def Let_def)

lemma socket_of_send_list:
  "send_list output_udp_send_ts_packet out ps = (r, out') \<Longrightarrow> socket_of out' = socket_of out"
proof (induction ps arbitrary: out)
  case (Cons p ps)
  obtain c t where t: "output_udp_send_ts_packet out p = (c, t)" by fastforce
  then have "socket_of t = socket_of out" using socket_of_send [of out p] by simp
  with Cons t show ?case by (auto split: if_splits)
qed simp

definition sink_within :: "bytes set \<Rightarrow> int \<times> (u32 \<times> u16) option \<Rightarrow> output_udp packet_sink \<Rightarrow> bool" where
  "sink_within S k snk \<longleftrightarrow> send_fn snk = output_udp_send_ts_packet \<and> flush_fn snk = Some output_udp_flush \<and>
     out_sane (sink_ctx snk) \<and> set (out_accepted (sink_ctx snk)) \<subseteq> S \<and>
     socket_of (sink_ctx snk) = k"

definition whole_packets :: "bytes set \<Rightarrow> bool" where
  "whole_packets S \<longleftrightarrow> (\<forall>p \<in> S. length p = TS_PACKET_SIZE)"

definition sourced :: "bytes set \<Rightarrow> int \<times> (u32 \<times> u16) option \<Rightarrow> output_udp recovery_engine \<Rightarrow> bool" where
  "sourced S k e \<longleftrightarrow> whole_packets S \<and> sink_within S k (sink e) \<and>
     hist_within S (history e 0) \<and> hist_within S (history e 1) \<and>
     queue_within S (primary_queue e) \<and> queue_within S (secondary_queue e)"

section \<open>Sending\<close>

lemma sink_within_sends:
  assumes "whole_packets S" and "sink_within S k (sink e)" and "set ps \<subseteq> S" and "sends e ps rc e'"
  shows "sink_within S k (sink e')"
proof -
  have "send_list output_udp_send_ts_packet (sink_ctx (sink e)) ps = (rc, sink_ctx (sink e'))"
    using assms(2,4) by (simp add: sink_within_def sends_def)
  from udp_faithful.send_list_within [OF _ _ this] socket_of_send_list [OF this] assms show ?thesis
    by (auto simp: sink_within_def sends_def whole_packets_def)
qed

lemma queue_within_pop: "queue_within S q \<Longrightarrow> queue_within S (delay_queue_pop q)"
  by (cases "queue_list q")
    (auto simp: queue_within_def dq.pop_contents dq.pop_ok simp del: queue_list_empty_iff)

lemma queue_within_discard: "queue_within S q \<Longrightarrow> queue_within S (discard_while_queue P q)"
  using discard_contents [of q P] by (auto simp: queue_within_def dest: set_dropWhileD)

lemma queue_within_front:
  "queue_within S q \<Longrightarrow> delay_queue_front q = Some r \<Longrightarrow> packet r \<in> S"
  using dq.front_contents [of q] by (auto simp: queue_within_def split: list.splits)

text \<open>Handling a primary packet sends it and packets of the secondary history only.\<close>

lemma drain_packet_sent:
  assumes "drain_packet e p = (rc, e')"
  shows "\<exists>ps rc'. set ps \<subseteq> insert (packet p) (packet ` set (hist_list (history e 1))) \<and> sends e ps rc' e'"
  using assms
proof (cases rule: drain_packet_cases)
  case (failed e1)
  from tei_result [OF failed(1)] obtain c :: packet_record where c: "c \<in> set (hist_list (history e 1))"
    "sends (note_candidates e (find_secondary_boundary_matches e p)) [packet c] (-1) e1" by auto
  from sends_sink_eq [OF c(2), of e e1] failed(4) c(1) show ?thesis
    by (intro exI [of _ "[packet c]"] exI [of _ "-1"]) simp
next
  case (replaced e1)
  from tei_result [OF replaced(1)] obtain c :: packet_record where c: "c \<in> set (hist_list (history e 1))"
    "sends (note_candidates e (find_secondary_boundary_matches e p)) [packet c] 0 e1" by auto
  from sends_sink_eq [OF c(2), of e e'] replaced(4) c(1) show ?thesis
    by (intro exI [of _ "[packet c]"] exI [of _ 0]) simp
next
  case (rest e1 a)
  from primary_rest_sends [OF rest(3)] obtain rs where rs: "supplied e1 rs"
    "sends e1 (map packet rs @ [packet p]) rc e' \<or> sends e1 (map packet rs) rc e'" by blast
  have sub: "set (map packet rs) \<subseteq> packet ` set (hist_list (history e 1))"
    using rs(1) outputs_same_inputs [OF rest(1)] by (auto simp: supplied_def same_inputs_def)
  have "sends e (map packet rs @ [packet p]) rc e' \<or> sends e (map packet rs) rc e'"
    using rs(2) sends_sink_eq [of e1 _ rc e' e e'] rest(2) by auto
  then show ?thesis
  proof
    assume "sends e (map packet rs @ [packet p]) rc e'"
    with sub show ?thesis by (intro exI [of _ "map packet rs @ [packet p]"] exI [of _ rc]) auto
  next
    assume "sends e (map packet rs) rc e'"
    with sub show ?thesis by (intro exI [of _ "map packet rs"] exI [of _ rc]) auto
  qed
qed

lemma sourced_outputs:
  assumes "sourced S k e" and "outputs e e'" and "sends e ps rc e'" and "set ps \<subseteq> S"
  shows "sourced S k e'"
  using assms sink_within_sends [of S k e ps rc e'] by (simp add: sourced_def outputsD)

interpretation sourced: drain_preserves "sourced S k" for S k
proof
  fix e e' :: "output_udp recovery_engine" and t x :: u64 and i rc :: int and P r p
  assume ok: "sourced S k e"
  show "sourced S k e'" if rd: "read_now_ns e = (t, e')"
    by (rule sourced_outputs [OF ok read_now_frame [OF rd] sends_nilI [OF read_now_sink [OF rd]]]) simp
  show "sourced S k (e\<lparr>primary_return_start_ns := x\<rparr>)" and "sourced S k (set_active_output_stream e i)"
    using ok by (simp_all add: sourced_def)
  show "sourced S k (e\<lparr>primary_queue := discard_while_queue P (primary_queue e)\<rparr>)"
    and "sourced S k (e\<lparr>secondary_queue := discard_while_queue P (secondary_queue e)\<rparr>)"
    and "sourced S k (e\<lparr>secondary_queue := delay_queue_pop (secondary_queue e)\<rparr>)"
    using ok by (simp_all add: sourced_def queue_within_discard queue_within_pop)
  show "sourced S k e'" if "delay_queue_front (secondary_queue e) = Some r" and o: "output_record e r = (rc, e')"
    using queue_within_front [OF _ that(1)] ok
    by (intro sourced_outputs [OF ok output_record_outputs [OF o] output_record_sends [OF o]])
      (simp add: sourced_def)
  show "sourced S k e'" if fr: "delay_queue_front (primary_queue e) = Some p" and d: "drain_packet e p = (rc, e')"
  proof -
    obtain ps rc' where ps: "set ps \<subseteq> insert (packet p) (packet ` set (hist_list (history e 1)))"
      and s: "sends e ps rc' e'" using drain_packet_sent [OF d] by blast
    have "insert (packet p) (packet ` set (hist_list (history e 1))) \<subseteq> S"
      using queue_within_front [OF _ fr, of S] ok by (simp add: sourced_def hist_within_def)
    with ps have "set ps \<subseteq> S" by (rule subset_trans)
    moreover have "queue_within S (primary_queue e')"
      using drain_packet_queue [OF d] ok queue_within_pop by (auto simp: sourced_def)
    ultimately show ?thesis
      using ok drain_packet_same [OF d] sink_within_sends [OF _ _ _ s, of S k]
      by (simp add: sourced_def same_inputs_def)
  qed
qed

section \<open>Arriving packets\<close>

lemma sourced_mono: "sourced S k e \<Longrightarrow> S \<subseteq> T \<Longrightarrow> whole_packets T \<Longrightarrow> sourced T k e"
  by (auto simp: sourced_def sink_within_def hist_within_def queue_within_def)

lemma sourced_stats [simp]: "sourced S k (e\<lparr>stats := st\<rparr>) = sourced S k e"
  by (simp add: sourced_def)

lemma hist_within_store:
  assumes "hist_within S (history e sid)" and "packet r \<in> S"
  shows "hist_within S (history (store_record e sid r) sid)"
proof -
  have ok: "hist_ok (history e sid)" using assms(1) by (simp add: hist_within_def)
  have "packet ` set (hist_list (hist_push_record (history e sid) r)) \<subseteq> S"
    using assms by (cases "hist_list (history e sid)") (auto simp: hist_list_push [OF ok] hist_within_def)
  then have "hist_within S (hist_push_record (history e sid) r)"
    using hist_ok_push [OF ok] by (simp add: hist_within_def)
  moreover have "hist_within S (packet_history_prune_older_than h c)" if "hist_within S h" for h c
    using that hist_list_prune [of h c] by (auto simp: hist_within_def dest: set_dropWhileD)
  ultimately show ?thesis by (auto simp: store_record_push Let_def)
qed

lemma queue_within_push:
  assumes "queue_within S q" and "packet r \<in> S"
  shows "queue_within S (snd (delay_queue_push (if fst (delay_queue_push q r) \<noteq> 0
           then delay_queue_pop q else q) r))"
proof -
  have ok: "queue_ok q" using assms(1) by (simp add: queue_within_def)
  have "queue_ok (if fst (delay_queue_push q r) \<noteq> 0 then delay_queue_pop q else q)"
    using ok dq.pop_ok [OF ok] by simp
  from dq.push_ok [OF this] dq.push_evicting [OF ok, of r] assms show ?thesis
    by (cases "queue_list q") (auto simp: queue_within_def simp del: queue_list_empty_iff split: if_splits)
qed

lemma sourced_accept:
  assumes "sourced S k e" and "sid = 0 \<or> sid = 1" and "take TS_PACKET_SIZE pkt \<in> S"
    and "accept_packet e sid pkt info = (rc, e')"
  shows "sourced S k e'"
proof -
  obtain r e1 e2 where rec: "record_of e sid pkt info = (r, e1)"
    and learn: "learns (store_record e1 sid r) e2" and enq: "enqueue_record e2 sid r = (rc, e')"
    using assms(4) by (rule accept_packet_steps)
  note f = record_of_frame [OF rec]
  have r: "packet r \<in> S" using f(3) assms(3) by simp
  have same: "history e1 = history e" "primary_queue e1 = primary_queue e"
    "secondary_queue e1 = secondary_queue e" "sink e1 = sink e" by (subst f(5), simp)+
  have "sourced S k e1" using assms(1) same by (simp add: sourced_def)
  moreover have "history (store_record e1 sid r) i = history e1 i" if "i \<noteq> sid" for i
    using that by (simp add: store_record_push)
  moreover have "hist_within S (history (store_record e1 sid r) sid)"
    using \<open>sourced S k e1\<close> assms(2) by (intro hist_within_store [OF _ r]) (auto simp: sourced_def)
  ultimately have "sourced S k e2" using learn assms(2)
    by (auto simp: sourced_def learns_def store_record_push)
  then have q: "queue_within S (primary_queue e2)" "queue_within S (secondary_queue e2)"
    and others: "sourced S k (e2\<lparr>primary_queue := q1, stats := st\<rparr>) = queue_within S q1"
      "sourced S k (e2\<lparr>secondary_queue := q1\<rparr>) = queue_within S q1" for q1 st
    by (simp_all add: sourced_def)
  from assms(2) show ?thesis
  proof
    assume "sid = 0"
    then have "\<exists>st. e' = e2\<lparr>primary_queue := snd (delay_queue_push (if fst (delay_queue_push (primary_queue e2) r) \<noteq> 0
        then delay_queue_pop (primary_queue e2) else primary_queue e2) r), stats := st\<rparr>"
      using enq enqueue_primary [of e2 r] by (cases e2) (auto simp: Let_def split: if_splits)
    then show ?thesis using others(1) queue_within_push [OF q(1) r] by auto
  next
    assume "sid = 1"
    then have "e' = e2\<lparr>secondary_queue := snd (delay_queue_push (if fst (delay_queue_push (secondary_queue e2) r) \<noteq> 0
        then delay_queue_pop (secondary_queue e2) else secondary_queue e2) r)\<rparr>"
      using enq enqueue_secondary [of e2 r] by (simp add: Let_def)
    then show ?thesis using others(2) queue_within_push [OF q(2) r] by simp
  qed
qed

lemma sourced_push:
  assumes "sourced S k e" and "take TS_PACKET_SIZE pkt \<in> S"
    and "recovery_engine_push_packet e sid pkt info = (rc, e')"
  shows "sourced S k e'"
proof (cases "sid = 0 \<or> sid = 1")
  case False
  then show ?thesis using assms by (auto simp: recovery_engine_push_packet_def split: if_splits)
next
  case True
  obtain c e1 where acc: "accept_packet e sid pkt info = (c, e1)" by fastforce
  have "sourced S k e1" by (rule sourced_accept [OF assms(1) True assms(2) acc])
  then show ?thesis using assms(3) True sourced.drain
    by (auto simp: recovery_engine_push_packet_def acc split: if_splits)
qed

lemma sourced_flush:
  assumes "sourced S k e" and "recovery_engine_flush e = (rc, e')"
  shows "sourced S k e'"
proof -
  obtain c e1 where d: "recovery_engine_drain e True = (c, e1)" by fastforce
  have ok: "sourced S k e1" by (rule sourced.drain [OF assms(1) d])
  obtain c2 ctx where f: "output_udp_flush (sink_ctx (sink e1)) = (c2, ctx)" by fastforce
  have "out_sane ctx \<and> set (out_accepted ctx) \<subseteq> set (out_accepted (sink_ctx (sink e1)))"
    using udp_faithful.flush_sane [OF _ f] udp_faithful.flush_within [OF _ f] ok
    by (simp add: sourced_def sink_within_def)
  moreover have "socket_of ctx = socket_of (sink_ctx (sink e1))"
    using socket_of_flush [of "sink_ctx (sink e1)"] f by simp
  ultimately show ?thesis using ok assms(2) d f
    by (auto simp: recovery_engine_flush_def packet_sink_flush_def sourced_def sink_within_def split: if_splits)
qed

lemma sourced_init:
  assumes "recovery_engine_init_with_config alloc (output_udp_as_packet_sink (output_udp_opened fd a results))
      (report_stats_init now) w cfg = (0, e)" and "whole_packets S"
  shows "sourced S (fd, a) e"
proof -
  have "out_accepted (output_udp_opened fd a results) = []"
    by (simp add: out_accepted_def out_bytes_def output_udp_opened_def chop.simps)
  then have "sink_within S (fd, a) (output_udp_as_packet_sink (output_udp_opened fd a results))"
    by (simp add: sink_within_def output_udp_as_packet_sink_def output_udp_opened_sane
        socket_of_def output_udp_opened_def) (simp add: output_udp_opened_sane [unfolded output_udp_opened_def])
  moreover have "engine_ok e"
    by (rule engine_ok_init [OF assms(1)]) (simp_all add: report_stats_init_def zero_stats_def)
  ultimately show ?thesis using init_engine [OF assms(1)] assms(2)
    by (auto simp: sourced_def hist_within_def queue_within_def engine_ok_def h_fine_def q_fine_def
        simp flip: queue_list_empty_iff)
qed

section \<open>A datagram\<close>

text \<open>The packets that can be cut out of a datagram.\<close>

definition packets_of :: "bytes \<Rightarrow> bytes set" where
  "packets_of b = {take TS_PACKET_SIZE (drop k b) | k. k + TS_PACKET_SIZE \<le> length b}"

lemma whole_packets_of: "whole_packets (packets_of b)"
  by (auto simp: whole_packets_def packets_of_def)

lemma sourced_events:
  assumes "sourced S out e" and "\<forall>k \<in> set (good_offsets es). take TS_PACKET_SIZE (drop k b) \<in> S"
    and "run_events sid b es e = (rc, e')"
  shows "sourced S out e'"
  using assms
proof (induction sid b es e arbitrary: rc e' rule: run_events.induct)
  case (1 sid b e)
  then show ?case by simp
next
  case (2 sid b es e)
  then show ?case by (simp add: count_malformed_def)
next
  case (3 sid b es e)
  then show ?case by (simp add: count_malformed_def)
next
  case (4 sid b k es e)
  let ?info = "snd (ts_packet_parse (drop k b) zero_info)"
  obtain t e0 where rd: "read_now_ns e = (t, e0)" by fastforce
  let ?e = "e0\<lparr>stats := report_stats_observe_packet (stats e0) sid ?info t\<rparr>"
  obtain c e1 where push: "recovery_engine_push_packet ?e sid (drop k b) ?info = (c, e1)" by fastforce
  have "sourced S out ?e" using sourced.read [OF "4.prems"(1) rd] by simp
  from sourced_push [OF this _ push] "4.prems"(2) have ok: "sourced S out e1" by simp
  have t: "take_packet sid (drop k b) ?info e = (c, e1)"
    by (simp add: take_packet_def rd push)
  show ?case
  proof (cases "c = 0")
    case True
    then show ?thesis using "4.IH" [OF t [symmetric] _ ok] "4.prems"(2,3) t by simp
  next
    case False
    then show ?thesis using "4.prems"(3) t ok by simp
  qed
qed

lemma sourced_datagram:
  assumes "sourced S k e" and "length b \<le> INPUT_BUFFER_SIZE" and "packets_of b \<subseteq> S"
    and "process_datagram e sid b = Some (rc, e')"
  shows "sourced S k e'"
proof -
  obtain es m where sc: "scan_datagram b 0 = (es, m)" by fastforce
  obtain c e1 where r: "run_events sid b es (observe_datagram sid b e) = (c, e1)" by fastforce
  have "\<forall>k \<in> set (good_offsets es). take TS_PACKET_SIZE (drop k b) \<in> S"
    using scan_datagram_layout [OF sc] assms(3) by (auto simp: packets_of_def TS_PACKET_SIZE_def)
  from sourced_events [OF _ this r] assms(1) have "sourced S k e1" by (simp add: observe_datagram_def)
  then show ?thesis
    using process_datagram_scan [OF assms(2), of e sid] assms(4) sc r
    by (auto simp: datagram_result_def count_partial_def split: if_splits)
qed

end
