(* ===== verification/Web_Theorems.thy ===== *)
theory Web_Theorems
  imports Web_Server
begin

text \<open>
  The web interface: sending ends and is complete when it reports success, the files that can be
  reached, and the descriptors.
\<close>

section \<open>Sending\<close>

lemma send_call_cases:
  assumes "send_call c b = (r, c')"
  shows "send_calls c' = Suc (send_calls c) \<and> send_reply c' = send_reply c \<and>
     (case r of Sent n \<Rightarrow> n \<le> length b \<and> sent_bytes c' = sent_bytes c @ take n b
      | _ \<Rightarrow> sent_bytes c' = sent_bytes c) \<and>
     (r = Interrupted \<longleftrightarrow> send_reply c (send_calls c) = Interrupted)"
  using assms by (auto simp: send_call_def min_def split: send_result.splits)

lemma send_all_result:
  assumes "send_all c b = Some (ok, c')"
  shows "\<exists>n \<le> length b. sent_bytes c' = sent_bytes c @ take n b \<and> (ok \<longleftrightarrow> n = length b)"
proof -
  define r where "r = (ok, c')"
  have "send_all c b = Some r" using assms by (simp add: r_def)
  then have "\<exists>n \<le> length b. sent_bytes (snd r) = sent_bytes c @ take n b \<and> (fst r \<longleftrightarrow> n = length b)"
  proof (induction rule: send_all.raw_induct [rotated, consumes 1, case_names 1])
    case (1 send_all c b r)
    show ?case
    proof (cases "b = []")
      case True
      with 1(2) show ?thesis by auto
    next
      case False
      obtain x c1 where s: "send_call c b = (x, c1)" by fastforce
      note f = send_call_cases [OF s]
      show ?thesis
      proof (cases x)
        case (Sent n)
        show ?thesis
        proof (cases "n = 0")
          case True
          with 1(2) False s Sent f show ?thesis by (intro exI [of _ 0]) auto
        next
          case pos: False
          with 1(2) False s Sent have "send_all c1 (drop n b) = Some r" by auto
          from 1(1) [OF this] obtain k where k: "k \<le> length b - n"
            "sent_bytes (snd r) = sent_bytes c1 @ take k (drop n b)" "fst r \<longleftrightarrow> k = length b - n" by auto
          with f Sent show ?thesis
            by (intro exI [of _ "n + k"]) (auto simp: take_add)
        qed
      next
        case Interrupted
        with 1(2) False s have "send_all c1 b = Some r" by auto
        from 1(1) [OF this] f Interrupted show ?thesis by simp
      next
        case Send_Failed
        with 1(2) False s f show ?thesis by (intro exI [of _ 0]) auto
      qed
    qed
  qed
  then show ?thesis by (simp add: r_def)
qed

lemma send_all_returns:
  assumes "\<forall>j \<ge> k. send_reply c j \<noteq> Interrupted"
  shows "\<exists>r. send_all c b = Some r"
  using assms
proof (induction "length b + (k - send_calls c)" arbitrary: b c rule: less_induct)
  case less
  show ?case
  proof (cases "b = []")
    case True
    then show ?thesis by (auto simp: send_all.simps [of c "[]"])
  next
    case False
    obtain x c1 where s: "send_call c b = (x, c1)" by fastforce
    note f = send_call_cases [OF s]
    have prem: "\<forall>j \<ge> k. send_reply c1 j \<noteq> Interrupted" using less.prems f by simp
    show ?thesis
    proof (cases x)
      case (Sent n)
      then have "length (drop n b) + (k - send_calls c1) < length b + (k - send_calls c)" if "0 < n"
        using f False that by (auto intro: add_less_le_mono diff_le_mono2)
      with less.hyps [OF _ prem] Sent False s show ?thesis
        by (cases "n = 0") (auto simp: send_all.simps [of c b])
    next
      case Interrupted
      then have "send_calls c < k" using f less.prems by (metis not_le)
      then have "length b + (k - send_calls c1) < length b + (k - send_calls c)" using f by simp
      with less.hyps [OF _ prem] Interrupted False s show ?thesis
        by (auto simp: send_all.simps [of c b])
    next
      case Send_Failed
      with False s show ?thesis by (auto simp: send_all.simps [of c b])
    qed
  qed
qed

text \<open>
  C38. Sending a buffer ends as soon as the system stops interrupting it, and the client then has
  a prefix of the buffer: all of it exactly when success is reported. Short writes are continued
  where they stopped, nothing is sent twice.
\<close>

theorem send_all_complete:
  assumes "\<forall>j \<ge> k. send_reply c j \<noteq> Interrupted"
  shows "\<exists>ok c' n. send_all c b = Some (ok, c') \<and> n \<le> length b \<and>
     sent_bytes c' = sent_bytes c @ take n b \<and> (ok \<longleftrightarrow> n = length b)"
proof -
  obtain ok c' where "send_all c b = Some (ok, c')" using send_all_returns [OF assms] by fastforce
  with send_all_result [OF this] show ?thesis by blast
qed

definition ex_client :: "string \<Rightarrow> client" where
  "ex_client req = \<lparr>request_bytes = Some req, send_reply = (\<lambda>k. if k = 0 then Interrupted else Sent 2),
     send_calls = 0, sent_bytes = [], tick_reading = 0, health_reading = 0, wall_reading = 0\<rparr>"

lemma send_all_complete_witness:
  "\<exists>ok c' n. send_all (ex_client []) ''abc'' = Some (ok, c') \<and> n \<le> length ''abc'' \<and>
     sent_bytes c' = sent_bytes (ex_client []) @ take n ''abc'' \<and> (ok \<longleftrightarrow> n = length ''abc'')"
  by (rule send_all_complete [of 1]) (simp add: ex_client_def)

section \<open>Files\<close>

text \<open>
  C40. A request reaches files below the web root only. Whatever a client sends, the answer is the
  same for any two file systems that agree on the paths made of the web root and a name without
  \<open>..\<close>: no other file is read, and none can be told to exist. (The name need not begin
  with a slash: for \<open>GET x\<close> the path is the web root's own name followed by \<open>x\<close>.)
\<close>

theorem web_files_confined:
  assumes "time_text env = time_text env'"
    and "\<forall>name. \<not> strstr name ''..'' \<longrightarrow> file_at env (docroot @ name) = file_at env' (docroot @ name)"
  shows "handle_client env docroot c st = handle_client env' docroot c st"
proof -
  have index: "\<not> strstr ''/index.html'' ''..''" by simp
  have static: "handle_static_file env docroot = handle_static_file env' docroot"
    using assms(2) index by (auto simp: handle_static_file_def Let_def fun_eq_iff)
  have api: "handle_api_stats env = handle_api_stats env'"
    unfolding handle_api_stats_def assms(1) ..
  show ?thesis unfolding handle_client_def static api ..
qed

definition ex_env :: "(string \<Rightarrow> file_result) \<Rightarrow> web_env" where
  "ex_env files = \<lparr>time_text = (\<lambda>_. []), file_at = files, client_at = (\<lambda>_. ex_client []),
     accept_error = (\<lambda>_. Accept_Again)\<rparr>"

lemma web_files_confined_witness:
  "handle_client (ex_env (\<lambda>_. No_File)) ''webroot'' (ex_client ''GET /../etc/passwd HTTP/1.1'') zero_stats =
   handle_client (ex_env (\<lambda>p. if p = ''webroot/../etc/passwd'' then Regular_File 3 (Some ''abc'') else No_File))
     ''webroot'' (ex_client ''GET /../etc/passwd HTTP/1.1'') zero_stats"
  by (rule web_files_confined) (auto simp: ex_env_def)

text \<open>The headers of the program fit the buffer they are printed into.\<close>

lemma decimal_length: "n < 10 ^ k \<Longrightarrow> 0 < k \<Longrightarrow> length (decimal n) \<le> k"
proof (induction k arbitrary: n)
  case 0
  then show ?case by simp
next
  case (Suc k)
  show ?case
  proof (cases "n < 10")
    case True
    then show ?thesis by (simp add: decimal.simps [of n])
  next
    case False
    with Suc.prems have "0 < k" by (cases k) auto
    moreover from Suc.prems have "n div 10 < 10 ^ k" by (simp add: less_mult_imp_div_less mult.commute)
    ultimately show ?thesis using Suc.IH [of "n div 10"] False by (simp add: decimal.simps [of n])
  qed
qed

lemma header_fits:
  assumes "status < 1000" and "length reason \<le> 32" and "length content_type \<le> 64" and "n < 10 ^ 20"
  shows "length (response_header status reason content_type n) < 512"
  using assms decimal_length [of status 3] decimal_length [of n 20]
  by (simp add: response_header_def crlf_def)

section \<open>Descriptors\<close>

lemma set_nonblocking_trace:
  assumes "set_nonblocking fd s = (r, s')"
  shows "\<exists>t. os_trace s' = os_trace s @ t \<and> os_reply s' = os_reply s \<and>
     (\<forall>fds. fd \<in> set fds \<longrightarrow> uses_open t fds \<and> descriptors t fds = fds)"
proof -
  obtain f s1 where g: "os_do (Sys_getfl fd) s = (f, s1)" by fastforce
  obtain x s2 where h: "os_do (Sys_setfl_nonblock fd) s1 = (x, s2)" by fastforce
  from assms g h show ?thesis
    by (auto simp: set_nonblocking_def os_do_def Let_def split: if_splits)
qed

text \<open>One accepted connection: it is closed again, whatever happens in between.\<close>

lemma accepted_closed:
  assumes "os_do (Sys_accept fd) s = (cfd, s1)" and "0 \<le> cfd"
    and "set_nonblocking cfd s1 = (r, s2)" and "wait_for_client_request cfd s2 = (ready, s3)"
  shows "runs_on fd s (snd (os_do (Sys_close cfd) s2)) [fd]"
    and "runs_on fd s (snd (os_do (Sys_close cfd) s3)) [fd]"
proof -
  obtain t where t: "os_trace s2 = os_trace s1 @ t" "os_reply s2 = os_reply s1"
     "\<forall>fds. cfd \<in> set fds \<longrightarrow> uses_open t fds \<and> descriptors t fds = fds"
    using set_nonblocking_trace [OF assms(3)] by blast
  have s1: "os_trace s1 = os_trace s @ [(Sys_accept fd, cfd)]" "os_reply s1 = os_reply s"
    using assms(1) by (auto simp: os_do_def Let_def)
  obtain x where s3: "os_trace s3 = os_trace s2 @ [(Sys_select_readable cfd, x)]" "os_reply s3 = os_reply s2"
    using assms(4) by (auto simp: wait_for_client_request_def os_do_def Let_def)
  obtain y z where c: "snd (os_do (Sys_close cfd) s2) = s2\<lparr>os_trace := os_trace s2 @ [(Sys_close cfd, y)]\<rparr>"
    "snd (os_do (Sys_close cfd) s3) = s3\<lparr>os_trace := os_trace s3 @ [(Sys_close cfd, z)]\<rparr>"
    by (auto simp: os_do_def Let_def)
  show "runs_on fd s (snd (os_do (Sys_close cfd) s2)) [fd]"
    unfolding runs_on_def using t s1 assms(2)
    by (intro exI [of _ "(Sys_accept fd, cfd) # t @ [(Sys_close cfd, y)]"]) (auto simp: c)
  show "runs_on fd s (snd (os_do (Sys_close cfd) s3)) [fd]"
    unfolding runs_on_def using t s1 s3 assms(2)
    by (intro exI [of _ "(Sys_accept fd, cfd) # t @ [(Sys_select_readable cfd, x), (Sys_close cfd, z)]"])
      (auto simp: c)
qed

lemma handle_ready_descriptors:
  assumes "web_server_handle_ready env server st s served = Some result" and "0 \<le> web_fd server"
  shows "case result of (server', st', s', served') \<Rightarrow>
     web_fd server' = web_fd server \<and> runs_on (web_fd server) s s' [web_fd server] \<or>
     web_fd server' = -1 \<and> runs_on (web_fd server) s s' []"
  using assms
proof (induction rule: web_server_handle_ready.raw_induct [rotated, consumes 1, case_names 1])
  case (1 loop env server st s served result)
  let ?fd = "web_fd server"
  obtain cfd s1 where a: "os_do (Sys_accept ?fd) s = (cfd, s1)" by fastforce
  show ?case
  proof (cases "cfd < 0")
    case True
    then have acc: "runs_on ?fd s s1 [?fd]" by (intro runs_on_step [OF a]) auto
    obtain r s2 where c: "os_do (Sys_close ?fd) s1 = (r, s2)" by fastforce
    have "runs_on ?fd s1 s2 []" by (rule runs_on_step [OF c]) simp_all
    then have "runs_on ?fd s s2 []" by (rule runs_on_trans [OF acc])
    with 1(2,3) True a acc c show ?thesis
      by (auto simp: web_server_close_def split: if_splits)
  next
    case False
    obtain r s2 where n: "set_nonblocking cfd s1 = (r, s2)" by fastforce
    obtain ready s3 where w: "wait_for_client_request cfd s2 = (ready, s3)" by fastforce
    from False have "0 \<le> cfd" by simp
    note step = accepted_closed [OF a this n w]
    have next_round: "case result of (server', st', s', served') \<Rightarrow>
       web_fd server' = ?fd \<and> runs_on ?fd s s' [?fd] \<or> web_fd server' = -1 \<and> runs_on ?fd s s' []"
      if "loop env server st1 s4 served1 = Some result" and "runs_on ?fd s s4 [?fd]" for st1 s4 served1
      using 1(1) [OF that(1) 1(3)] runs_on_trans [OF that(2)] by auto
    show ?thesis
    proof (cases "r \<noteq> 0")
      case True
      with 1(2) a False n have "loop env server st (snd (os_do (Sys_close cfd) s2)) served = Some result" by simp
      then show ?thesis by (rule next_round [OF _ step(1)])
    next
      case ok: False
      show ?thesis
      proof (cases ready)
        case False
        with 1(2) a \<open>\<not> cfd < 0\<close> n ok w
        have "loop env server st (snd (os_do (Sys_close cfd) s3)) served = Some result" by simp
        then show ?thesis by (rule next_round [OF _ step(2)])
      next
        case True
        with 1(2) a \<open>\<not> cfd < 0\<close> n ok w obtain c st1 where
          "loop env server st1 (snd (os_do (Sys_close cfd) s3)) (served @ [c]) = Some result"
          by (auto simp: bind_eq_Some_conv)
        then show ?thesis by (rule next_round [OF _ step(2)])
      qed
    qed
  qed
qed

section \<open>Serving ends\<close>

text \<open>A client whose system stops interrupting \<open>send\<close> at some point.\<close>

definition patient :: "client \<Rightarrow> bool" where
  "patient c \<longleftrightarrow> (\<exists>k. \<forall>j \<ge> k. send_reply c j \<noteq> Interrupted)"

lemma send_all_reply:
  assumes "send_all c b = Some (ok, c')"
  shows "send_reply c' = send_reply c"
proof -
  define r where "r = (ok, c')"
  have "send_all c b = Some r" using assms by (simp add: r_def)
  then have "send_reply (snd r) = send_reply c"
  proof (induction rule: send_all.raw_induct [rotated, consumes 1, case_names 1])
    case (1 send_all c b r)
    obtain x c1 where s: "send_call c b = (x, c1)" by fastforce
    have f: "send_reply c1 = send_reply c" using send_call_cases [OF s] by simp
    show ?case
    proof (cases "b = []")
      case True
      with 1(2) show ?thesis by auto
    next
      case False
      with 1(2) s f 1(1) show ?thesis by (cases x) (auto split: if_splits)
    qed
  qed
  then show ?thesis by (simp add: r_def)
qed

lemma send_all_patient:
  assumes "patient c"
  obtains ok c' where "send_all c b = Some (ok, c')" "patient c'"
proof -
  from assms obtain k where "\<forall>j \<ge> k. send_reply c j \<noteq> Interrupted" by (auto simp: patient_def)
  from send_all_returns [OF this] obtain ok c' where r: "send_all c b = Some (ok, c')" by fastforce
  have "patient c'" using send_all_reply [OF r] assms by (simp add: patient_def)
  with r show thesis by (rule that)
qed

lemma send_response_ends:
  assumes "patient c"
  shows "\<exists>c'. send_response c status reason t body = Some c'"
proof -
  obtain ok c1 where h: "send_all c (response_header status reason t (length body)) = Some (ok, c1)"
    and p: "patient c1" by (rule send_all_patient [OF assms])
  obtain ok2 c2 where b: "send_all c1 body = Some (ok2, c2)" by (rule send_all_patient [OF p])
  from h b show ?thesis by (simp add: send_response_def send_response_header_def)
qed

lemma send_each_ends: "patient c \<Longrightarrow> \<exists>c'. send_each c bs = Some c'"
proof (induction bs arbitrary: c)
  case Nil
  then show ?case by simp
next
  case (Cons b bs)
  obtain ok c1 where b: "send_all c b = Some (ok, c1)" and p: "patient c1"
    by (rule send_all_patient [OF Cons.prems])
  from Cons.IH [OF p] b show ?case by simp
qed

lemma handle_client_ends:
  assumes "patient c"
  shows "\<exists>r. handle_client env docroot c st = Some r"
proof -
  have e: "\<exists>c'. send_error c status reason = Some c'" for status reason
    using send_response_ends [OF assms] by (simp add: send_error_def)
  have sent: "\<exists>c'. Option.bind (send_response_header c 200 ''OK'' t n)
      (\<lambda>(ok, c). if ok then send_each c (chunks data) else Some c) = Some c'" for t n data
  proof -
    obtain ok c1 where h: "send_all c (response_header 200 ''OK'' t n) = Some (ok, c1)" and p: "patient c1"
      by (rule send_all_patient [OF assms])
    from h send_each_ends [OF p] show ?thesis by (simp add: send_response_header_def)
  qed
  have static: "\<exists>c'. handle_static_file env docroot c path = Some c'" for path
    using e sent by (auto simp: handle_static_file_def Let_def split: file_result.split option.split)
  have api: "\<exists>r. handle_api_stats env c st = Some r"
    using e send_response_ends [OF assms] by (auto simp: handle_api_stats_def split: prod.split)
  show ?thesis
    unfolding handle_client_def Let_def using e static api
    by (simp split: option.split prod.split)
qed

lemma os_do_grows:
  "os_do c s = (r, s') \<Longrightarrow> os_reply s' = os_reply s \<and> length (os_trace s') = Suc (length (os_trace s)) \<and>
     r = os_reply s (length (os_trace s))"
  by (auto simp: os_do_def Let_def)

lemma handle_ready_ends:
  assumes "\<forall>k. patient (client_at env k)" and "\<forall>n \<ge> N. os_reply s n < 0"
  shows "\<exists>r. web_server_handle_ready env server st s served = Some r"
  using assms(2)
proof (induction "N - length (os_trace s)" arbitrary: s st served rule: less_induct)
  case less
  obtain cfd s1 where a: "os_do (Sys_accept (web_fd server)) s = (cfd, s1)" by fastforce
  note g1 = os_do_grows [OF a]
  show ?case
  proof (cases "cfd < 0")
    case True
    then show ?thesis using a by (subst web_server_handle_ready.simps) (simp split: prod.split)
  next
    case False
    then have "length (os_trace s) < N" using g1 less.prems by (metis not_le)
    obtain r s2 where n: "set_nonblocking cfd s1 = (r, s2)" by fastforce
    obtain ready s3 where w: "wait_for_client_request cfd s2 = (ready, s3)" by fastforce
    have g2: "os_reply s2 = os_reply s1 \<and> length (os_trace s1) \<le> length (os_trace s2)"
      using set_nonblocking_trace [OF n] by auto
    have g3: "os_reply s3 = os_reply s2 \<and> length (os_trace s2) \<le> length (os_trace s3)"
      using w by (auto simp: wait_for_client_request_def os_do_def Let_def)
    have again: "\<exists>r. web_server_handle_ready env server st1 (snd (os_do (Sys_close cfd) sx)) served1 = Some r"
      if "os_reply sx = os_reply s" "length (os_trace s) < length (os_trace sx)" for sx st1 served1
      using that less.prems \<open>length (os_trace s) < N\<close>
      by (intro less.hyps) (auto simp: os_do_def Let_def)
    from handle_client_ends [of "client_at env (length (os_trace s))"] assms(1)
    obtain c st1 where h: "handle_client env (webroot server) (client_at env (length (os_trace s))) st = Some (c, st1)"
      by fastforce
    have "web_server_handle_ready env server st s served =
        (if r \<noteq> 0 then web_server_handle_ready env server st (snd (os_do (Sys_close cfd) s2)) served
         else if \<not> ready then web_server_handle_ready env server st (snd (os_do (Sys_close cfd) s3)) served
         else web_server_handle_ready env server st1 (snd (os_do (Sys_close cfd) s3)) (served @ [c]))"
      using a False n w h by (subst web_server_handle_ready.simps) simp
    moreover have "os_reply s2 = os_reply s" "length (os_trace s) < length (os_trace s2)"
      "os_reply s3 = os_reply s" "length (os_trace s) < length (os_trace s3)"
      using g1 g2 g3 by simp_all
    note again [OF this(1,2)] again [OF this(3,4)]
    ultimately show ?thesis by simp
  qed
qed

end
