(* ===== verification/Command_Line_Theorems.thy ===== *)
theory Command_Line_Theorems
  imports Command_Line
begin

text \<open>
  The command line: what a successful parse guarantees, that options written out are read back,
  and that an option which may appear once cannot be repeated.
\<close>

section \<open>Values\<close>

definition config_in_range :: "recovery_engine_config \<Rightarrow> bool" where
  "config_in_range cfg \<longleftrightarrow>
     max_content_burst_packets cfg \<le> 255 \<and> min_alignment_confidence cfg \<le> 100 \<and>
     (\<forall>x \<in> {primary_delay_ns cfg, max_secondary_latency_ns cfg, alignment_window_ns cfg,
            primary_outage_ns cfg, primary_return_ns cfg}. 1000000 dvd unat x)"

lemma ms_limit: "(- 1 :: u64) div 1000000 = 18446744073709"
  by simp

lemma parse_ms_range:
  assumes "parse_u64_ms_option name v = Inr ns"
  shows "1000000 dvd unat ns"
proof -
  obtain parsed e rest where s: "strtoul v = (parsed, e, rest)" by (metis prod_cases3)
  from assms s have ns: "ns = parsed * 1000000" and le: "parsed \<le> 18446744073709"
    by (auto simp: parse_u64_ms_option_def ms_limit not_less split: if_splits)
  from le have "unat parsed \<le> 18446744073709" by (simp add: word_le_nat_alt)
  then have "unat (parsed * 1000000) = unat parsed * 1000000"
    using unat_mult_lem [of parsed 1000000] by simp
  with ns show ?thesis by simp
qed

lemma parse_u32_range: "parse_u32_option name v max_value = Inr n \<Longrightarrow> n \<le> max_value"
proof -
  assume a: "parse_u32_option name v max_value = Inr n"
  then have "\<exists>p :: u64. p \<le> ucast max_value \<and> n = ucast p"
    by (auto simp: parse_u32_option_def not_less split: sum.splits if_splits intro!: exI)
  then obtain p :: u64 where p: "p \<le> ucast max_value" "n = ucast p" by blast
  have "unat n \<le> unat p" by (simp add: p(2) unsigned_ucast_eq unsigned_take_bit_eq take_bit_nat_less_eq_self)
  also have "\<dots> \<le> unat max_value"
    using p(1) by (simp add: word_le_nat_alt unsigned_ucast_eq unsigned_take_bit_eq take_bit_nat_eq_self
        order_less_le_trans [OF unsigned_less])
  finally show ?thesis by (simp add: word_le_nat_alt)
qed

lemma classify_bounded:
  "classify_option name = Bounded u m \<Longrightarrow> u = Max_Content_Burst \<and> m = 255 \<or> u = Min_Alignment_Confidence \<and> m = 100"
  by (simp add: classify_option_def split: if_splits)

lemma config_in_range_set:
  "config_in_range cfg \<Longrightarrow> 1000000 dvd unat ns \<Longrightarrow> config_in_range (set_ms ms ns cfg)"
  "config_in_range cfg \<Longrightarrow> config_in_range (cfg\<lparr>history_ms := n\<rparr>)"
  "config_in_range cfg \<Longrightarrow> k \<le> (if u = Max_Content_Burst then 255 else 100) \<Longrightarrow> config_in_range (set_u32 u k cfg)"
  by (cases ms; cases u; simp add: config_in_range_def)+

lemma apply_option_range:
  assumes "apply_option (classify_option name) name v opts = Inr opts'"
    and "config_in_range (recovery_config opts)"
  shows "config_in_range (recovery_config opts')"
proof (cases "classify_option name")
  case (Text x)
  with assms show ?thesis by (cases x) (auto simp: apply_option_def split: if_splits)
next
  case (Bounded u m)
  with assms classify_bounded [OF Bounded] show ?thesis
    by (auto simp: apply_option_def config_in_range_def split: sum.splits dest!: parse_u32_range)
qed (use assms in \<open>auto simp: apply_option_def split: sum.splits if_splits
       intro!: config_in_range_set dest: parse_ms_range\<close>)

lemma parse_options_result:
  assumes "parse_options args opts = (rc, opts', m)"
    and "config_in_range (recovery_config opts)"
  shows "(rc = 0 \<longrightarrow> input_primary_url opts' \<noteq> None \<and> input_secondary_url opts' \<noteq> None \<and> m = []) \<and>
     (rc = 0 \<or> rc = 1 \<or> rc = -1) \<and> (rc \<noteq> 0 \<longrightarrow> m \<noteq> [] \<and> last m = Usage) \<and>
     config_in_range (recovery_config opts')"
  using assms
proof (induction args opts rule: parse_options.induct)
  case (1 opts)
  then show ?case by (auto split: if_splits)
next
  case (2 name rest opts)
  note r = "2.prems"(1) [unfolded parse_options.simps(2) Let_def]
  show ?case
  proof (cases "classify_option name = Http_Port \<and> http_port opts \<noteq> 0 \<or>
      classify_option name = Console_Report \<or> classify_option name = Help \<or> classify_option name = Unknown")
    case True
    with r "2.prems"(2) "2.IH"(1) show ?thesis by (auto split: if_splits)
  next
    case False
    show ?thesis
    proof (cases rest)
      case Nil
      with False r "2.prems"(2) show ?thesis by auto
    next
      case (Cons v rest')
      show ?thesis
      proof (cases "apply_option (classify_option name) name v opts")
        case (Inl e)
        with False Cons r "2.prems"(2) show ?thesis by auto
      next
        case (Inr o2)
        with False Cons r have p: "parse_options rest' o2 = (rc, opts', m)" by auto
        from apply_option_range [OF Inr "2.prems"(2)] have "config_in_range (recovery_config o2)" .
        with p "2.IH"(2) [OF refl _ _ _ _ Cons Inr] False show ?thesis by blast
      qed
    qed
  qed
qed

lemma initial_in_range: "config_in_range (recovery_config initial_options)"
  by (simp add: config_in_range_def initial_options_def recovery_engine_default_config_def)

text \<open>
  C36. A command line is either accepted (0), answered with the help (1) or refused (-1), with the
  usage printed in the last two cases and nothing printed in the first. When it is accepted both
  inputs are given, the burst is at most 255 and the confidence at most 100, so that the engine's
  own limits change nothing, and every time is a whole number of milliseconds: the conversion to
  nanoseconds has not wrapped.
\<close>

theorem command_line_accepts_valid:
  assumes "command_line_parse argv = (rc, opts, m)"
  shows "(rc = 0 \<or> rc = 1 \<or> rc = -1) \<and>
     (rc = 0 \<longrightarrow> m = [] \<and> input_primary_url opts \<noteq> None \<and> input_secondary_url opts \<noteq> None) \<and>
     (rc \<noteq> 0 \<longrightarrow> m \<noteq> [] \<and> last m = Usage) \<and>
     config_in_range (recovery_config opts) \<and>
     clamp_config (recovery_config opts) = recovery_config opts"
proof -
  have p: "parse_options (drop 1 argv) initial_options = (rc, opts, m)"
    using assms by (simp add: command_line_parse_def command_line_parse_internal_def split: prod.splits)
  note res = parse_options_result [OF p initial_in_range]
  then have "config_in_range (recovery_config opts)" by blast
  then have "clamp_config (recovery_config opts) = recovery_config opts"
    by (simp add: clamp_config_def config_in_range_def Let_def leD)
  with res show ?thesis by blast
qed

text \<open>
  Parsing silently gives the same result and the same options, and prints nothing.
\<close>

lemma command_line_silent_same:
  "command_line_parse_silent argv =
     (fst (command_line_parse argv), fst (snd (command_line_parse argv)), [])"
  by (simp add: command_line_parse_silent_def command_line_parse_def command_line_parse_internal_def
      split: prod.split)

section \<open>Options written out\<close>

definition given :: "string \<Rightarrow> string option \<Rightarrow> string list" where
  "given name v = (case v of None \<Rightarrow> [] | Some x \<Rightarrow> [name, x])"

definition millis :: "u64 \<Rightarrow> string" where
  "millis ns = decimal (unat ns div 1000000)"

text \<open>A command line for the options, without the program name.\<close>

definition arguments_of :: "command_line_options \<Rightarrow> string list" where
  "arguments_of opts =
     (let cfg = recovery_config opts in
      given ''--input-primary-url'' (input_primary_url opts) @
      given ''--input-secondary-url'' (input_secondary_url opts) @
      given ''--input-primary-interface'' (input_primary_interface opts) @
      given ''--input-secondary-interface'' (input_secondary_interface opts) @
      given ''--output-url'' (Some (output_url opts)) @
      given ''--http-port'' (if http_port opts = 0 then None else Some (decimal (unat (http_port opts)))) @
      (if console_report opts then [''--console-report''] else []) @
      given ''--primary-delay-ms'' (Some (millis (primary_delay_ns cfg))) @
      given ''--max-secondary-latency-ms'' (Some (millis (max_secondary_latency_ns cfg))) @
      given ''--alignment-window-ms'' (Some (millis (alignment_window_ns cfg))) @
      given ''--history-ms'' (Some (decimal (unat (history_ms cfg)))) @
      given ''--primary-outage-ms'' (Some (millis (primary_outage_ns cfg))) @
      given ''--primary-return-ms'' (Some (millis (primary_return_ns cfg))) @
      given ''--max-content-burst-packets'' (Some (decimal (unat (max_content_burst_packets cfg)))) @
      given ''--min-alignment-confidence'' (Some (decimal (unat (min_alignment_confidence cfg)))))"

lemma classify_names:
  "classify_option ''--input-primary-url'' = Text Primary_Url"
  "classify_option ''--input-secondary-url'' = Text Secondary_Url"
  "classify_option ''--input-primary-interface'' = Text Primary_Interface"
  "classify_option ''--input-secondary-interface'' = Text Secondary_Interface"
  "classify_option ''--output-url'' = Text Output_Url"
  "classify_option ''--http-port'' = Http_Port"
  "classify_option ''--console-report'' = Console_Report"
  "classify_option ''--primary-delay-ms'' = Millis Primary_Delay"
  "classify_option ''--max-secondary-latency-ms'' = Millis Max_Secondary_Latency"
  "classify_option ''--alignment-window-ms'' = Millis Alignment_Window"
  "classify_option ''--history-ms'' = History_Ms"
  "classify_option ''--primary-outage-ms'' = Millis Primary_Outage"
  "classify_option ''--primary-return-ms'' = Millis Primary_Return"
  "classify_option ''--max-content-burst-packets'' = Bounded Max_Content_Burst 255"
  "classify_option ''--min-alignment-confidence'' = Bounded Min_Alignment_Confidence 100"
  by (simp_all add: classify_option_def)

lemma parse_given:
  assumes "classify_option name \<notin> {Http_Port, Console_Report, Help, Unknown} \<or>
           classify_option name = Http_Port \<and> http_port opts = 0"
  shows "parse_options (given name (Some v) @ rest) opts =
     (case apply_option (classify_option name) name v opts of
        Inl m \<Rightarrow> (-1, opts, m @ [Usage]) | Inr opts \<Rightarrow> parse_options rest opts)"
  using assms by (auto simp: given_def parse_options.simps(2) split: sum.split)

lemma decimal_unsigned:
  assumes "unat w < 2 ^ 64"
  shows "strtoul (decimal (unat (w :: 'a::len word))) = (ucast w, False, [])"
  using strtoul_decimal [OF assms] by simp

lemma parse_millis: "1000000 dvd unat ns \<Longrightarrow> parse_u64_ms_option name (millis ns) = Inr ns"
proof -
  assume d: "1000000 dvd unat ns"
  have lt: "unat ns < 2 ^ 64" using unsigned_less [of ns] by simp
  then have n: "unat ns div 1000000 < 2 ^ 64" "unat ns div 1000000 \<le> 18446744073709" by simp_all
  have small: "\<not> - 1 div 1000000 < (of_nat (unat ns div 1000000) :: u64)"
    using n unat_of_nat_u64 [OF n(1)] by (simp add: word_less_nat_alt)
  have "(of_nat (unat ns div 1000000) * 1000000 :: u64) = of_nat (unat ns div 1000000 * 1000000)" by simp
  also have "\<dots> = ns" using d by (simp del: of_nat_mult)
  finally have whole: "(of_nat (unat ns div 1000000) * 1000000 :: u64) = ns" .
  have ne: "[] \<noteq> decimal (unat ns div 1000000)" using decimal_not_empty by metis
  show ?thesis
    using ne small whole by (simp add: parse_u64_ms_option_def millis_def strtoul_decimal [OF n(1)])
qed

lemma parse_decimal_u64: "parse_u64_option name (decimal (unat n)) = Inr n"
proof -
  have "unat n < 2 ^ 64" using unsigned_less [of n] by simp
  then have "strtoul (decimal (unat n)) = (n, False, [])" using decimal_unsigned [of n] by simp
  moreover have "[] \<noteq> decimal (unat n)" using decimal_not_empty by metis
  ultimately show ?thesis by (simp add: parse_u64_option_def)
qed

lemma parse_decimal_u32:
  fixes w :: "'a::len word"
  assumes "unat w \<le> unat m"
  shows "parse_u32_option name (decimal (unat w)) m = Inr (ucast w)"
proof -
  have "unat m < 2 ^ 32" using unsigned_less [of m] by simp
  with assms have lt: "unat w < 2 ^ 32" by simp
  then have s: "strtoul (decimal (unat w)) = (ucast w, False, [])" using decimal_unsigned [of w] by simp
  have u: "unat (ucast w :: u64) = unat w" "unat (ucast m :: u64) = unat m"
    using lt \<open>unat m < 2 ^ 32\<close> by (simp_all add: unsigned_ucast_eq unsigned_take_bit_eq take_bit_nat_eq_self)
  have "\<not> ucast m < (ucast w :: u64)" using assms by (simp add: word_less_nat_alt u)
  moreover have "(ucast (ucast w :: u64) :: u32) = ucast w"
    using lt by (simp add: word_unat_eq_iff unsigned_ucast_eq unsigned_take_bit_eq take_bit_nat_eq_self)
  moreover have "[] \<noteq> decimal (unat w)" using decimal_not_empty by metis
  ultimately show ?thesis by (simp add: parse_u32_option_def parse_u64_option_def s)
qed

lemma parse_given_none: "parse_options (given name None @ rest) opts = parse_options rest opts"
  by (simp add: given_def)

lemma parse_console: "console_report opts = False \<Longrightarrow>
    parse_options (''--console-report'' # rest) opts = parse_options rest (opts\<lparr>console_report := True\<rparr>)"
  by (simp add: parse_options.simps(2) classify_names)

text \<open>Each argument as it is read, for options that are in range.\<close>

lemma parse_given_text:
  assumes "classify_option name = Text x" and "\<not> text_given x opts"
  shows "parse_options (given name (Some v) @ rest) opts = parse_options rest (set_text x v opts)"
  using assms by (simp add: parse_given apply_option_def)

lemma parse_given_millis:
  assumes "classify_option name = Millis ms" and "1000000 dvd unat ns"
  shows "parse_options (given name (Some (millis ns)) @ rest) opts =
     parse_options rest (opts\<lparr>recovery_config := set_ms ms ns (recovery_config opts)\<rparr>)"
  using assms by (simp add: parse_given apply_option_def parse_millis)

lemma parse_given_bounded:
  assumes "classify_option name = Bounded u m" and "n \<le> m"
  shows "parse_options (given name (Some (decimal (unat n))) @ rest) opts =
     parse_options rest (opts\<lparr>recovery_config := set_u32 u n (recovery_config opts)\<rparr>)"
proof -
  have "parse_u32_option name (decimal (unat n)) m = Inr n"
    using parse_decimal_u32 [of n m name] assms(2) by (simp add: word_le_nat_alt)
  with assms(1) show ?thesis by (simp add: parse_given apply_option_def)
qed

lemma parse_given_port:
  fixes port :: u16
  assumes "http_port opts = 0" and "port \<noteq> 0"
  shows "parse_options (given ''--http-port'' (Some (decimal (unat port))) @ rest) opts =
     parse_options rest (opts\<lparr>http_port := port\<rparr>)"
proof -
  have "unat port < 2 ^ 16" by (rule order_less_le_trans [OF unsigned_less]) simp
  then have u: "unat port \<le> unat (65535 :: u32)" by simp
  have w: "(ucast port :: u32) \<noteq> 0" "(ucast (ucast port :: u32) :: u16) = port"
    using assms(2) u by (simp_all add: word_unat_eq_iff unsigned_ucast_eq unsigned_take_bit_eq take_bit_nat_eq_self)
  show ?thesis
    using assms(1) parse_decimal_u32 [OF u, of "''--http-port''"] w
    by (simp add: parse_given classify_names apply_option_def)
qed

lemma parse_given_history:
  "parse_options (given ''--history-ms'' (Some (decimal (unat n))) @ rest) opts =
     parse_options rest (opts\<lparr>recovery_config := (recovery_config opts)\<lparr>history_ms := n\<rparr>\<rparr>)"
  by (simp add: parse_given classify_names apply_option_def parse_decimal_u64)

text \<open>
  C37. Options survive being written out: for options with both inputs, limits in range and times in
  whole milliseconds, parsing their command line gives back exactly these options.
\<close>

theorem command_line_roundtrip:
  assumes "input_primary_url opts \<noteq> None" and "input_secondary_url opts \<noteq> None"
    and "config_in_range (recovery_config opts)"
  shows "command_line_parse (program # arguments_of opts) = (0, opts, [])"
proof -
  obtain p where p: "input_primary_url opts = Some p" using assms(1) by blast
  obtain q where q: "input_secondary_url opts = Some q" using assms(2) by blast
  have i: "parse_options (given ''--input-primary-interface'' v @ rest) o1 =
      parse_options rest (o1\<lparr>input_primary_interface := v\<rparr>)"
    if "input_primary_interface o1 = None" for v rest o1
    using that by (cases o1; cases v) (simp_all add: parse_given_none parse_given_text classify_names)
  have j: "parse_options (given ''--input-secondary-interface'' v @ rest) o1 =
      parse_options rest (o1\<lparr>input_secondary_interface := v\<rparr>)"
    if "input_secondary_interface o1 = None" for v rest o1
    using that by (cases o1; cases v) (simp_all add: parse_given_none parse_given_text classify_names)
  have port: "parse_options (given ''--http-port'' (if w = 0 then None else Some (decimal (unat w))) @ rest) o1 =
      parse_options rest (o1\<lparr>http_port := w\<rparr>)" if "http_port o1 = 0" for w rest o1
    using that by (cases o1; cases "w = 0") (simp_all add: parse_given_none parse_given_port)
  have console: "parse_options ((if b then [''--console-report''] else []) @ rest) o1 =
      parse_options rest (o1\<lparr>console_report := b\<rparr>)" if "\<not> console_report o1" for b rest o1
    using that by (cases o1; cases b) (simp_all add: parse_console)
  have last: "parse_options (given ''--min-alignment-confidence'' (Some (decimal (unat n)))) o1 =
      parse_options [] (o1\<lparr>recovery_config := (recovery_config o1)\<lparr>min_alignment_confidence := n\<rparr>\<rparr>)"
    if "n \<le> 100" for n o1
    using that parse_given_bounded [OF classify_names(15), of n "[]" o1] by simp
  have "parse_options (arguments_of opts) initial_options = (0, opts, [])"
    using assms(3) unfolding arguments_of_def Let_def p q
    by (simp add: config_in_range_def parse_given_text parse_given_millis parse_given_bounded
        parse_given_history classify_names i j port console last initial_options_def p q)
  then show ?thesis
    by (simp add: command_line_parse_def command_line_parse_internal_def)
qed

section \<open>Options given once\<close>

text \<open>The options that may not be repeated and take a value, and whether one is set.\<close>

definition once :: "string \<Rightarrow> bool" where
  "once name \<longleftrightarrow> classify_option name = Http_Port \<or>
     (\<exists>x. classify_option name = Text x \<and> x \<noteq> Output_Url)"

definition takes_value :: "string \<Rightarrow> bool" where
  "takes_value name \<longleftrightarrow> classify_option name \<notin> {Console_Report, Help, Unknown}"

definition is_given :: "string \<Rightarrow> command_line_options \<Rightarrow> bool" where
  "is_given name opts \<longleftrightarrow>
     (case classify_option name of Http_Port \<Rightarrow> http_port opts \<noteq> 0
      | Text x \<Rightarrow> text_given x opts | _ \<Rightarrow> False)"

lemma port_not_zero:
  assumes "parse_u32_option name v 65535 = Inr n" and "n \<noteq> 0"
  shows "(ucast n :: u16) \<noteq> 0"
proof -
  have "unat n < 65536" using parse_u32_range [OF assms(1)] by (simp add: word_le_nat_alt)
  then show ?thesis using assms(2)
    by (simp add: word_unat_eq_iff unsigned_ucast_eq unsigned_take_bit_eq take_bit_nat_eq_self)
qed

lemma apply_option_given:
  assumes "apply_option (classify_option name) name v opts = Inr opts'" and "once name"
    and "classify_option name = Http_Port \<longrightarrow> http_port opts = 0"
  shows "\<not> is_given name opts \<and> is_given name opts'"
proof (cases "classify_option name = Http_Port")
  case True
  with assms show ?thesis
    by (auto simp: apply_option_def is_given_def dest: port_not_zero split: sum.splits if_splits)
next
  case False
  with assms(2) obtain x where "classify_option name = Text x" "x \<noteq> Output_Url"
    by (auto simp: once_def)
  with assms(1) show ?thesis by (cases x) (auto simp: apply_option_def is_given_def split: if_splits)
qed

lemma apply_option_keeps:
  assumes "apply_option t n2 v opts = Inr opts'" and "is_given name opts"
  shows "is_given name opts'"
proof -
  have x: "text_given x (set_text y w o1)" if "text_given x o1" for x y w o1
    using that by (cases x; cases y) auto
  have c: "text_given x (o1\<lparr>recovery_config := c\<rparr>) = text_given x o1"
      "text_given x (o1\<lparr>http_port := w\<rparr>) = text_given x o1" for x c w o1
    by (cases x; simp)+
  have h: "http_port (set_text y w o1) = http_port o1" for y w o1 by (cases y) auto
  show ?thesis
    using assms by (cases t)
      (auto simp: apply_option_def is_given_def c h x dest: port_not_zero
            split: sum.splits if_splits option_target.splits)
qed

lemma parse_pairs_once:
  assumes "parse_options (concat (map (\<lambda>(n, v). [n, v]) nvs)) opts = (0, opts', m)"
    and "\<forall>(n, v) \<in> set nvs. takes_value n"
  shows "distinct (filter once (map fst nvs)) \<and> (\<forall>n \<in> set (map fst nvs). once n \<longrightarrow> \<not> is_given n opts)"
  using assms
proof (induction nvs arbitrary: opts)
  case Nil
  then show ?case by simp
next
  case (Cons nv nvs)
  obtain n v where nv: "nv = (n, v)" by fastforce
  have t: "classify_option n \<noteq> Console_Report" "classify_option n \<noteq> Help" "classify_option n \<noteq> Unknown"
    using Cons.prems(2) nv by (auto simp: takes_value_def)
  have port: "classify_option n = Http_Port \<longrightarrow> http_port opts = 0"
    using Cons.prems(1) t by (auto simp: nv parse_options.simps(2) split: if_splits)
  then obtain o2 where a: "apply_option (classify_option n) n v opts = Inr o2"
      and r: "parse_options (concat (map (\<lambda>(n, v). [n, v]) nvs)) o2 = (0, opts', m)"
    using Cons.prems(1) t by (auto simp: nv parse_options.simps(2) Let_def split: sum.splits if_splits)
  have ih: "distinct (filter once (map fst nvs))" "\<forall>k \<in> set (map fst nvs). once k \<longrightarrow> \<not> is_given k o2"
    using Cons.IH [OF r] Cons.prems(2) by auto
  have "\<not> is_given k opts" if "k \<in> set (map fst nvs)" "once k" for k
    using ih(2) that apply_option_keeps [OF a] by blast
  moreover have "\<not> is_given n opts \<and> n \<notin> set (map fst nvs)" if "once n"
    using apply_option_given [OF a that port] ih(2) that by blast
  ultimately show ?case using ih(1) by (auto simp: nv)
qed

text \<open>
  The inputs, their interfaces and the HTTP port can be given once only: a command line of
  options with values that is accepted names none of them twice (while the output address and the
  tuning options may be repeated, the last one counting).
\<close>

theorem command_line_no_repeats:
  assumes "command_line_parse (program # concat (map (\<lambda>(n, v). [n, v]) nvs)) = (0, opts, m)"
    and "\<forall>(n, v) \<in> set nvs. takes_value n"
  shows "distinct (filter once (map fst nvs))"
proof -
  have "parse_options (concat (map (\<lambda>(n, v). [n, v]) nvs)) initial_options = (0, opts, m)"
    using assms(1) by (simp add: command_line_parse_def command_line_parse_internal_def split: prod.splits)
  from parse_pairs_once [OF this assms(2)] show ?thesis by blast
qed

section \<open>Instances\<close>

definition ex_options :: command_line_options where
  "ex_options = initial_options\<lparr>input_primary_url := Some ''udp://239.1.1.1:4001'',
     input_secondary_url := Some ''udp://239.1.1.2:4002'', http_port := 8080, console_report := True\<rparr>"

lemma command_line_roundtrip_witness:
  "command_line_parse (''tsr'' # arguments_of ex_options) = (0, ex_options, [])"
  by (rule command_line_roundtrip)
    (simp_all add: ex_options_def initial_options_def config_in_range_def recovery_engine_default_config_def)

lemma command_line_accepts_valid_witness:
  "\<exists>rc opts m. command_line_parse [''tsr'', ''--help''] = (rc, opts, m) \<and> m \<noteq> [] \<and> last m = Usage \<and>
     clamp_config (recovery_config opts) = recovery_config opts"
proof -
  obtain rc opts m where p: "command_line_parse [''tsr'', ''--help''] = (rc, opts, m)"
    by (metis prod_cases3)
  then have "rc \<noteq> 0"
    by (simp add: command_line_parse_def command_line_parse_internal_def parse_options.simps(2)
        classify_option_def)
  with command_line_accepts_valid [OF p] p show ?thesis by blast
qed

lemma command_line_no_repeats_witness:
  "distinct (filter once [''--input-primary-url'', ''--input-secondary-url''])"
proof -
  let ?nvs = "[(''--input-primary-url'', ''a:1''), (''--input-secondary-url'', ''b:2'')]"
  obtain rc opts m where p: "command_line_parse (''tsr'' # concat (map (\<lambda>(n, v). [n, v]) ?nvs)) = (rc, opts, m)"
    by (metis prod_cases3)
  then have "rc = 0"
    by (simp add: command_line_parse_def command_line_parse_internal_def parse_options.simps(2)
        classify_names apply_option_def initial_options_def)
  moreover have "\<forall>(n, v) \<in> set ?nvs. takes_value n" by (simp add: takes_value_def classify_names)
  ultimately show ?thesis using command_line_no_repeats [of "''tsr''" ?nvs opts m] p by simp
qed

end
