(* ===== verification/Main_Theorems.thy ===== *)
theory Main_Theorems
  imports Main_Loop Origin Web_Theorems Command_Line_Theorems
begin

text \<open>
  The whole program: it ends, what it sends was received, and it gives back its descriptors.
\<close>

section \<open>What is sent was received\<close>

text \<open>The packets that can be cut out of what the inputs deliver in a run.\<close>

definition received_packets :: "loop_round list \<Rightarrow> bytes set" where
  "received_packets rs =
     (\<Union>r \<in> set rs. \<Union>i \<in> {0, 1}. case reception r i of
        Received d \<Rightarrow> packets_of (take INPUT_BUFFER_SIZE d) | _ \<Rightarrow> {})"

lemma whole_received: "whole_packets (received_packets rs)"
  using whole_packets_of by (auto simp: received_packets_def whole_packets_def split: recv_result.splits)

definition run_sourced :: "bytes set \<Rightarrow> int \<times> (u32 \<times> u16) option \<Rightarrow> bool \<times> run_state \<Rightarrow> bool" where
  "run_sourced S k x \<longleftrightarrow> sink_within S k (sink (run_engine (snd x))) \<and> (fst x \<longrightarrow> sourced S k (run_engine (snd x)))"

lemma sourced_sink: "sourced S k e \<Longrightarrow> sink_within S k (sink e)"
  by (simp add: sourced_def)

lemma free_sink [simp]:
  "sink (run_engine (free_engine s)) = sink (run_engine s)"
  "run_engine (close_web s) = run_engine s"
  by (simp_all add: free_engine_def recovery_engine_free_def zero_engine_def close_web_def split: prod.split)

lemma serve_web_sourced:
  assumes "sourced S k (run_engine s)" and "serve_web env w s = Some s'"
  shows "sourced S k (run_engine s')"
  using assms by (auto simp: serve_web_def split: if_splits)

lemma read_input_sourced:
  assumes "sourced S k (run_engine s)" and "\<And>d. r = Received d \<Longrightarrow> packets_of (take INPUT_BUFFER_SIZE d) \<subseteq> S"
    and "read_input i b r s = Some x"
  shows "run_sourced S k x"
proof (cases "\<exists>d. b \<and> r = Received d \<and> take INPUT_BUFFER_SIZE d \<noteq> []")
  case True
  then obtain d where d: "b" "r = Received d" "take INPUT_BUFFER_SIZE d \<noteq> []" by blast
  let ?b = "take INPUT_BUFFER_SIZE d"
  from d assms(3) obtain rc e where p: "process_datagram (run_engine s) i ?b = Some (rc, e)"
    and x: "x = (if rc \<noteq> 0 then (False, close_web (free_engine (s\<lparr>run_engine := e\<rparr>)))
      else (True, s\<lparr>run_engine := e\<rparr>))"
    by (auto simp: read_input_def input_udp_receive_def split: if_splits)
  have "sourced S k e" by (rule sourced_datagram [OF assms(1) _ assms(2) [OF d(2)] p]) simp
  with x show ?thesis by (simp add: run_sourced_def sourced_sink)
next
  case False
  with assms(3) have "x = (True, s) \<or> x = (False, free_engine s)"
    by (auto simp: read_input_def input_udp_receive_def split: if_splits recv_result.splits)
  with assms(1) show ?thesis by (auto simp: run_sourced_def sourced_sink)
qed

lemma print_report_sourced:
  assumes "sourced S k (run_engine s)"
  shows "sourced S k (run_engine (print_report env force s))"
proof -
  obtain a e1 where 1: "read_now_ns (run_engine s) = (a, e1)" by fastforce
  obtain b e2 where 2: "read_now_ns e1 = (b, e2)" by fastforce
  obtain c e3 where 3: "read_now_ns e2 = (c, e3)" by fastforce
  have "sourced S k e3" using assms sourced.read 1 2 3 by metis
  then show ?thesis
    by (simp add: print_report_def 1 2 3 read_wall_time_def Let_def sourced_def split: prod.split)
qed

lemma end_round_sourced:
  assumes "sourced S k (run_engine s)"
  shows "run_sourced S k (end_round env reporting s)"
proof -
  obtain rc e where d: "recovery_engine_drain (run_engine s) False = (rc, e)" by fastforce
  obtain t e1 where rd: "read_now_ns e = (t, e1)" by fastforce
  have ok: "sourced S k e" by (rule sourced.drain [OF assms d])
  have "sourced S k e1" by (rule sourced.read [OF ok rd])
  with ok show ?thesis
    by (auto simp: end_round_def d rd run_sourced_def sourced_sink Let_def
        intro!: print_report_sourced sourced_sink)
qed

lemma run_round_sourced:
  assumes "sourced S k (run_engine s)" and "received_packets [r] \<subseteq> S"
    and "run_round env reporting r s = Some x"
  shows "run_sourced S k x"
proof (cases "selected r")
  case (Select_Ready w p q)
  have rec: "reception r 0 = Received d \<Longrightarrow> packets_of (take INPUT_BUFFER_SIZE d) \<subseteq> S"
    "reception r 1 = Received d \<Longrightarrow> packets_of (take INPUT_BUFFER_SIZE d) \<subseteq> S" for d
    using assms(2) by (auto simp: received_packets_def)
  from assms(3) Select_Ready obtain s1 c0 s2 where
    w: "serve_web env w s = Some s1" and r0: "read_input 0 p (reception r 0) s1 = Some (c0, s2)"
    by (auto simp: run_round_def bind_eq_Some_conv)
  have x0: "run_sourced S k (c0, s2)"
    by (rule read_input_sourced [OF serve_web_sourced [OF assms(1) w] rec(1) r0])
  show ?thesis
  proof (cases c0)
    case False
    with assms(3) Select_Ready w r0 x0 show ?thesis by (auto simp: run_round_def)
  next
    case True
    with assms(3) Select_Ready w r0 obtain c1 s3 where
      r1: "read_input 1 q (reception r 1) s2 = Some (c1, s3)" by (auto simp: run_round_def bind_eq_Some_conv)
    have x1: "run_sourced S k (c1, s3)"
      using x0 True by (intro read_input_sourced [OF _ rec(2) r1]) (simp_all add: run_sourced_def)
    with assms(3) Select_Ready w r0 r1 True end_round_sourced [of S k s3] show ?thesis
      by (auto simp: run_round_def run_sourced_def split: if_splits)
  qed
next
  case Select_Failed
  with assms(1,3) show ?thesis by (auto simp: run_round_def run_sourced_def sourced_sink)
next
  case Select_Interrupted
  with assms(1,3) show ?thesis by (auto simp: run_round_def run_sourced_def sourced_sink)
qed

lemma run_rounds_sourced:
  assumes "sourced S k (run_engine s)" and "received_packets rs \<subseteq> S"
    and "run_rounds env reporting rs s = Some x"
  shows "run_sourced S k x"
  using assms
proof (induction rs arbitrary: s)
  case Nil
  then show ?case by (auto simp: run_sourced_def sourced_sink)
next
  case (Cons r rs)
  from Cons.prems(3) obtain c s1 where r: "run_round env reporting r s = Some (c, s1)"
    by (auto simp: bind_eq_Some_conv)
  have "received_packets [r] \<subseteq> S" "received_packets rs \<subseteq> S"
    using Cons.prems(2) by (auto simp: received_packets_def)
  moreover from run_round_sourced [OF Cons.prems(1) this(1) r] have x: "run_sourced S k (c, s1)" .
  ultimately show ?case using Cons.IH [of s1] Cons.prems(3) r x
    by (cases c) (auto simp: run_sourced_def)
qed

lemma run_loop_sourced:
  assumes "run_loop env rs (output_udp_opened fd a results) cfg port reporting s = Some (rc, out, s', lines)"
  shows "sink_within (received_packets rs) (fd, a) (output_udp_as_packet_sink out)"
proof -
  let ?S = "received_packets rs" and ?k = "(fd, a)" and ?out = "output_udp_opened fd a results"
  have fresh: "sink_within ?S ?k (output_udp_as_packet_sink ?out)"
    by (simp add: sink_within_def output_udp_as_packet_sink_def output_udp_opened_sane
        out_accepted_def out_bytes_def output_udp_opened_def chop.simps socket_of_def)
      (simp add: output_udp_opened_sane [unfolded output_udp_opened_def])
  have ctx: "sink_within ?S ?k (output_udp_as_packet_sink (sink_ctx x))" if "sink_within ?S ?k x" for x
    using that by (simp add: sink_within_def output_udp_as_packet_sink_def)
  obtain rc1 server s1 where w: "(if port \<noteq> 0 then web_server_open port ''webroot'' s
       else (0, \<lparr>web_fd = -1, webroot = []\<rparr>, s)) = (rc1, server, s1)" by (metis prod_cases3)
  obtain rc2 e where i: "recovery_engine_init_with_config (engine_alloc env) (output_udp_as_packet_sink ?out)
      (report_stats_init (start_reading env)) (engine_world env) cfg = (rc2, e)" by fastforce
  have sink: "sink e = output_udp_as_packet_sink ?out" using init_engine [OF i] by simp
  let ?s = "\<lparr>run_engine = e, run_web = server, web_enabled = port \<noteq> 0,
     run_web_fd = (if port \<noteq> 0 then web_fd server else -1), run_os = s1, console = []\<rparr>"
  consider "rc1 \<noteq> 0" | "rc1 = 0" "rc2 \<noteq> 0" | "rc1 = 0" "rc2 = 0" by blast
  then show ?thesis
  proof cases
    case 1
    with assms fresh show ?thesis by (simp add: run_loop_def w)
  next
    case 2
    with assms have "out = sink_ctx (sink e)" by (auto simp: run_loop_def w i loop_result_def Let_def)
    with fresh sink ctx show ?thesis by simp
  next
    case 3
    with assms obtain c s2 where r: "run_rounds env reporting rs ?s = Some (c, s2)"
      and res: "(rc, out, s', lines) =
        (if c then loop_result 0 (shut_down env reporting s2) else loop_result (-1) s2)"
      by (auto simp: run_loop_def w i)
    have "sourced ?S ?k e" using sourced_init [OF _ whole_received] i 3(2) by blast
    with run_rounds_sourced [OF _ subset_refl r] have x: "run_sourced ?S ?k (c, s2)" by simp
    have "sink_within ?S ?k (sink (run_engine (shut_down env reporting s2)))" if c
    proof -
      obtain f e2 where f: "recovery_engine_flush (run_engine s2) = (f, e2)" by fastforce
      have "sourced ?S ?k e2" using sourced_flush [OF _ f] x that by (simp add: run_sourced_def)
      then show ?thesis using print_report_sourced [of ?S ?k "s2\<lparr>run_engine := e2\<rparr>" env True]
        by (simp add: shut_down_def f Let_def sourced_sink)
    qed
    with x res ctx show ?thesis by (auto simp: loop_result_def run_sourced_def split: if_splits)
  qed
qed

text \<open>Datagrams as packets.\<close>

lemma chop_join: "188 dvd length a \<Longrightarrow> chop (a @ b) = chop a @ chop b"
proof (induction a rule: chop.induct)
  case (1 a)
  show ?case
  proof (cases "length a < 188")
    case True
    with "1.prems" have "a = []" by (auto dest: nat_dvd_not_less)
    then show ?thesis by (simp add: chop.simps [of "[]"])
  next
    case False
    with 1 have "chop (drop 188 a @ b) = chop (drop 188 a) @ chop b" by simp
    with False show ?thesis by (simp add: chop.simps [of "a @ b"] chop.simps [of a])
  qed
qed

lemma length_chop: "length (chop a) = length a div 188"
  by (induction a rule: chop.induct) (subst chop.simps, simp add: div_eq_0_iff le_div_geq)

lemma datagram_chopped:
  "\<forall>d \<in> set ds. length d = 1316 \<Longrightarrow> d \<in> set ds \<Longrightarrow> set (chop d) \<subseteq> set (chop (concat ds @ rest))"
  by (induction ds) (auto simp: chop_join)

text \<open>
  C2. What the program sends was received. Whatever the system, the peers and the clocks do, each
  datagram it sends is made of exactly seven whole packets, and each of them is, byte for
  byte, a packet cut out of a datagram that one of the two inputs delivered: repair and
  failover select packets, but never make or change one.
\<close>

theorem main_output_was_received:
  assumes "program_main env argv rounds s = Some (code, ds, s', lines)"
  shows "list_all (\<lambda>d. \<exists>ps. d = concat ps \<and> length ps = 7 \<and> set ps \<subseteq> received_packets rounds) ds"
proof -
  have "\<exists>ps. d = concat ps \<and> length ps = 7 \<and> set ps \<subseteq> received_packets rounds" if d: "d \<in> set ds" for d
  proof -
    obtain rc opts m where p: "command_line_parse argv = (rc, opts, m)" by (metis prod_cases3)
    obtain rc0 in0 s0 where i0: "input_udp_open_with_interface (pton env) (the (input_primary_url opts))
        (input_primary_interface opts) s = (rc0, in0, s0)" by (metis prod_cases3)
    obtain rc1 in1 s1 where i1: "input_udp_open_with_interface (pton env) (the (input_secondary_url opts))
        (input_secondary_interface opts) s0 = (rc1, in1, s1)" by (metis prod_cases3)
    obtain rc2 out s2 where o: "output_udp_open (pton env) (output_alloc env) (sendto_results env)
        (output_url opts) s1 = (rc2, out, s2)" by (metis prod_cases3)
    have zero: "\<not> 0 < rc \<and> \<not> rc < 0 \<and> rc0 = 0 \<and> rc1 = 0 \<and> rc2 = 0"
      using assms d by (auto simp: program_main_def p i0 i1 o split: if_splits)
    then obtain rc3 out' s3 where r: "run_loop env rounds out (recovery_config opts) (http_port opts)
        (console_report opts) s2 = Some (rc3, out', s3, lines)" and ds: "ds = datagrams out'"
      using assms by (auto simp: program_main_def p i0 i1 o)
    obtain fd a where "out = output_udp_opened fd a (sendto_results env)"
      using output_open_keeps_descriptors [OF o] zero by auto
    with run_loop_sourced r have "sink_within (received_packets rounds) (fd, a) (output_udp_as_packet_sink out')" by blast
    then have sane: "out_sane out'" and sub: "set (chop (out_bytes out')) \<subseteq> received_packets rounds"
      by (simp_all add: sink_within_def output_udp_as_packet_sink_def out_accepted_def)
    have len: "\<forall>d \<in> set ds. length d = 1316" using sane by (simp add: out_sane_def ds output_sizes)
    have "d = concat (chop d)" "length (chop d) = 7"
      using len d concat_chop [of d] by (simp_all add: length_chop)
    moreover have "set (chop d) \<subseteq> received_packets rounds"
      using datagram_chopped [OF len d] sub unfolding out_bytes_def ds by blast
    ultimately show ?thesis by blast
  qed
  then show ?thesis by (simp add: list_all_iff)
qed

section \<open>Descriptors\<close>

text \<open>The web server of the loop: open (if it was \<open>opened\<close>) above the descriptors of \<open>s0\<close>, or closed.\<close>

definition web_held :: "os \<Rightarrow> bool \<Rightarrow> run_state \<Rightarrow> bool" where
  "web_held s0 opened s \<longleftrightarrow>
     (opened \<and> 0 \<le> web_fd (run_web s) \<and> acquires s0 (run_os s) [web_fd (run_web s)] \<or>
      web_fd (run_web s) = -1 \<and> acquires s0 (run_os s) []) \<and>
     run_web_fd s = web_fd (run_web s) \<and> web_enabled s = (0 \<le> web_fd (run_web s))"

lemma web_held_engine [simp]: "web_held s0 opened (s\<lparr>run_engine := e\<rparr>) = web_held s0 opened s"
  "web_held s0 opened (s\<lparr>console := l\<rparr>) = web_held s0 opened s"
  by (simp_all add: web_held_def)

lemma web_held_free [simp]: "web_held s0 opened (free_engine s) = web_held s0 opened s"
  by (simp add: free_engine_def)

lemma acquires_close:
  assumes "acquires s0 s (l @ [fd])" and "length l \<le> 1"
  shows "acquires s0 (snd (os_do (Sys_close fd) s)) l"
proof -
  obtain t where t: "os_trace s = os_trace s0 @ t" "os_reply s = os_reply s0"
      "\<forall>fds. uses_open t fds \<and> descriptors t fds = l @ fd # fds"
    using assms(1) by (auto simp: acquires_def)
  have "remove1 fd (l @ fd # fds) = l @ fds" for fds using assms(2) by (cases l) auto
  with t show ?thesis unfolding acquires_def
    by (intro exI [of _ "t @ [(Sys_close fd, os_reply s (length (os_trace s)))]"])
      (auto simp: os_do_def Let_def)
qed

lemma close_web_releases: "web_held s0 opened s \<Longrightarrow> acquires s0 (run_os (close_web s)) []"
  using acquires_close [of s0 "run_os s" "[]" "web_fd (run_web s)"]
  by (auto simp: web_held_def close_web_def web_server_close_def)

text \<open>What a part of the loop leaves open: the web server goes on, or at most it is lost.\<close>

definition run_held :: "os \<Rightarrow> bool \<Rightarrow> bool \<Rightarrow> bool \<times> run_state \<Rightarrow> bool" where
  "run_held s0 opened failed x \<longleftrightarrow>
     (if fst x then web_held s0 opened (snd x)
      else \<exists>lost. acquires s0 (run_os (snd x)) lost \<and> length lost \<le> 1 \<and> (lost \<noteq> [] \<longrightarrow> opened \<and> failed))"

lemma run_held_returns: "acquires s0 (run_os s) [] \<Longrightarrow> run_held s0 opened failed (False, s)"
  by (auto simp: run_held_def)

lemma run_held_lost: "web_held s0 opened s \<Longrightarrow> run_held s0 opened True (False, free_engine s)"
  by (auto simp: run_held_def web_held_def free_engine_def)

lemma run_held_goes_on: "run_held s0 opened failed (True, s) = web_held s0 opened s"
  by (simp add: run_held_def)

lemma serve_web_held:
  assumes "web_held s0 opened s" and "serve_web env w s = Some s'"
  shows "web_held s0 opened s'"
proof (cases "web_enabled s \<and> w")
  case False
  with assms show ?thesis by (simp add: serve_web_def)
next
  case True
  let ?fd = "web_fd (run_web s)"
  have fd: "0 \<le> ?fd" opened and acq: "acquires s0 (run_os s) [?fd]" and eq: "(run_web s)\<lparr>web_fd := run_web_fd s\<rparr> = run_web s"
    using assms(1) True by (auto simp: web_held_def)
  from assms(2) True eq obtain server st os cs where
    h: "web_server_handle_ready (web_side env) (run_web s) (stats (run_engine s)) (run_os s) [] =
        Some (server, st, os, cs)"
    and s': "s' = s\<lparr>run_web := server, run_engine := (run_engine s)\<lparr>stats := st\<rparr>, run_os := os,
        run_web_fd := web_fd server, web_enabled := 0 \<le> web_fd server\<rparr>"
    by (auto simp: serve_web_def)
  from handle_ready_descriptors [OF h fd(1)] fd acquires_then [OF acq]
  show ?thesis by (auto simp: web_held_def s')
qed

lemma read_input_held:
  assumes "web_held s0 opened s" and "read_input i b r s = Some x"
  shows "run_held s0 opened (r = Recv_Error) x"
proof (cases "b \<and> r = Recv_Error")
  case True
  with assms(2) have "x = (False, free_engine s)"
    by (auto simp: read_input_def input_udp_receive_def)
  with True run_held_lost [OF assms(1)] show ?thesis by simp
next
  case False
  with assms(2) have "(\<exists>e. x = (True, s\<lparr>run_engine := e\<rparr>)) \<or> x = (True, s) \<or>
      (\<exists>e. x = (False, close_web (free_engine (s\<lparr>run_engine := e\<rparr>))))"
    by (auto simp: read_input_def input_udp_receive_def split: if_splits recv_result.splits)
  with assms(1) show ?thesis
    by (auto simp: run_held_goes_on intro!: run_held_returns close_web_releases)
qed

lemma print_report_held: "web_held s0 opened (print_report env force s) = web_held s0 opened s"
  by (simp add: print_report_def web_held_def Let_def split: prod.split)

lemma end_round_held:
  assumes "web_held s0 opened s"
  shows "run_held s0 opened failed (end_round env reporting s)"
  using assms
  by (auto simp: end_round_def Let_def run_held_goes_on print_report_held split: prod.split
      intro!: run_held_returns close_web_releases)

text \<open>The open web server really stays open when \<open>recv\<close> fails.\<close>

lemma recv_error_leaves_web_server:
  assumes "web_held s0 opened s" and "web_enabled s"
  shows "\<exists>s'. read_input i True Recv_Error s = Some (False, s') \<and>
     acquires s0 (run_os s') [web_fd (run_web s)]"
  using assms by (auto simp: read_input_def input_udp_receive_def web_held_def free_engine_def)

definition recv_fails :: "loop_round list \<Rightarrow> bool" where
  "recv_fails rs \<longleftrightarrow> (\<exists>r \<in> set rs. reception r 0 = Recv_Error \<or> reception r 1 = Recv_Error)"

lemma run_held_mono: "run_held s0 opened a x \<Longrightarrow> (a \<Longrightarrow> b) \<Longrightarrow> run_held s0 opened b x"
  by (auto simp: run_held_def split: if_splits)

lemma run_round_held:
  assumes "web_held s0 opened s" and "run_round env reporting r s = Some x"
  shows "run_held s0 opened (recv_fails [r]) x"
proof (cases "selected r")
  case (Select_Ready w p q)
  from assms(2) Select_Ready obtain s1 c0 s2 where
    w: "serve_web env w s = Some s1" and r0: "read_input 0 p (reception r 0) s1 = Some (c0, s2)"
    by (auto simp: run_round_def bind_eq_Some_conv)
  have x0: "run_held s0 opened (recv_fails [r]) (c0, s2)"
    by (rule run_held_mono [OF read_input_held [OF serve_web_held [OF assms(1) w] r0]])
      (simp add: recv_fails_def)
  show ?thesis
  proof (cases c0)
    case False
    with assms(2) Select_Ready w r0 x0 show ?thesis by (auto simp: run_round_def)
  next
    case True
    with assms(2) Select_Ready w r0 obtain c1 s3 where
      r1: "read_input 1 q (reception r 1) s2 = Some (c1, s3)" by (auto simp: run_round_def bind_eq_Some_conv)
    have x1: "run_held s0 opened (recv_fails [r]) (c1, s3)"
      by (rule run_held_mono [OF read_input_held [OF _ r1]])
        (use x0 True in \<open>simp_all add: run_held_goes_on recv_fails_def\<close>)
    show ?thesis
    proof (cases c1)
      case True
      with assms(2) Select_Ready w r0 r1 \<open>c0\<close> x1 end_round_held [of s0 opened s3] show ?thesis
        by (auto simp: run_round_def run_held_goes_on)
    next
      case False
      with assms(2) Select_Ready w r0 r1 \<open>c0\<close> x1 show ?thesis by (auto simp: run_round_def)
    qed
  qed
next
  case Select_Failed
  with assms show ?thesis
    by (auto simp: run_round_def intro!: run_held_returns close_web_releases)
next
  case Select_Interrupted
  with assms show ?thesis by (auto simp: run_round_def run_held_goes_on)
qed

lemma run_rounds_held:
  assumes "web_held s0 opened s" and "run_rounds env reporting rs s = Some x"
  shows "run_held s0 opened (recv_fails rs) x"
  using assms
proof (induction rs arbitrary: s)
  case Nil
  then show ?case by (auto simp: run_held_goes_on)
next
  case (Cons r rs)
  from Cons.prems(2) obtain c s1 where r: "run_round env reporting r s = Some (c, s1)"
    by (auto simp: bind_eq_Some_conv)
  have x: "run_held s0 opened (recv_fails (r # rs)) (c, s1)"
    by (rule run_held_mono [OF run_round_held [OF Cons.prems(1) r]]) (auto simp: recv_fails_def)
  show ?case
  proof (cases c)
    case True
    with x Cons.prems(2) r have "run_held s0 opened (recv_fails rs) x"
      by (intro Cons.IH [of s1]) (simp_all add: run_held_goes_on)
    then show ?thesis by (rule run_held_mono) (auto simp: recv_fails_def)
  next
    case False
    with x Cons.prems(2) r show ?thesis by auto
  qed
qed

text \<open>Opening the web server: a socket, or nothing.\<close>

lemma web_close_runs:
  assumes "web_fd server = fd" and "0 \<le> fd"
  shows "runs_on fd s (snd (web_server_close server s)) []"
proof -
  obtain r s' where c: "os_do (Sys_close fd) s = (r, s')" by fastforce
  have "runs_on fd s s' []" by (rule runs_on_step [OF c]) simp_all
  with assms c show ?thesis by (simp add: web_server_close_def)
qed

lemma web_open_held:
  assumes "web_server_open port docroot s = (rc, server, s')"
  shows "rc = 0 \<and> 0 \<le> web_fd server \<and> acquires s s' [web_fd server] \<or>
    rc = -1 \<and> web_fd server < 0 \<and> acquires s s' []"
proof -
  obtain fd s1 where c: "os_do Sys_socket_stream s = (fd, s1)" by fastforce
  let ?w = "\<lparr>web_fd = fd, webroot = take 255 docroot\<rparr>"
  have got: "acquires s s1 (if fd < 0 then [] else [fd])" using c unfolding acquires_def
    by (intro exI [of _ "[(Sys_socket_stream, fd)]"]) (auto simp: os_do_def Let_def)
  show ?thesis
  proof (cases "fd < 0")
    case True
    with assms c got show ?thesis by (auto simp: web_server_open_def Let_def)
  next
    case False
    have fail: ?thesis if "(rc, server, s') = (-1, web_server_close ?w sx)" and "runs_on fd s1 sx [fd]" for sx
    proof -
      have "acquires s s1 [fd]" using got False by simp
      moreover have "runs_on fd s1 (snd (web_server_close ?w sx)) []"
        by (rule runs_on_trans [OF that(2) web_close_runs]) (use False in simp_all)
      ultimately have "acquires s (snd (web_server_close ?w sx)) []" by (rule acquires_then)
      then have "acquires s s' []" using that(1) by (metis snd_conv)
      moreover have "web_fd server = -1" using that(1) False by (auto simp: web_server_close_def)
      ultimately show ?thesis using that(1) by simp
    qed
    obtain r2 s2 where c2: "os_do (Sys_setsockopt fd Reuse_Addr) s1 = (r2, s2)" by fastforce
    obtain r3 s3 where c3: "set_nonblocking fd s2 = (r3, s3)" by fastforce
    obtain r4 s4 where c4: "os_do (Sys_bind fd INADDR_LOOPBACK port) s3 = (r4, s4)" by fastforce
    obtain r5 s5 where c5: "os_do (Sys_listen fd 16) s4 = (r5, s5)" by fastforce
    have n: "runs_on fd s2 s3 [fd]" using set_nonblocking_trace [OF c3] by (auto simp: runs_on_def)
    have 2: "runs_on fd s1 s2 [fd]" by (rule runs_on_plain [OF c2]) simp_all
    have 3: "runs_on fd s1 s3 [fd]" by (rule runs_on_trans [OF 2 n])
    have 4: "runs_on fd s1 s4 [fd]" by (rule runs_on_trans [OF 3 runs_on_plain [OF c4]]) simp_all
    have 5: "runs_on fd s1 s5 [fd]" by (rule runs_on_trans [OF 4 runs_on_plain [OF c5]]) simp_all
    have open_now: "acquires s s5 [fd]" using acquires_then [OF _ 5] got False by simp
    have res: "(rc, server, s') = (if r2 \<noteq> 0 then (-1, web_server_close ?w s2)
        else if r3 \<noteq> 0 then (-1, web_server_close ?w s3)
        else if r4 \<noteq> 0 then (-1, web_server_close ?w s4)
        else if r5 \<noteq> 0 then (-1, web_server_close ?w s5) else (0, ?w, s5))"
      unfolding assms [symmetric] using False by (simp add: web_server_open_def c c2 c3 c4 c5)
    show ?thesis
    proof (cases "r2 \<noteq> 0 \<or> r3 \<noteq> 0 \<or> r4 \<noteq> 0 \<or> r5 \<noteq> 0")
      case True
      with res have "\<exists>sx. (rc, server, s') = (-1, web_server_close ?w sx) \<and> runs_on fd s1 sx [fd]"
        using 2 3 4 5 by (simp split: if_splits) blast+
      then show ?thesis using fail by blast
    next
      case ok: False
      with res open_now False show ?thesis by simp
    qed
  qed
qed

lemma run_loop_held:
  assumes "run_loop env rs out cfg port reporting s = Some (rc, out', s', lines)"
  shows "\<exists>lost. acquires s s' lost \<and> length lost \<le> 1 \<and>
    (lost \<noteq> [] \<longrightarrow> port \<noteq> 0 \<and> recv_fails rs \<and> rc = -1)"
proof -
  obtain rc1 server s1 where w: "(if port \<noteq> 0 then web_server_open port ''webroot'' s
       else (0, \<lparr>web_fd = -1, webroot = []\<rparr>, s)) = (rc1, server, s1)" by (metis prod_cases3)
  obtain rc2 e where i: "recovery_engine_init_with_config (engine_alloc env) (output_udp_as_packet_sink out)
      (report_stats_init (start_reading env)) (engine_world env) cfg = (rc2, e)" by fastforce
  let ?s = "\<lparr>run_engine = e, run_web = server, web_enabled = port \<noteq> 0,
     run_web_fd = (if port \<noteq> 0 then web_fd server else -1), run_os = s1, console = []\<rparr>"
  have web: "rc1 = 0 \<and> web_held s (port \<noteq> 0) ?s \<or> rc1 = -1 \<and> acquires s s1 []"
    using w web_open_held [of port "''webroot''" s rc1 server s1]
    by (auto simp: web_held_def acquires_refl split: if_splits)
  consider "rc1 \<noteq> 0" | "rc1 = 0" "rc2 \<noteq> 0" | "rc1 = 0" "rc2 = 0" by blast
  then show ?thesis
  proof cases
    case 1
    with assms web show ?thesis by (auto simp: run_loop_def w intro: exI [of _ "[]"])
  next
    case 2
    with assms have "s' = run_os (close_web ?s)" by (auto simp: run_loop_def w i loop_result_def Let_def)
    with close_web_releases [of s "port \<noteq> 0" ?s] web 2 show ?thesis by (auto intro: exI [of _ "[]"])
  next
    case 3
    with assms obtain c s2 where r: "run_rounds env reporting rs ?s = Some (c, s2)"
      and res: "(rc, out', s', lines) =
        (if c then loop_result 0 (shut_down env reporting s2) else loop_result (-1) s2)"
      by (auto simp: run_loop_def w i)
    have x: "run_held s (port \<noteq> 0) (recv_fails rs) (c, s2)"
      using web 3 by (intro run_rounds_held [OF _ r]) simp
    show ?thesis
    proof (cases c)
      case True
      with x have "web_held s (port \<noteq> 0) s2" by (simp add: run_held_goes_on)
      then have "acquires s (run_os (shut_down env reporting s2)) []"
        by (auto simp: shut_down_def Let_def print_report_held intro!: close_web_releases)
      with True res show ?thesis by (auto simp: loop_result_def intro: exI [of _ "[]"])
    next
      case False
      with x res show ?thesis by (auto simp: loop_result_def run_held_def)
    qed
  qed
qed

text \<open>Closing the sockets below a descriptor that may be lost.\<close>

lemma acquires_input_close:
  assumes "acquires s0 s (l @ [in_fd input])" and "length l \<le> 1" and "0 \<le> in_fd input"
  shows "acquires s0 (snd (input_udp_close input s)) l"
proof -
  obtain t where t: "os_trace s = os_trace s0 @ t" "os_reply s = os_reply s0"
      "\<forall>fds. uses_open t fds \<and> descriptors t fds = l @ in_fd input # fds"
    using assms(1) by (auto simp: acquires_def)
  have "acquires s0 s' (l @ [in_fd input])" if "os_do (Sys_setsockopt (in_fd input) opt) s = (r, s')" for opt r s'
    using t that unfolding acquires_def
    by (intro exI [of _ "t @ [(Sys_setsockopt (in_fd input) opt, r)]"]) (auto simp: os_do_def Let_def)
  from acquires_close [OF this assms(2)] acquires_close [OF assms(1,2)] assms(3) show ?thesis
    by (auto simp: input_udp_close_def Let_def split: prod.split)
      (metis surjective_pairing snd_conv)+
qed

lemma acquires_output_close:
  assumes "acquires s0 s (l @ [out_fd out])" and "length l \<le> 1" and "0 \<le> out_fd out"
  shows "acquires s0 (snd (output_udp_close out s)) l"
  using acquires_close [OF assms(1,2)] assms(3) by (simp add: output_udp_close_def Let_def)



section \<open>The program ends\<close>

text \<open>
  What the web interface needs of the outside: at some point the system accepts no more
  clients, and no client is interrupted for ever.
\<close>

definition web_calms :: "main_env \<Rightarrow> os \<Rightarrow> bool" where
  "web_calms env s \<longleftrightarrow>
     (\<forall>k. patient (client_at (web_side env) k)) \<and> (\<exists>N. \<forall>n \<ge> N. os_reply s n < 0)"

lemma acquiresE:
  assumes "acquires s s' l"
  obtains "os_reply s' = os_reply s"
  using assms by (auto simp: acquires_def)

lemma web_calms_later: "acquires s s' l \<Longrightarrow> web_calms env s' = web_calms env s"
  unfolding web_calms_def by (elim acquiresE) simp

lemma web_held_reply: "web_held s0 opened s \<Longrightarrow> os_reply (run_os s) = os_reply s0"
  by (auto simp: web_held_def acquires_def)

lemma read_input_ends: "read_input i b r s \<noteq> None"
proof -
  have "process_datagram e i (take INPUT_BUFFER_SIZE d) \<noteq> None" for e :: "output_udp recovery_engine" and d
    using process_datagram_scan [of "take INPUT_BUFFER_SIZE d" e i] by simp
  then show ?thesis
    by (simp add: read_input_def input_udp_receive_def del: not_None_eq split: recv_result.split)
qed

lemma run_round_ends:
  assumes "web_held s0 opened s" and "web_calms env s0"
  shows "run_round env reporting r s \<noteq> None"
proof -
  obtain N where N: "\<forall>n \<ge> N. os_reply (run_os s) n < 0"
    using assms web_held_reply [OF assms(1)] by (auto simp: web_calms_def)
  have "web_server_handle_ready (web_side env) ((run_web s)\<lparr>web_fd := run_web_fd s\<rparr>)
      (stats (run_engine s)) (run_os s) [] \<noteq> None"
    using handle_ready_ends [OF _ N] assms(2) by (auto simp: web_calms_def)
  then have "serve_web env b s \<noteq> None" for b by (simp add: serve_web_def del: not_None_eq)
  then show ?thesis
    using read_input_ends [of 0] read_input_ends [of 1]
    by (simp add: run_round_def bind_eq_None_conv del: not_None_eq
        split: select_result.split prod.split)
qed

lemma run_rounds_end:
  assumes "web_held s0 opened s" and "web_calms env s0"
  shows "run_rounds env reporting rs s \<noteq> None"
  using assms(1)
proof (induction rs arbitrary: s)
  case Nil
  then show ?case by simp
next
  case (Cons r rs)
  obtain c s1 where r: "run_round env reporting r s = Some (c, s1)"
    using run_round_ends [OF Cons.prems assms(2), of reporting r] by auto
  show ?case
  proof (cases c)
    case True
    with run_round_held [OF Cons.prems r] have "web_held s0 opened s1" by (simp add: run_held_goes_on)
    from Cons.IH [OF this] r True show ?thesis by simp
  next
    case False
    with r show ?thesis by simp
  qed
qed

lemma run_loop_ends:
  assumes "web_calms env s"
  shows "run_loop env rs out cfg port reporting s \<noteq> None"
proof -
  obtain rc1 server s1 where w: "(if port \<noteq> 0 then web_server_open port ''webroot'' s
       else (0, \<lparr>web_fd = -1, webroot = []\<rparr>, s)) = (rc1, server, s1)" by (metis prod_cases3)
  obtain rc2 e where i: "recovery_engine_init_with_config (engine_alloc env) (output_udp_as_packet_sink out)
      (report_stats_init (start_reading env)) (engine_world env) cfg = (rc2, e)" by fastforce
  let ?s = "\<lparr>run_engine = e, run_web = server, web_enabled = port \<noteq> 0,
     run_web_fd = (if port \<noteq> 0 then web_fd server else -1), run_os = s1, console = []\<rparr>"
  show ?thesis
  proof (cases "rc1 = 0")
    case False
    then show ?thesis by (simp add: run_loop_def w)
  next
    case True
    then have "web_held s (port \<noteq> 0) ?s"
      using w web_open_held [of port "''webroot''" s rc1 server s1]
      by (auto simp: web_held_def acquires_refl split: if_splits)
    from run_rounds_end [OF this assms] True show ?thesis
      by (simp add: run_loop_def w i Let_def del: not_None_eq)
  qed
qed

lemma program_main_ends:
  assumes "web_calms env s"
  shows "program_main env argv rounds s \<noteq> None"
proof -
  obtain rc opts m where p: "command_line_parse argv = (rc, opts, m)" by (metis prod_cases3)
  obtain rc0 in0 s0 where i0: "input_udp_open_with_interface (pton env) (the (input_primary_url opts))
      (input_primary_interface opts) s = (rc0, in0, s0)" by (metis prod_cases3)
  obtain rc1 in1 s1 where i1: "input_udp_open_with_interface (pton env) (the (input_secondary_url opts))
      (input_secondary_interface opts) s0 = (rc1, in1, s1)" by (metis prod_cases3)
  obtain rc2 out s2 where o: "output_udp_open (pton env) (output_alloc env) (sendto_results env)
      (output_url opts) s1 = (rc2, out, s2)" by (metis prod_cases3)
  have "web_calms env s0" using assms input_open_keeps_descriptors [OF i0] web_calms_later by blast
  then have "web_calms env s1" using input_open_keeps_descriptors [OF i1] web_calms_later by blast
  then have "web_calms env s2" using output_open_keeps_descriptors [OF o] web_calms_later by blast
  from run_loop_ends [OF this] show ?thesis
    by (simp add: program_main_def p i0 i1 o del: not_None_eq)
qed

lemma program_main_code:
  assumes "program_main env argv rounds s = Some (code, ds, s', lines)"
  shows "code = EXIT_SUCCESS \<or> code = EXIT_FAILURE"
  using assms by (auto simp: program_main_def split: prod.splits if_splits)


section \<open>Instances\<close>

text \<open>
  A run of three rounds with the web server: a datagram on each input, a client, and then a
  failing \<open>recv\<close>. The 40th system call and all later ones fail.
\<close>

definition ex_main :: main_env where
  "ex_main = \<lparr>pton = (\<lambda>_. Some 0x7f000001), output_alloc = True, engine_alloc = (\<lambda>_. True),
     sendto_results = (\<lambda>_. 1316), web_side = ex_env (\<lambda>_. No_File), start_reading = 0,
     engine_world = ex_world\<rparr>"

definition ex_rounds :: "loop_round list" where
  "ex_rounds =
     [\<lparr>selected = Select_Ready True True True, reception = (\<lambda>_. Received ex_datagram)\<rparr>,
      \<lparr>selected = Select_Interrupted, reception = (\<lambda>_. Would_Block)\<rparr>,
      \<lparr>selected = Select_Ready False True False, reception = (\<lambda>_. Recv_Error)\<rparr>]"

definition ex_os :: os where
  "ex_os = \<lparr>os_reply = (\<lambda>n. if n < 40 then 0 else -1), os_trace = []\<rparr>"

lemma ex_calms: "web_calms ex_main ex_os"
  unfolding web_calms_def patient_def
  by (intro conjI allI exI [of _ 1] exI [of _ 40])
    (simp_all add: ex_main_def ex_env_def ex_client_def ex_os_def)


lemma main_output_was_received_witness:
  "\<exists>code ds s' lines. program_main ex_main (''tsr'' # arguments_of ex_options) ex_rounds ex_os =
       Some (code, ds, s', lines) \<and>
     list_all (\<lambda>d. \<exists>ps. d = concat ps \<and> length ps = 7 \<and> set ps \<subseteq> received_packets ex_rounds) ds"
proof -
  obtain code ds s' lines where r: "program_main ex_main (''tsr'' # arguments_of ex_options) ex_rounds ex_os =
      Some (code, ds, s', lines)"
    using program_main_ends [OF ex_calms, of "''tsr'' # arguments_of ex_options" ex_rounds] by auto
  from r main_output_was_received [OF r] show ?thesis by blast
qed


end
