(* ===== verification/Main_Invariant.thy ===== *)
theory Main_Invariant
  imports Main_Theorems
begin

text \<open>
  The engine inside the program stays well-formed. The invariant of \<open>Engine_Invariant\<close> needs that
  no stream index reaches the largest 64-bit value: here that follows from the size of the receive
  buffer, since a round pushes at most 64 packets on an input.
\<close>

definition counted :: "nat \<Rightarrow> 's recovery_engine \<Rightarrow> bool" where
  "counted n e \<longleftrightarrow> engine_ok e \<and> unat (next_stream_index e 0) \<le> n \<and> unat (next_stream_index e 1) \<le> n"

lemma counted_mono: "counted n e \<Longrightarrow> n \<le> m \<Longrightarrow> counted m e"
  by (simp add: counted_def)

lemma counted_stats: "counted n e \<Longrightarrow> same_status (stats e) st \<Longrightarrow> counted n (e\<lparr>stats := st\<rparr>)"
  by (auto simp: counted_def engine_ok_def al_ok_def same_status_def)

section \<open>Counting keeps the status\<close>

lemma same_status_counting [simp]:
  "same_status st (report_stats_tick st' t) = same_status st st'"
  "same_status st (update_stream_health st' t) = same_status st st'"
  "same_status st (report_stats_observe_datagram st' i n) = same_status st st'"
  "same_status st (report_stats_observe_packet st' i info t) = same_status st st'"
  "same_status st (st'\<lparr>last_report_ns := n'\<rparr>) = same_status st st'"
  by (simp_all add: same_status_def report_stats_tick_def capture_rolling_sample_def
      update_stream_health_def report_stats_observe_datagram_def report_stats_observe_packet_def
      reset_stream_continuity_def store_continuity_def Let_def)

lemma print_status:
  "report_stats_maybe_print f a b c d st force = (line, st') \<Longrightarrow> same_status st st'"
  by (auto simp: report_stats_maybe_print_def Let_def split: if_splits)

lemma counted_count:
  "counted n (count_malformed i b e) = counted n e"
  "counted n (count_partial i e) = counted n e"
  "counted n (observe_datagram i d e) = counted n e"
  by (auto simp: counted_def engine_ok_def al_ok_def count_malformed_def count_partial_def
      observe_datagram_def report_stats_observe_datagram_def Let_def)

section \<open>Pushing\<close>

text \<open>Draining numbers nothing.\<close>

interpretation numbering: drain_preserves "\<lambda>e. engine_ok e \<and> next_stream_index e = ns" for ns
proof
  fix e e' :: "'s recovery_engine" and t x :: u64 and i rc :: int and P r p
  assume ok: "engine_ok e \<and> next_stream_index e = ns"
  show "engine_ok e' \<and> next_stream_index e' = ns" if "read_now_ns e = (t, e')"
    using engine_ok.read [OF conjunct1 [OF ok] that] ok outputsD(6) [OF read_now_frame [OF that]] by simp
  show "engine_ok (e\<lparr>primary_return_start_ns := x\<rparr>) \<and> next_stream_index (e\<lparr>primary_return_start_ns := x\<rparr>) = ns"
    using engine_ok.holdoff [OF conjunct1 [OF ok]] ok by simp
  show "engine_ok (set_active_output_stream e i) \<and> next_stream_index (set_active_output_stream e i) = ns"
    using engine_ok.active [OF conjunct1 [OF ok]] ok by simp
  show "engine_ok (e\<lparr>primary_queue := discard_while_queue P (primary_queue e)\<rparr>) \<and>
      next_stream_index (e\<lparr>primary_queue := discard_while_queue P (primary_queue e)\<rparr>) = ns"
    using engine_ok.discard_primary [OF conjunct1 [OF ok]] ok by simp
  show "engine_ok (e\<lparr>secondary_queue := discard_while_queue P (secondary_queue e)\<rparr>) \<and>
      next_stream_index (e\<lparr>secondary_queue := discard_while_queue P (secondary_queue e)\<rparr>) = ns"
    using engine_ok.discard_secondary [OF conjunct1 [OF ok]] ok by simp
  show "engine_ok (e\<lparr>secondary_queue := delay_queue_pop (secondary_queue e)\<rparr>) \<and>
      next_stream_index (e\<lparr>secondary_queue := delay_queue_pop (secondary_queue e)\<rparr>) = ns"
    using engine_ok.pop_secondary [OF conjunct1 [OF ok]] ok by simp
  show "engine_ok e' \<and> next_stream_index e' = ns"
    if "delay_queue_front (secondary_queue e) = Some r" "output_record e r = (rc, e')"
    using engine_ok.send_secondary [OF conjunct1 [OF ok] that] ok outputsD(6) [OF output_record_outputs [OF that(2)]] by simp
  show "engine_ok e' \<and> next_stream_index e' = ns"
    if "delay_queue_front (primary_queue e) = Some p" "drain_packet e p = (rc, e')"
    using engine_ok.packet [OF conjunct1 [OF ok] that] ok drain_packet_same [OF that(2)] by (simp add: same_inputs_def)
qed

lemma counted_drain:
  assumes "counted n e" and "recovery_engine_drain e force = (rc, e')"
  shows "counted n e'"
  using assms numbering.drain [of e "next_stream_index e" force rc e'] by (simp add: counted_def)

lemma accept_numbers:
  assumes "accept_packet e sid pkt info = (rc, e')" and "sid = 0 \<or> sid = 1"
  shows "next_stream_index e' = (next_stream_index e)(sid := next_stream_index e sid + 1)"
proof -
  obtain r e1 e2 where rec: "record_of e sid pkt info = (r, e1)"
    and learn: "learns (store_record e1 sid r) e2" and enq: "enqueue_record e2 sid r = (rc, e')"
    using assms(1) by (rule accept_packet_steps)
  have "next_stream_index e1 = (next_stream_index e)(sid := next_stream_index e sid + 1)"
    by (subst record_of_frame(5) [OF rec]) simp
  moreover have "next_stream_index e2 = next_stream_index e1"
    using learn by (simp add: learns_def store_record_push)
  moreover have "next_stream_index e' = next_stream_index e2"
    using enq assms(2) enqueue_primary [of e2 r] enqueue_secondary [of e2 r] by (auto simp: Let_def)
  ultimately show ?thesis by simp
qed

lemma counted_push:
  assumes "counted n e" and "Suc n < 2 ^ 64" and "sid = 0 \<or> sid = 1"
    and "recovery_engine_push_packet e sid pkt info = (rc, e')"
  shows "counted (Suc n) e'"
proof -
  obtain c e1 where acc: "accept_packet e sid pkt info = (c, e1)" by fastforce
  have "unat (next_stream_index e sid) < 2 ^ 64 - 1" using assms(1-3) by (auto simp: counted_def)
  then have no: "next_stream_index e sid \<noteq> - 1" by (auto simp: unsigned_minus_1_eq_mask mask_eq_exp_minus_1)
  from engine_ok_accept [OF _ assms(3) no acc] assms(1) have ok: "engine_ok e1" "c = 0"
    by (simp_all add: counted_def)
  have "next_stream_index e sid < - 1" using no by (simp add: order_less_le)
  from unat_inc_less [OF this] have "unat (next_stream_index e sid + 1) = Suc (unat (next_stream_index e sid))" .
  then have "counted (Suc n) e1"
    using ok accept_numbers [OF acc assms(3)] assms(1,3) by (auto simp: counted_def)
  moreover have "recovery_engine_drain e1 False = (rc, e')"
    using assms(3,4) acc ok(2) by (auto simp: recovery_engine_push_packet_def)
  ultimately show ?thesis by (rule counted_drain)
qed

lemma counted_events:
  assumes "counted n e" and "n + length (good_offsets es) < 2 ^ 64" and "sid = 0 \<or> sid = 1"
    and "run_events sid b es e = (rc, e')"
  shows "counted (n + length (good_offsets es)) e'"
  using assms
proof (induction sid b es e arbitrary: n rc e' rule: run_events.induct)
  case (1 sid b e)
  then show ?case by simp
next
  case (2 sid b es e)
  then show ?case by (simp add: counted_count)
next
  case (3 sid b es e)
  then show ?case by (simp add: counted_count)
next
  case (4 sid b k es e)
  let ?info = "snd (ts_packet_parse (drop k b) zero_info)"
  obtain t e0 where rd: "read_now_ns e = (t, e0)" by fastforce
  let ?e = "e0\<lparr>stats := report_stats_observe_packet (stats e0) sid ?info t\<rparr>"
  obtain c e1 where push: "recovery_engine_push_packet ?e sid (drop k b) ?info = (c, e1)" by fastforce
  have "counted n e0" using "4.prems"(1) numbering.read [of e "next_stream_index e" t e0] rd
    by (simp add: counted_def)
  then have "counted n ?e" by (rule counted_stats) simp
  from counted_push [OF this _ "4.prems"(3) push] "4.prems"(2) have ok: "counted (Suc n) e1" by simp
  have t: "take_packet sid (drop k b) ?info e = (c, e1)" by (simp add: take_packet_def rd push)
  show ?case
  proof (cases "c = 0")
    case True
    then show ?thesis using "4.IH" [OF t [symmetric] _ ok] "4.prems"(2-4) t by simp
  next
    case False
    then show ?thesis using "4.prems"(4) t counted_mono [OF ok] by simp
  qed
qed

lemma scan_count:
  "k \<le> length b \<Longrightarrow> scan_datagram b k = (es, m) \<Longrightarrow> 188 * length (good_offsets es) \<le> length b - k"
proof (induction b k arbitrary: es m rule: scan_datagram.induct)
  case (1 b k)
  show ?case
  proof (cases "length b < k + 188")
    case True
    with 1(5) show ?thesis by (simp add: scan_datagram.simps [of b k])
  next
    case inside: False
    obtain es1 m1 where r: "scan_datagram b (k + 188) = (es1, m1)" by fastforce
    show ?thesis
    proof (cases "parses_at b k")
      case True
      from 1(1) [OF inside True _ r] inside 1(5) True r show ?thesis
        by (auto simp: scan_datagram.simps [of b k])
    next
      case False
      show ?thesis
      proof (cases "find (sync_at b) [Suc k..<length b]")
        case None
        from 1(2) [OF inside False None _ r] inside 1(5) False None r show ?thesis
          by (auto simp: scan_datagram.simps [of b k])
      next
        case (Some j)
        then have j: "k < j" "j \<le> length b" by (auto simp: find_Some_iff)
        obtain es2 m2 where r: "scan_datagram b j = (es2, m2)" by fastforce
        from 1(3) [OF inside False Some j(2) r] inside 1(5) False Some r j show ?thesis
          by (auto simp: scan_datagram.simps [of b k])
      qed
    qed
  qed
qed

lemma counted_datagram:
  assumes "counted n e" and "n + 64 < 2 ^ 64" and "sid = 0 \<or> sid = 1"
    and "length b \<le> INPUT_BUFFER_SIZE" and "process_datagram e sid b = Some (rc, e')"
  shows "counted (n + 64) e'"
proof -
  obtain es m where sc: "scan_datagram b 0 = (es, m)" by fastforce
  obtain c e1 where r: "run_events sid b es (observe_datagram sid b e) = (c, e1)" by fastforce
  have few: "length (good_offsets es) \<le> 64"
    using scan_count [OF _ sc] assms(4) by (simp add: INPUT_BUFFER_SIZE_def TS_PACKET_SIZE_def)
  have "counted (n + length (good_offsets es)) e1"
    using assms(1,2) few by (intro counted_events [OF _ _ assms(3) r]) (simp_all add: counted_count)
  from counted_mono [OF this, of "n + 64"] few have "counted (n + 64) e1" by simp
  then show ?thesis
    using process_datagram_scan [OF assms(4), of e sid] assms(5) sc r
    by (auto simp: datagram_result_def counted_count split: if_splits)
qed

section \<open>Rounds\<close>

text \<open>The web interface refreshes the statistics, but leaves the status fields alone.\<close>

lemma handle_client_status:
  assumes "handle_client env docroot c st = Some (c', st')"
  shows "same_status st st'"
proof -
  have "same_status st (snd (snd (report_stats_format_json f a b d st n)))" for f a b d n
    by (simp add: report_stats_format_json_def Let_def)
  then have "same_status st st2" if "handle_api_stats env c st = Some (c2, st2)" for c2 st2
    using that by (auto simp: handle_api_stats_def split: prod.splits) (metis snd_conv)
  with assms show ?thesis
    by (auto simp: handle_client_def Let_def split: option.splits if_splits prod.splits)
qed

lemma handle_ready_status:
  assumes "web_server_handle_ready env server st s served = Some result"
  shows "same_status st (fst (snd result))"
  using assms
proof (induction rule: web_server_handle_ready.raw_induct [rotated, consumes 1, case_names 1])
  case (1 loop env server st s served result)
  note IH = "1"(1) and prem = "1"(2)
  obtain cfd s1 where a: "os_do (Sys_accept (web_fd server)) s = (cfd, s1)" by fastforce
  obtain r s2 where n: "set_nonblocking cfd s1 = (r, s2)" by fastforce
  obtain ready s3 where w: "wait_for_client_request cfd s2 = (ready, s3)" by fastforce
  consider "cfd < 0" | "0 \<le> cfd" "r \<noteq> 0" | "0 \<le> cfd" "r = 0" "\<not> ready" | "0 \<le> cfd" "r = 0" ready
    by linarith
  then show ?case
  proof cases
    case 1
    with prem a show ?thesis by (auto split: if_splits prod.splits)
  next
    case 2
    with prem a n have "loop env server st (snd (os_do (Sys_close cfd) s2)) served = Some result" by simp
    from IH [OF this] show ?thesis .
  next
    case 3
    with prem a n w have "loop env server st (snd (os_do (Sys_close cfd) s3)) served = Some result" by simp
    from IH [OF this] show ?thesis .
  next
    case 4
    with prem a n w obtain c st1 where
      h: "handle_client env (webroot server) (client_at env (length (os_trace s))) st = Some (c, st1)"
      and l: "loop env server st1 (snd (os_do (Sys_close cfd) s3)) (served @ [c]) = Some result"
      by (auto simp: bind_eq_Some_conv)
    from same_status_trans [OF handle_client_status [OF h] IH [OF l]] show ?thesis .
  qed
qed

lemma counted_web:
  assumes "counted n (run_engine s)" and "serve_web env w s = Some s'"
  shows "counted n (run_engine s')"
  using assms handle_ready_status
  by (auto simp: serve_web_def split: if_splits) (metis counted_stats fst_conv snd_conv)

definition run_counted :: "nat \<Rightarrow> bool \<times> run_state \<Rightarrow> bool" where
  "run_counted n x \<longleftrightarrow> (fst x \<longrightarrow> counted n (run_engine (snd x)))"

lemma counted_input:
  assumes "counted n (run_engine s)" and "n + 64 < 2 ^ 64" and "i = 0 \<or> i = 1"
    and "read_input i b r s = Some x"
  shows "run_counted (n + 64) x"
proof (cases "\<exists>d. b \<and> r = Received d \<and> take INPUT_BUFFER_SIZE d \<noteq> []")
  case True
  then obtain d where d: "b" "r = Received d" "take INPUT_BUFFER_SIZE d \<noteq> []" by blast
  let ?b = "take INPUT_BUFFER_SIZE d"
  from d assms(4) obtain rc e where p: "process_datagram (run_engine s) i ?b = Some (rc, e)"
    and x: "fst x \<longrightarrow> x = (True, s\<lparr>run_engine := e\<rparr>)"
    by (auto simp: read_input_def input_udp_receive_def split: if_splits)
  have "counted (n + 64) e" by (rule counted_datagram [OF assms(1-3) _ p]) simp
  with x show ?thesis by (auto simp: run_counted_def)
next
  case False
  with assms(4) have "x = (True, s) \<or> x = (False, free_engine s)"
    by (auto simp: read_input_def input_udp_receive_def split: if_splits recv_result.splits)
  with counted_mono [OF assms(1)] show ?thesis by (auto simp: run_counted_def)
qed

lemma counted_read: "counted n e \<Longrightarrow> read_now_ns e = (t, e') \<Longrightarrow> counted n e'"
  using numbering.read [of e "next_stream_index e" t e'] by (simp add: counted_def)

lemma counted_print:
  assumes "counted n (run_engine s)"
  shows "counted n (run_engine (print_report env force s))"
proof -
  let ?e = "run_engine s"
  obtain a e1 where 1: "read_now_ns ?e = (a, e1)" by fastforce
  obtain b e2 where 2: "read_now_ns e1 = (b, e2)" by fastforce
  obtain c e3 where 3: "read_now_ns e2 = (c, e3)" by fastforce
  obtain d e4 where 4: "read_wall_time e3 = (d, e4)" by fastforce
  obtain line st where p: "report_stats_maybe_print (time_text (web_side env)) a b c d (stats ?e) force = (line, st)"
    by fastforce
  have ok: "counted n e3" by (rule counted_read [OF counted_read [OF counted_read [OF assms 1] 2] 3])
  then have "counted n e4" using 4 by (auto simp: read_wall_time_def counted_def engine_ok_def al_ok_def)
  moreover have "stats e4 = stats ?e" using 1 2 3 4 by (auto simp: read_now_ns_def read_wall_time_def)
  ultimately have "counted n (e4\<lparr>stats := st\<rparr>)" using counted_stats print_status [OF p] by metis
  then show ?thesis by (simp add: print_report_def 1 2 3 4 p)
qed

lemma counted_end_round:
  assumes "counted n (run_engine s)"
  shows "run_counted n (end_round env reporting s)"
proof -
  obtain rc e where d: "recovery_engine_drain (run_engine s) False = (rc, e)" by fastforce
  obtain t e1 where rd: "read_now_ns e = (t, e1)" by fastforce
  have "counted n e1" by (rule counted_read [OF counted_drain [OF assms d] rd])
  then have "counted n (e1\<lparr>stats := report_stats_tick (stats e1) t\<rparr>)" by (rule counted_stats) simp
  then show ?thesis
    by (auto simp: end_round_def d rd run_counted_def Let_def intro: counted_print)
qed

lemma counted_round:
  assumes "counted n (run_engine s)" and "n + 128 < 2 ^ 64" and "run_round env reporting r s = Some x"
  shows "run_counted (n + 128) x"
proof (cases "selected r")
  case (Select_Ready w p q)
  from assms(3) Select_Ready obtain s1 c0 s2 where
    w: "serve_web env w s = Some s1" and r0: "read_input 0 p (reception r 0) s1 = Some (c0, s2)"
    by (auto simp: run_round_def bind_eq_Some_conv)
  have x0: "run_counted (n + 64) (c0, s2)"
    by (rule counted_input [OF counted_web [OF assms(1) w] _ _ r0]) (use assms(2) in simp_all)
  show ?thesis
  proof (cases c0)
    case False
    with assms(3) Select_Ready w r0 show ?thesis by (auto simp: run_round_def run_counted_def)
  next
    case True
    with assms(3) Select_Ready w r0 obtain c1 s3 where
      r1: "read_input 1 q (reception r 1) s2 = Some (c1, s3)" by (auto simp: run_round_def bind_eq_Some_conv)
    have "n + 128 = n + 64 + 64" by simp
    then have x1: "run_counted (n + 128) (c1, s3)"
      using counted_input [OF _ _ _ r1, of "n + 64"] x0 True assms(2) by (simp only: run_counted_def) simp
    with assms(3) Select_Ready w r0 r1 True counted_end_round [of "n + 128" s3] show ?thesis
      by (auto simp: run_round_def run_counted_def split: if_splits)
  qed
next
  case Select_Failed
  with assms(3) show ?thesis by (auto simp: run_round_def run_counted_def)
next
  case Select_Interrupted
  with assms(1,3) counted_mono [OF assms(1)] show ?thesis by (auto simp: run_round_def run_counted_def)
qed

lemma counted_rounds:
  assumes "counted n (run_engine s)" and "n + 128 * length rs < 2 ^ 64"
    and "run_rounds env reporting rs s = Some (True, s')"
  shows "counted (n + 128 * length rs) (run_engine s')"
  using assms
proof (induction rs arbitrary: s n)
  case Nil
  then show ?case by simp
next
  case (Cons r rs)
  from Cons.prems(3) obtain s1 where r: "run_round env reporting r s = Some (True, s1)"
    and rest: "run_rounds env reporting rs s1 = Some (True, s')"
    by (auto simp: bind_eq_Some_conv split: if_splits)
  have "counted (n + 128) (run_engine s1)"
    using counted_round [OF Cons.prems(1) _ r] Cons.prems(2) by (simp add: run_counted_def)
  from Cons.IH [OF this _ rest] Cons.prems(2) show ?case by (simp add: add.assoc)
qed

lemma init_numbers:
  "recovery_engine_init_with_config alloc snk st w cfg = (0, e) \<Longrightarrow> next_stream_index e = (\<lambda>_. 0)"
  by (auto simp: recovery_engine_init_with_config_def zero_engine_def Let_def split: prod.splits if_splits)

text \<open>
  C8. In the program the engine is well-formed all the time. From the engine that \<open>run_loop\<close> sets
  up, after any rounds of the loop that did not end it, whatever was received, served and printed in
  them, the engine satisfies its invariant (numbered histories, queues in order, limits, statistics
  that agree with it). Only the length of the run is limited, to 2^57 rounds; then no stream index has
  wrapped, because the receive buffer holds at most 64 packets.
\<close>

theorem main_engine_well_formed:
  assumes "recovery_engine_init_with_config (engine_alloc env) snk (report_stats_init now)
      (engine_world env) cfg = (0, run_engine s)"
    and "length rounds < 2 ^ 57"
    and "run_rounds env reporting rounds s = Some (True, s')"
  shows "engine_ok (run_engine s')"
proof -
  have "engine_ok (run_engine s)"
    by (rule engine_ok_init [OF assms(1)]) (simp_all add: report_stats_init_def zero_stats_def)
  moreover have "next_stream_index (run_engine s) = (\<lambda>_. 0)"
    by (rule init_numbers [OF assms(1)])
  ultimately have "counted 0 (run_engine s)" by (simp add: counted_def)
  from counted_rounds [OF this _ assms(3)] assms(2) show ?thesis by (simp add: counted_def)
qed

lemma main_engine_well_formed_witness:
  "\<exists>e. engine_ok (run_engine \<lparr>run_engine = e, run_web = \<lparr>web_fd = -1, webroot = []\<rparr>, web_enabled = False,
     run_web_fd = -1, run_os = ex_os, console = []\<rparr>)"
proof -
  obtain rc e where i: "recovery_engine_init_with_config (engine_alloc ex_main)
      (output_udp_as_packet_sink (output_udp_opened 3 None (\<lambda>_. 1316))) (report_stats_init 5)
      (engine_world ex_main) recovery_engine_default_config = (rc, e)" by fastforce
  with init_engine [OF i] have "rc = 0" by (simp add: ex_main_def)
  let ?s = "\<lparr>run_engine = e, run_web = \<lparr>web_fd = -1, webroot = []\<rparr>, web_enabled = False,
     run_web_fd = -1, run_os = ex_os, console = []\<rparr>"
  let ?rounds = "[\<lparr>selected = Select_Interrupted, reception = (\<lambda>_. Would_Block)\<rparr>]"
  have "run_rounds ex_main True ?rounds ?s = Some (True, ?s)" by (simp add: run_round_def)
  from main_engine_well_formed [OF _ _ this] i \<open>rc = 0\<close> show ?thesis by auto
qed

end
