(* ===== verification/Command_Usage.thy ===== *)
theory Command_Usage
  imports Command_Line
begin

text \<open>
  What the command line prints on stderr (src/src/command_line.c lines 10 to 90 and the
  \<open>fprintf\<close> calls of the parser): the text of the messages of \<open>Command_Line\<close>.
\<close>

definition printed_lines :: "string list \<Rightarrow> string" where
  "printed_lines ls = concat (map (\<lambda>l. l @ [CHR 0x0A]) ls)"

definition command_line_print_usage :: "string \<Rightarrow> string" where
  "command_line_print_usage program_name =
     (let d = recovery_engine_default_config
      in printed_lines
       [''Usage:'',
        ''  '' @ program_name @ '' --input-primary-url <url> --input-secondary-url <url> [options]'',
        [],
        ''Options:'',
        ''  --input-primary-url <url>'',
        ''      Required. UDP URL for stream #1, the preferred source of truth.'',
        ''      Multicast group URLs automatically join the group with IGMP.'',
        [],
        ''  --input-secondary-url <url>'',
        ''      Required. UDP URL for stream #2, the delayed recovery witness.'',
        ''      Multicast group URLs automatically join the group with IGMP.'',
        [],
        ''  --input-primary-interface <ipv4>'',
        ''      Local interface IPv4 address used when joining the primary multicast group.'',
        ''      Default: 0.0.0.0'',
        [],
        ''  --input-secondary-interface <ipv4>'',
        ''      Local interface IPv4 address used when joining the secondary multicast group.'',
        ''      Default: 0.0.0.0'',
        [],
        ''  --output-url <url>'',
        ''      UDP destination for recovered output. Default: '' @ DEFAULT_OUTPUT_URL,
        [],
        ''  --http-port <number>'',
        ''      Enable the REST stats API and web UI on 127.0.0.1:<number>.'',
        ''      Default: disabled'',
        [],
        ''  --console-report'',
        ''      Print per-second statistics to the console.'',
        ''      Default: disabled'',
        [],
        ''  --primary-delay-ms <ms>'',
        ''      Milliseconds to delay stream #1 before output, allowing stream #2 time to arrive.'',
        ''      Default: '' @ decimal (unat (primary_delay_ns d div 1000000)),
        [],
        ''  --max-secondary-latency-ms <ms>'',
        ''      Maximum trusted arrival latency from stream #1 to stream #2 for recovery matches.'',
        ''      Default: '' @ decimal (unat (max_secondary_latency_ns d div 1000000)),
        [],
        ''  --alignment-window-ms <ms>'',
        ''      Arrival-time search window used when comparing packets for stream alignment.'',
        ''      Default: '' @ decimal (unat (alignment_window_ns d div 1000000)),
        [],
        ''  --history-ms <ms>'',
        ''      Rolling packet history target, used to size primary and secondary buffers.'',
        ''      Default: '' @ decimal (unat (history_ms d)),
        [],
        ''  --primary-outage-ms <ms>'',
        ''      Silence on stream #1 before output fails over to stream #2.'',
        ''      Default: '' @ decimal (unat (primary_outage_ns d div 1000000)),
        [],
        ''  --primary-return-ms <ms>'',
        ''      Healthy stream #1 warm-up time before returning from stream #2.'',
        ''      Default: '' @ decimal (unat (primary_return_ns d div 1000000)),
        [],
        ''  --max-content-burst-packets <count>'',
        ''      Maximum content packets to recover in one conservative burst.'',
        ''      Default: '' @ decimal (unat (max_content_burst_packets d)),
        [],
        ''  --min-alignment-confidence <0-100>'',
        ''      Minimum alignment confidence required before content recovery.'',
        ''      Default: '' @ decimal (unat (min_alignment_confidence d)),
        [],
        ''  -h, --help'',
        ''      Show this help page.''])"

fun message_text :: "string \<Rightarrow> message \<Rightarrow> string" where
  "message_text program_name (Unknown_Option n) = printed_lines [''unknown option: '' @ n]"
| "message_text program_name (Duplicate_Option n) = printed_lines [''duplicate option: '' @ n]"
| "message_text program_name (Missing_Value n) = printed_lines [''missing value for option: '' @ n]"
| "message_text program_name (Invalid_Milliseconds n v) =
     printed_lines [''invalid millisecond value for '' @ n @ '': '' @ v]"
| "message_text program_name (Invalid_Integer n v) =
     printed_lines [''invalid integer value for '' @ n @ '': '' @ v]"
| "message_text program_name (Invalid_Bounded_Integer n v) =
     printed_lines [''invalid bounded integer value for '' @ n @ '': '' @ v]"
| "message_text program_name (Invalid_Port n v) =
     printed_lines [''invalid TCP port for '' @ n @ '': '' @ v]"
| "message_text program_name Urls_Required = printed_lines [''both input URLs are required'']"
| "message_text program_name Usage = command_line_print_usage program_name"

text \<open>All that a call of the parser prints; \<open>argv\<close> starts with the program name.\<close>

definition command_line_stderr :: "string list \<Rightarrow> string" where
  "command_line_stderr argv =
     (case command_line_parse argv of (_, _, m) \<Rightarrow> concat (map (message_text (hd argv)) m))"

text \<open>The usage page is printed at most once, and last.\<close>

lemma apply_option_no_usage:
  "apply_option t n v opts = Inl m \<Longrightarrow> Usage \<notin> set m"
  by (auto simp: apply_option_def parse_u64_ms_option_def parse_u64_option_def parse_u32_option_def
      split: option_target.splits sum.splits prod.splits if_splits)

lemma parse_options_usage:
  "parse_options args opts = (rc, opts', m) \<Longrightarrow>
     m = [] \<and> rc = 0 \<or> (\<exists>m'. m = m' @ [Usage] \<and> Usage \<notin> set m' \<and> rc \<noteq> 0)"
proof (induction args opts rule: parse_options.induct)
  case (1 opts)
  then show ?case by (auto split: if_splits)
next
  case (2 name rest opts)
  then show ?case
    by (auto simp: parse_options.simps(2) Let_def split: if_splits list.splits sum.splits
        dest: apply_option_no_usage)
qed

end
