(* ===== verification/Report_Theorems.thy ===== *)
theory Report_Theorems
  imports Web_Theorems
begin

text \<open>
  The statistics document always fits the response buffer of the web server: its length is
  bounded field by field. Doubles are assumed to be at most 2^100 in size, far above what the
  engine can compute (see \<open>Binary64\<close>), and times as short as their buffer of 64 bytes.
\<close>

section \<open>Lengths of numbers\<close>

lemma fmt_u64_length [simp]: "length (fmt_u64 w) \<le> 20"
proof -
  have "unat w < 2 ^ 64" by (rule order_less_le_trans [OF unsigned_less]) simp
  then show ?thesis using decimal_length [of "unat w" 20] by (simp add: fmt_u64_def)
qed

lemma fmt_u32_length [simp]: "length (fmt_u32 w) \<le> 20"
proof -
  have "unat w < 2 ^ 32" by (rule order_less_le_trans [OF unsigned_less]) simp
  then show ?thesis using decimal_length [of "unat w" 20] by (simp add: fmt_u32_def)
qed

lemma fmt_int_length: "\<bar>i\<bar> < 2 ^ 63 \<Longrightarrow> length (fmt_int i) \<le> 20"
  using decimal_length [of "nat (- i)" 19] decimal_length [of "nat i" 19]
  by (auto simp: fmt_int_def nat_less_iff)

lemma fmt_fixed_length:
  assumes "\<bar>x\<bar> \<le> 2 ^ 100" and "k \<le> 3"
  shows "length (fmt_fixed k x) \<le> 40"
proof -
  define n where "n = nat (round_half_even (\<bar>x\<bar> * 10 ^ k))"
  have "\<bar>x\<bar> * 10 ^ k \<le> of_int (2 ^ 100 * 10 ^ k)" using assms(1) by (simp add: mult_right_mono)
  from round_half_even_mono [OF this] have "round_half_even (\<bar>x\<bar> * 10 ^ k) \<le> 2 ^ 100 * 10 ^ k"
    by (simp only: round_half_even_int)
  then have "n \<le> 2 ^ 100 * 10 ^ k" by (simp add: n_def nat_le_iff)
  then have "n div 10 ^ k \<le> 2 ^ 100" by (metis div_le_mono nonzero_mult_div_cancel_right power_not_zero zero_neq_numeral)
  then have "n div 10 ^ k < 10 ^ 31" by (rule le_less_trans) simp
  from decimal_length [OF this] have whole: "length (decimal (n div 10 ^ k)) \<le> 31" by simp
  have rest: "length (decimal (n mod 10 ^ k)) \<le> k" if "0 < k"
    by (rule decimal_length [OF _ that]) simp
  have "length (fmt_fixed k x) \<le> 1 + length (decimal (n div 10 ^ k)) + (if k = 0 then 0 else Suc k)"
    using rest unfolding fmt_fixed_def Let_def n_def [symmetric] by (cases "k = 0") auto
  also have "\<dots> \<le> 40" using whole assms(2) by (cases "k = 0") (simp_all del: power_0 div_by_1)
  finally show ?thesis .
qed

lemma f64_round_limit: "f64_round (2 ^ 100) = 2 ^ 100"
  by (simp add: f64_round_def f64_round_pos_def f64_exponent_def f64_ulp_exponent_def log2_floor.simps
      pow2_def)

lemma fmt_ms_length:
  assumes "\<bar>x\<bar> \<le> 2 ^ 100"
  shows "length (fmt_ms x) \<le> 40"
proof -
  have "x / 1000000 \<le> 2 ^ 100" "- (2 ^ 100) \<le> x / 1000000"
    using assms by (simp_all add: abs_le_iff divide_le_eq le_divide_eq)
  then have "f64_div x 1000000 \<le> 2 ^ 100" "- (2 ^ 100) \<le> f64_div x 1000000"
    using f64_round_mono [of "x / 1000000" "2 ^ 100"] f64_round_mono [of "- (2 ^ 100)" "x / 1000000"]
    unfolding f64_div_def f64_round_minus f64_round_limit by simp_all
  then have "\<bar>f64_div x 1000000\<bar> \<le> 2 ^ 100" by (simp add: abs_le_iff)
  then show ?thesis unfolding fmt_ms_def by (rule fmt_fixed_length) simp
qed

section \<open>Lengths of JSON\<close>

lemma joined_length: "length (joined ss) \<le> sum_list (map length ss) + length ss"
  by (induction ss rule: joined.induct) simp_all

lemma render_both_length:
  "length (render (f 0)) \<le> n \<Longrightarrow> length (render (f 1)) \<le> n \<Longrightarrow> length (render (j_both f)) \<le> 2 * n + 3"
  by (simp add: j_both_def)

lemma render_u64_length [simp]: "length (render (j_u64 w)) \<le> 20"
  by (simp add: j_u64_def)

lemma render_both_u64 [simp]: "length (render (j_both (\<lambda>i. j_u64 (f i)))) \<le> 43"
  using render_both_length [of "\<lambda>i. j_u64 (f i)" 20] by simp

lemma render_both_u32 [simp]: "length (render (j_both (\<lambda>i. J_Number (fmt_u32 (f i))))) \<le> 43"
  using render_both_length [of "\<lambda>i. J_Number (fmt_u32 (f i))" 20] by simp

lemma stream_health_name_length: "length (stream_health_name h) \<le> 10"
  by (cases h) simp_all

lemma render_health [simp]:
  "length (render (J_String (stream_health_name h))) \<le> 12"
  "length (render (j_both (\<lambda>i. J_String (stream_health_name (f i))))) \<le> 27"
  using stream_health_name_length [of h] stream_health_name_length [of "f 0"] stream_health_name_length [of "f 1"]
  by (simp_all add: quoted_def j_both_def)

text \<open>An object, given bounds for its values.\<close>

lemma render_object_length:
  assumes "list_all2 (\<lambda>(k, v) n. length (render v) \<le> n) fs ns"
  shows "length (render (J_Object fs)) \<le> 2 + sum_list (map (\<lambda>(k, v). length k + 4) fs) + sum_list ns"
proof -
  have "sum_list (map (\<lambda>(k, v). length (quoted k @ '':'' @ render v)) fs) \<le>
      sum_list (map (\<lambda>(k, v). length k + 3) fs) + sum_list ns"
    using assms by (induction fs ns rule: list_all2_induct) (auto simp: quoted_def)
  moreover have "sum_list (map (\<lambda>(k, v). length k + 4) fs) = sum_list (map (\<lambda>(k, v). length k + 3) fs) + length fs"
    by (induction fs) auto
  ultimately show ?thesis
    using joined_length [of "map (\<lambda>(k, v). quoted k @ '':'' @ render v) fs"]
    by (simp add: o_def case_prod_unfold)
qed

section \<open>The document\<close>

definition figures_bounded :: "report_stats \<Rightarrow> bool" where
  "figures_bounded st \<longleftrightarrow>
     \<bar>alignment_offset_packets st\<bar> < 2 ^ 63 \<and> \<bar>active_output_stream_id st\<bar> < 2 ^ 63 \<and>
     list_all (\<lambda>x. \<bar>x\<bar> \<le> 2 ^ 100)
       [pcr_bitrate_bps st 0, pcr_bitrate_bps st 1, pcr_delay_ns st,
        observed_secondary_latency_min_ns st, observed_secondary_latency_avg_ns st,
        observed_secondary_latency_max_ns st, observed_secondary_latency_jitter_ns st]"

lemma figures_bounded_kept:
  "figures_bounded (update_stream_health (report_stats_tick st a) b) = figures_bounded st"
  by (simp add: figures_bounded_def update_stream_health_def report_stats_tick_def
      capture_rolling_sample_def Let_def)

lemma render_latency:
  assumes "figures_bounded st"
  shows "length (render (J_Object
           [(''min'', J_Number (fmt_ms (observed_secondary_latency_min_ns st))),
            (''avg'', J_Number (fmt_ms (observed_secondary_latency_avg_ns st))),
            (''max'', J_Number (fmt_ms (observed_secondary_latency_max_ns st))),
            (''jitter'', J_Number (fmt_ms (observed_secondary_latency_jitter_ns st))),
            (''samples'', j_u64 (observed_secondary_latency_samples st))])) \<le> 250"
  using assms
  by (intro order_trans [OF render_object_length [of _ "[40, 40, 40, 40, 20]"]])
    (simp_all add: figures_bounded_def fmt_ms_length)

lemma render_rejects:
  "length (render (J_Object
           [(''low_alignment'', j_u64 a0), (''secondary_late'', j_u64 a1), (''tei'', j_u64 a2),
            (''discontinuity'', j_u64 a3), (''wrong_pid'', j_u64 a4), (''wrong_counter'', j_u64 a5),
            (''ambiguous'', j_u64 a6), (''burst_too_large'', j_u64 a7),
            (''missing_candidate'', j_u64 a8)])) \<le> 340"
  by (intro order_trans [OF render_object_length [of _ "[20, 20, 20, 20, 20, 20, 20, 20, 20]"]]) simp_all

lemma render_texts:
  assumes "\<forall>t. length (tt t) < 64"
  shows "length (render (J_String (tt t))) \<le> 65"
    and "length (render (J_String (report_stats_wall_time tt t))) \<le> 65"
  using assms [rule_format, of t] by (simp_all add: quoted_def report_stats_wall_time_def)

lemma render_figures:
  assumes "figures_bounded st"
  shows "length (render (J_Number (fmt_int (alignment_offset_packets st)))) \<le> 20"
    and "length (render (J_Number (fmt_int (active_output_stream_id st)))) \<le> 20"
    and "length (render (j_both (\<lambda>i. J_Number (fmt_fixed 0 (pcr_bitrate_bps st i))))) \<le> 83"
    and "length (render (J_Number (fmt_fixed 0 (pcr_delay_ns st)))) \<le> 40"
    and "length (render (J_Number (fmt_u32 w))) \<le> 20"
  using assms render_both_length [of "\<lambda>i. J_Number (fmt_fixed 0 (pcr_bitrate_bps st i))" 40]
  by (simp_all add: figures_bounded_def fmt_int_length fmt_fixed_length)

lemma stats_json_length:
  assumes "figures_bounded st" and "\<forall>t. length (tt t) < 64"
  shows "length (render (stats_json tt now st)) < HTTP_RESPONSE_SIZE"
proof -
  note parts = render_figures [OF assms(1)] render_texts [OF assms(2)] render_latency [OF assms(1)]
    render_rejects
  have "length (render (stats_json tt now st)) \<le> 8000"
    unfolding stats_json_def Let_def
    by (intro order_trans [OF render_object_length [of _
        "[65, 43, 43, 43, 43, 43, 43, 43, 43, 43, 43, 27, 12, 43, 43, 43, 20, 20, 43, 83, 40, 20,
          250, 20, 20, 65, 20, 20, 20, 20, 20, 20, 20, 20, 20, 340, 20, 20, 20, 20, 20, 20, 20, 20, 20,
          20, 43, 20, 20]"]])
      (simp_all only: list_all2_Cons list_all2_Nil prod.case parts render_u64_length render_both_u64
        render_both_u32 render_health simp_thms, simp)
  then show ?thesis by (simp add: HTTP_RESPONSE_SIZE_def)
qed

lemma report_stats_format_json_complete:
  assumes "figures_bounded st" and "\<forall>t. length (tt t) < 64"
  shows "report_stats_format_json tt tick_ns health_ns now st HTTP_RESPONSE_SIZE =
     (let st' = update_stream_health (report_stats_tick st tick_ns) health_ns;
          text = render (stats_json tt now st')
      in (int (length text), text, st'))"
proof -
  let ?st = "update_stream_health (report_stats_tick st tick_ns) health_ns"
  have "figures_bounded ?st" using assms(1) by (simp only: figures_bounded_kept)
  from stats_json_length [OF this assms(2), of now]
  have "\<not> HTTP_RESPONSE_SIZE \<le> length (render (stats_json tt now ?st))" by (simp only: not_le)
  moreover from this have "take (HTTP_RESPONSE_SIZE - 1) (render (stats_json tt now ?st)) =
      render (stats_json tt now ?st)" by (intro take_all) linarith
  ultimately show ?thesis by (simp only: report_stats_format_json_def Let_def if_False)
qed

text \<open>
  C39. The statistics document always fits the buffer of the web server: whatever the counters
  are, a request for it is answered with status 200 and the complete document, rendered from the
  refreshed statistics, and never with the error 500 or a truncated text. Bitrates, delays and
  latencies are taken to be at most 2^100 in size, and a time to have the 63 characters of its
  buffer at most.
\<close>

theorem api_stats_complete:
  assumes "figures_bounded st" and "\<forall>t. length (time_text env t) < 64"
  shows "handle_api_stats env c st =
     (let st' = update_stream_health (report_stats_tick st (tick_reading c)) (health_reading c)
      in map_option (\<lambda>c. (c, st'))
           (send_response c 200 ''OK'' ''application/json; charset=utf-8''
             (render (stats_json (time_text env) (wall_reading c) st'))))"
  using report_stats_format_json_complete [OF assms]
  by (simp only: handle_api_stats_def Let_def prod.case of_nat_less_0_iff if_False)

lemma api_stats_complete_witness:
  "handle_api_stats (ex_env (\<lambda>_. No_File)) (ex_client []) zero_stats =
     (let st' = update_stream_health (report_stats_tick zero_stats (tick_reading (ex_client [])))
                  (health_reading (ex_client []))
      in map_option (\<lambda>c. (c, st'))
           (send_response (ex_client []) 200 ''OK'' ''application/json; charset=utf-8''
             (render (stats_json (\<lambda>_. []) (wall_reading (ex_client [])) st'))))"
  using api_stats_complete [of zero_stats "ex_env (\<lambda>_. No_File)" "ex_client []"]
  by (simp add: figures_bounded_def zero_stats_def ex_env_def)

end
