(* ===== verification/Spec2Isabelle.thy ===== *)
theory Spec2Isabelle
  imports Main_Invariant Command_Usage Report_Theorems
begin

text \<open>
  A model of \<open>two_stream_recovery\<close>, a C program that receives the same MPEG transport stream
  over two UDP inputs, repairs the losses of the first (the primary) with packets of the second
  (the secondary), and sends the result as UDP datagrams of seven packets.

  Parts of the program and the theories that model them (paths are under src/src/):

  \<^item> \<open>Ts_Packet\<close>: \<open>ts_packet.c\<close>, the parser of packet header and adaptation field.
  \<^item> \<open>Packet_Sink\<close>, \<open>Output_Udp\<close>: \<open>packet_sink.h\<close> and the buffering of \<open>output_udp.c\<close>. The
    locale \<open>ts_sink\<close> is the contract between the engine and its output; it is interpreted on the
    UDP output.
  \<^item> \<open>C_Strings\<close>, \<open>Udp_Url\<close>, \<open>Os_Calls\<close>, \<open>Udp_Sockets\<close>: string functions of the C library, the
    addresses, the system calls and the sockets of \<open>input_udp.c\<close> and \<open>output_udp.c\<close>.
  \<^item> \<open>Binary64\<close>, \<open>Report_Stats\<close>, \<open>Stream_Health\<close>, \<open>Stats_Report\<close>: \<open>report_stats.c\<close>, the counters,
    the rolling samples, the health levels, the JSON document and the console line. A C \<open>double\<close>
    is a rational number with every operation followed by rounding to binary64.
  \<^item> \<open>Packet_Record\<close>, \<open>Packet_History\<close>, \<open>Delay_Queue\<close>, \<open>Engine_Types\<close>: the data of
    \<open>recovery_engine.c\<close>. The locale \<open>bounded_fifo\<close> is the contract of the delay queue.
  \<^item> \<open>Output_State\<close>, \<open>Output_Frame\<close>: continuity counters of the output and sending a record.
  \<^item> \<open>Alignment\<close>: the mapping between the packet numbers of the two inputs.
  \<^item> \<open>Candidates\<close>, \<open>Gap_Validation\<close>, \<open>Gap_Recovery\<close>, \<open>Gap_Decision\<close>: finding, checking and
    filling a gap of the primary.
  \<^item> \<open>Failover\<close>: using the secondary while the primary is silent.
  \<^item> \<open>Drain\<close>: the operations of the engine (\<open>init\<close>, \<open>push_packet\<close>, \<open>drain\<close>, \<open>flush\<close>, \<open>free\<close>).
  \<^item> \<open>Datagram\<close>: \<open>process_datagram\<close> of \<open>main.c\<close>, which cuts datagrams into packets.
  \<^item> \<open>Command_Line\<close>, \<open>Command_Usage\<close>: \<open>command_line.c\<close>, messages as values and their text.
  \<^item> \<open>Web_Server\<close>: \<open>web_server.c\<close>, the accept loop, requests and responses.
  \<^item> \<open>Main_Loop\<close>: \<open>run_loop\<close> and \<open>main\<close> of \<open>main.c\<close>, composed of all of the above.

  How the parts interact. \<open>program_main\<close> parses the arguments, opens two inputs and the output,
  and hands them to \<open>run_loop\<close>. Each round of the loop may serve the web interface, which reads
  and refreshes the statistics of the engine, and reads a datagram per ready input;
  \<open>process_datagram\<close> pushes its packets into the engine, which stores and queues them, learns the
  alignment of the inputs and drains its queues into the sink, the UDP output. The round ends with
  another drain. After a signal the engine is flushed and everything is closed.

  State and effects. The C structs are records; pointers into a buffer are the record itself or
  its slot. Integers have the width of the code, and \<open>size_t\<close> values that index a buffer are
  natural numbers. Everything outside the program is a parameter: the results of the system calls
  that create, configure or close a descriptor (the record \<open>os\<close>, which keeps the trace of the calls), of
  \<open>sendto\<close>, \<open>select\<close>, \<open>recv\<close> and the allocations, the peers and files of the web interface,
  \<open>inet_pton\<close>, the calendar (\<open>localtime_r\<close>, \<open>strftime\<close>), and the readings of the clocks
  (\<open>world\<close>), which are numbered in the order in which the code takes them. A line of the decision
  log is the record of its values.

  Loops are recursive functions whose termination is proved, by the distance to the loop bound
  or by the length of the queue that each round shortens; no fuel is used. The loops whose end
  depends on their input or on the outside (\<open>datagram_loop\<close>, \<open>send_all\<close>, \<open>web_server_handle_ready\<close>
  and what calls them) return an option, \<open>None\<close> for a loop that never ends, and theorems say when
  they end: \<open>process_datagram\<close> always, for a datagram that fits the receive buffer, the other two as soon
  as the system stops interrupting \<open>send\<close> and has no more clients. A run of the program is a list of rounds of
  \<open>run_loop\<close> up to a signal.

  What the lemmas show:

  \<^item> the ring buffers refine lists, and the search loops find what they should;
  \<^item> \<open>Recovery_Theorems\<close>: what each recovery sends when its validator accepts, and that a
    rejection changes nothing but the log and the counters;
  \<^item> \<open>Drain_Theorems\<close>: the output of a drain is the primary stream in order, with insertions
    from the secondary only, each packet at its time;
  \<^item> \<open>Drain_Preserves\<close>: the locale \<open>drain_preserves\<close>, a predicate kept by every elementary
    step of a drain is kept by the drain; it is interpreted on the invariant of the engine and on
    the provenance of its packets;
  \<^item> \<open>Engine_Invariant\<close>: the invariant of every reachable engine;
  \<^item> \<open>Failover_Theorems\<close>: when the output changes to the secondary and back;
  \<^item> \<open>Datagram_Theorems\<close>: the cutting of a datagram, with its wrapping offsets, refines a scan of
    the received bytes;
  \<^item> \<open>Origin\<close>: every packet in the engine and in the output is one that was pushed;
  \<^item> \<open>Stream_Health\<close>, \<open>Udp_Url\<close>, \<open>Udp_Sockets\<close>, \<open>Command_Line_Theorems\<close>, \<open>Web_Theorems\<close>: the health
    levels, the round trips of addresses and options, the descriptors, complete sending, and
    the files a request can reach;
  \<^item> \<open>Report_Theorems\<close>: the JSON document fits the buffer of the web server;
  \<^item> \<open>Main_Theorems\<close>, \<open>Main_Invariant\<close>: the program ends, sends only what it received, closes its
    sockets, and its engine stays well-formed.

  Not modelled: the text of the decision log (its values are), what \<open>perror\<close> and the
  socket code print on stderr, the signal handler (a signal is the end of the list of
  rounds), unused declarations, the browser assets and the test drivers. The descriptors that
  \<open>select\<close> and \<open>recv\<close> get in the main loop are not part of the trace of system calls.
\<close>

end
